theory Spec2Isabelle
  imports Complex_Main
begin

section \<open>The shock-tube solver of STCalc, embedded\<close>

text \<open>
  The model follows \<^verbatim>\<open>src/js/euler-solver.js\<close> (class EulerSolver) and the
  integrator classes of \<^verbatim>\<open>src/js/xt-mixture.js\<close> (TimeIntegrator, RK2Integrator,
  SSPIntegrator, IntegratorFactory).

  Conventions of the embedding.
  \<^item> A JavaScript number is a \<^typ>\<open>real\<close>: arithmetic is exact, and the values NaN and
    Infinity do not exist. Where the source would divide by zero or take the root of a
    negative number the theorems below carry a hypothesis that excludes it. The
    rounding of Float64 is modelled only for the arithmetic of the SSP stages
    (\<open>f64\<close> and the functions built on it), where a claim turns on it.
  \<^item> A Float64Array or Array is a list. A write \<^verbatim>\<open>a[i] = v\<close> is \<open>a[i := v]\<close>, which
    like a typed array ignores an index out of range.
  \<^item> A loop \<^verbatim>\<open>for (i = 0; i < n; i++) a[i] = e\<close> whose right-hand side reads only
    arrays the loop does not write, and possibly \<^verbatim>\<open>a[i]\<close> itself, is \<open>array_loop n f a\<close>
    with \<open>f i (a ! i)\<close> the right-hand side. A loop that writes several arrays is
    written as one \<open>array_loop\<close> per array.
  \<^item> A property access on \<^verbatim>\<open>undefined\<close> or \<^verbatim>\<open>null\<close> throws a TypeError, and
    \<^verbatim>\<open>TypedArray.set\<close> with a source longer than the target throws a RangeError; these
    are the only exceptions the solver can raise, and they are values of type \<open>error\<close>.
  \<^item> The single-letter fields x, u, p, T and t of the solver carry the suffix \<open>_f\<close>,
    and so does the buffer Un (its name is HOL's ASCII notation for union); the fields
    of a slab, a region, a tracer and a snapshot carry a prefix.
\<close>

subsection \<open>Data\<close>

datatype error = TypeError | RangeError

record slab =
  slab_gasId :: string
  slab_gamma :: real
  slab_mw :: real
  slab_pressure :: real
  slab_temperature :: real
  slab_length :: real

text \<open>An entry of \<^verbatim>\<open>regions\<close> or \<^verbatim>\<open>materialProperties\<close>: \<^verbatim>\<open>{gamma, mw, gasId}\<close>.\<close>

record gasprops =
  gp_gamma :: real
  gp_mw :: real
  gp_gasId :: string

text \<open>A tracer \<^verbatim>\<open>{x, trajectory: [{t, x}]}\<close>; a trajectory point is the pair (t, x).\<close>

record tracer =
  tr_x :: real
  trajectory :: "(real \<times> real) list"

record snapshot =
  snap_t :: real
  snap_rho :: "real list"
  snap_u :: "real list"
  snap_p :: "real list"
  snap_T :: "real list"
  snap_gamma :: "real list"
  snap_mw :: "real list"
  snap_gasId :: "string option list"

datatype integrator = RK2Integrator | SSPIntegrator

text \<open>The constructor's argument; a field that is absent is \<open>None\<close>.\<close>

record config =
  cfg_nx :: "nat option"
  cfg_cfl :: "real option"
  cfg_finalTime :: "real option"
  cfg_interfaceMethod :: "string option"
  cfg_integrator :: "string option"
  cfg_xtInterval :: "real option"

text \<open>
  The fields of an EulerSolver instance. An entry of \<open>gasId\<close> is \<open>None\<close> while the
  slot of \<^verbatim>\<open>new Array(nx)\<close> is still empty; \<open>materialFractions\<close> and \<open>materialFlux\<close>
  are \<open>None\<close> while they are \<^verbatim>\<open>null\<close>.
\<close>

record solver =
  nx :: nat
  cfl :: real
  finalTime :: real
  interfaceMethod :: string
  integrator :: integrator
  x_f :: "real list"
  dx :: real
  U :: "real list"
  Un_f :: "real list"
  Uk :: "real list"
  rho :: "real list"
  u_f :: "real list"
  p_f :: "real list"
  T_f :: "real list"
  gamma :: "real list"
  mw :: "real list"
  gasId :: "string option list"
  flux :: "real list"
  t_f :: real
  dt :: real
  timeSteps :: nat
  xtData :: "snapshot list"
  xtInterval :: real
  nextXTStore :: real
  tracers :: "tracer list"
  regions :: "gasprops list"
  numMaterials :: nat
  materialFractions :: "real list option"
  materialProperties :: "gasprops list"
  materialFlux :: "real list option"
  interfaceCells :: "nat set"
  Ru :: real

subsection \<open>Helpers for JavaScript idioms\<close>

text \<open>\<^verbatim>\<open>for (let i = 0; i < n; i++) a[i] = f(i, a[i])\<close>\<close>

definition array_loop :: "nat \<Rightarrow> (nat \<Rightarrow> 'a \<Rightarrow> 'a) \<Rightarrow> 'a list \<Rightarrow> 'a list" where
  "array_loop n f a = fold (\<lambda>i b. b[i := f i (b ! i)]) [0..<n] a"

text \<open>\<^verbatim>\<open>xs[i].field\<close>: a TypeError when \<^verbatim>\<open>xs[i]\<close> is undefined.\<close>

definition lookup :: "'a list \<Rightarrow> nat \<Rightarrow> error + 'a" where
  "lookup xs i = (if i < length xs then Inr (xs ! i) else Inl TypeError)"

text \<open>\<^verbatim>\<open>v || d\<close> for a number (0 and undefined are falsy) and for a string (the empty
  string and undefined are falsy).\<close>

definition or_nat :: "nat option \<Rightarrow> nat \<Rightarrow> nat" where
  "or_nat v d = (case v of None \<Rightarrow> d | Some n \<Rightarrow> if n = 0 then d else n)"

definition or_num :: "real option \<Rightarrow> real \<Rightarrow> real" where
  "or_num v d = (case v of None \<Rightarrow> d | Some r \<Rightarrow> if r = 0 then d else r)"

definition or_str :: "string option \<Rightarrow> string \<Rightarrow> string" where
  "or_str v d = (case v of None \<Rightarrow> d | Some w \<Rightarrow> if w = [] then d else w)"

subsection \<open>IntegratorFactory and the constructor\<close>

text \<open>
  \<^verbatim>\<open>IntegratorFactory.create(name)\<close>: the integrator, and the lines it writes with
  \<^verbatim>\<open>console.warn\<close>.
\<close>

definition IntegratorFactory_create :: "string \<Rightarrow> integrator \<times> string list" where
  "IntegratorFactory_create name =
     (if name = ''RK2'' then (RK2Integrator, [])
      else if name = ''SSP'' then (SSPIntegrator, [])
      else (RK2Integrator, [''Unknown integrator: '' @ name @ '', defaulting to RK2'']))"

definition EulerSolver_new :: "config \<Rightarrow> solver" where
  "EulerSolver_new config =
     (let n = or_nat (cfg_nx config) 500 in
      \<lparr> nx = n,
        cfl = or_num (cfg_cfl config) 0.4,
        finalTime = or_num (cfg_finalTime config) 0.02,
        interfaceMethod = or_str (cfg_interfaceMethod config) ''sharp'',
        integrator = fst (IntegratorFactory_create (or_str (cfg_integrator config) ''RK2'')),
        x_f = replicate n 0,
        dx = 0,
        U = replicate (n * 3) 0,
        Un_f = replicate (n * 3) 0,
        Uk = replicate (n * 3) 0,
        rho = replicate n 0,
        u_f = replicate n 0,
        p_f = replicate n 0,
        T_f = replicate n 0,
        gamma = replicate n 0,
        mw = replicate n 0,
        gasId = replicate n None,
        flux = replicate ((n + 1) * 3) 0,
        t_f = 0,
        dt = 0,
        timeSteps = 0,
        xtData = [],
        xtInterval = or_num (cfg_xtInterval config) 0.0001,
        nextXTStore = 0,
        tracers = [],
        regions = [],
        numMaterials = 0,
        materialFractions = None,
        materialProperties = [],
        materialFlux = None,
        interfaceCells = {},
        Ru = 8314.51 \<rparr>)"

text \<open>The console output of the constructor.\<close>

definition EulerSolver_new_warnings :: "config \<Rightarrow> string list" where
  "EulerSolver_new_warnings config =
     snd (IntegratorFactory_create (or_str (cfg_integrator config) ''RK2''))"

subsection \<open>Primitive variables, HLLC flux, conservative update\<close>

text \<open>
  \<^verbatim>\<open>updatePrimitives()\<close>: the velocity, pressure and temperature that the loop body
  computes for cell \<open>i\<close>, and the loop. No value is checked.
\<close>

definition cell_u :: "solver \<Rightarrow> nat \<Rightarrow> real" where
  "cell_u s i = (U s ! (i * 3 + 1)) / (U s ! (i * 3))"

definition cell_p :: "solver \<Rightarrow> nat \<Rightarrow> real" where
  "cell_p s i = (gamma s ! i - 1) * (U s ! (i * 3 + 2) - 0.5 * (U s ! (i * 3)) * cell_u s i * cell_u s i)"

definition cell_T :: "solver \<Rightarrow> nat \<Rightarrow> real" where
  "cell_T s i = cell_p s i / (U s ! (i * 3) * (Ru s / (mw s ! i)))"

definition updatePrimitives :: "solver \<Rightarrow> solver" where
  "updatePrimitives s =
     s\<lparr> rho := array_loop (nx s) (\<lambda>i _. U s ! (i * 3)) (rho s),
        u_f := array_loop (nx s) (\<lambda>i _. cell_u s i) (u_f s),
        p_f := array_loop (nx s) (\<lambda>i _. cell_p s i) (p_f s),
        T_f := array_loop (nx s) (\<lambda>i _. cell_T s i) (T_f s) \<rparr>"

text \<open>
  \<^verbatim>\<open>hllcFlux(UL, UR, gammaL, gammaR, fluxOut, idx)\<close>: the three flux components
  written at \<^verbatim>\<open>fluxOut[idx .. idx + 2]\<close>, and the returned wave speed.
\<close>

definition hllcFlux ::
  "real \<times> real \<times> real \<Rightarrow> real \<times> real \<times> real \<Rightarrow> real \<Rightarrow> real \<Rightarrow> (real \<times> real \<times> real) \<times> real" where
  "hllcFlux UL UR gammaL gammaR =
     (let rhoL = fst UL;
          uL = fst (snd UL) / rhoL;
          EL = snd (snd UL);
          pL = (gammaL - 1) * (EL - 0.5 * rhoL * uL * uL);
          aL = sqrt (gammaL * pL / rhoL);
          rhoR = fst UR;
          uR = fst (snd UR) / rhoR;
          ER = snd (snd UR);
          pR = (gammaR - 1) * (ER - 0.5 * rhoR * uR * uR);
          aR = sqrt (gammaR * pR / rhoR);
          SL = min (uL - aL) (uR - aR);
          SR = max (uL + aL) (uR + aR);
          SStar = (pR - pL + rhoL * uL * (SL - uL) - rhoR * uR * (SR - uR)) /
                  (rhoL * (SL - uL) - rhoR * (SR - uR))
      in ((if SL \<ge> 0 then
             (rhoL * uL, rhoL * uL * uL + pL, uL * (EL + pL))
           else if SStar \<ge> 0 then
             (let pStar = pL + rhoL * (SL - uL) * (SStar - uL);
                  rhoStarL = rhoL * (SL - uL) / (SL - SStar);
                  EStarL = rhoStarL * (EL / rhoL + (SStar - uL) * (SStar + pL / (rhoL * (SL - uL))))
              in (rhoStarL * SStar, rhoStarL * SStar * SStar + pStar, SStar * (EStarL + pStar)))
           else if SR \<ge> 0 then
             (let pStar = pR + rhoR * (SR - uR) * (SStar - uR);
                  rhoStarR = rhoR * (SR - uR) / (SR - SStar);
                  EStarR = rhoStarR * (ER / rhoR + (SStar - uR) * (SStar + pR / (rhoR * (SR - uR))))
              in (rhoStarR * SStar, rhoStarR * SStar * SStar + pStar, SStar * (EStarR + pStar)))
           else
             (rhoR * uR, rhoR * uR * uR + pR, uR * (ER + pR))),
          max \<bar>SL\<bar> \<bar>SR\<bar>))"

text \<open>
  The left and right state and the two values of gamma that \<^verbatim>\<open>computeFluxes\<close> builds
  for interface \<open>i\<close>: a reflected ghost state at the two walls, the neighbouring cells
  inside.
\<close>

definition interfaceStates ::
  "solver \<Rightarrow> nat \<Rightarrow> (real \<times> real \<times> real) \<times> (real \<times> real \<times> real) \<times> real \<times> real" where
  "interfaceStates s i =
     (if i = 0 then
        ((U s ! 0, - (U s ! 1), U s ! 2), (U s ! 0, U s ! 1, U s ! 2), gamma s ! 0, gamma s ! 0)
      else if i = nx s then
        (let idx = (nx s - 1) * 3 in
         ((U s ! idx, U s ! (idx + 1), U s ! (idx + 2)),
          (U s ! idx, - (U s ! (idx + 1)), U s ! (idx + 2)),
          gamma s ! (nx s - 1), gamma s ! (nx s - 1)))
      else
        (let idxL = (i - 1) * 3; idxR = i * 3 in
         ((U s ! idxL, U s ! (idxL + 1), U s ! (idxL + 2)),
          (U s ! idxR, U s ! (idxR + 1), U s ! (idxR + 2)),
          gamma s ! (i - 1), gamma s ! i)))"

definition hllcAt :: "solver \<Rightarrow> nat \<Rightarrow> (real \<times> real \<times> real) \<times> real" where
  "hllcAt s i = (case interfaceStates s i of (UL, UR, gammaL, gammaR) \<Rightarrow> hllcFlux UL UR gammaL gammaR)"

text \<open>
  \<^verbatim>\<open>computeFluxes()\<close>: the loop over the \<open>nx + 1\<close> interfaces carries the flux array
  and the running maximum; the result is the new flux array and \<^verbatim>\<open>maxWaveSpeed\<close>.
\<close>

definition computeFluxes_body :: "solver \<Rightarrow> nat \<Rightarrow> real list \<times> real \<Rightarrow> real list \<times> real" where
  "computeFluxes_body s i acc =
     (case hllcAt s i of
        ((f0, f1, f2), waveSpeed) \<Rightarrow>
          ((fst acc)[i * 3 := f0, i * 3 + 1 := f1, i * 3 + 2 := f2], max (snd acc) waveSpeed))"

definition computeFluxes :: "solver \<Rightarrow> solver \<times> real" where
  "computeFluxes s =
     (case fold (computeFluxes_body s) [0..<nx s + 1] (flux s, 0) of
        (fl, maxWaveSpeed) \<Rightarrow> (s\<lparr> flux := fl \<rparr>, maxWaveSpeed))"

text \<open>
  \<^verbatim>\<open>updateConservative(U, Uout, dt)\<close> with two distinct buffers: the new contents of
  \<^verbatim>\<open>Uout\<close>.
\<close>

definition updateConservative :: "solver \<Rightarrow> real list \<Rightarrow> real list \<Rightarrow> real \<Rightarrow> real list" where
  "updateConservative s Uin Uout h =
     fold (\<lambda>i out.
        fold (\<lambda>k out'. out'[i * 3 + k :=
                Uin ! (i * 3 + k) - h / dx s * (flux s ! ((i + 1) * 3 + k) - flux s ! (i * 3 + k))])
             [0..<3] out)
       [0..<nx s] Uout"

text \<open>
  \<^verbatim>\<open>updateConservative(Uk, Uk, dt)\<close>, the call of the RK2 step whose two arguments are
  the same array: every read of the input is a read of the array being written.
\<close>

definition updateConservative_inplace :: "solver \<Rightarrow> real list \<Rightarrow> real \<Rightarrow> real list" where
  "updateConservative_inplace s Uio h =
     fold (\<lambda>i out.
        fold (\<lambda>k out'. out'[i * 3 + k :=
                out' ! (i * 3 + k) - h / dx s * (flux s ! ((i + 1) * 3 + k) - flux s ! (i * 3 + k))])
             [0..<3] out)
       [0..<nx s] Uio"

subsection \<open>initialize\<close>

text \<open>
  The \<^verbatim>\<open>while\<close> loop of \<^verbatim>\<open>initialize\<close> that moves to the slab containing the cell
  centre; \<open>slabIndex + 1 < length slabs\<close> is \<^verbatim>\<open>slabIndex < slabs.length - 1\<close>. It
  returns the new \<^verbatim>\<open>currentPos\<close> and \<^verbatim>\<open>slabIndex\<close>.
\<close>

function find_slab :: "slab list \<Rightarrow> real \<Rightarrow> real \<Rightarrow> nat \<Rightarrow> real \<times> nat" where
  "find_slab slabs cellCenter currentPos slabIndex =
     (if slabIndex + 1 < length slabs \<and> cellCenter \<ge> currentPos + slab_length (slabs ! slabIndex)
      then find_slab slabs cellCenter (currentPos + slab_length (slabs ! slabIndex)) (slabIndex + 1)
      else (currentPos, slabIndex))"
  by pat_completeness auto
termination
  by (relation "measure (\<lambda>(slabs, c, pos, idx). length slabs - idx)") auto

declare find_slab.simps [simp del]

text \<open>
  The cell loop of \<^verbatim>\<open>initialize\<close>, over the cell centres: the slab of every cell.
  \<^verbatim>\<open>slabs[slabIndex]\<close> is undefined when the list is empty, and reading its
  \<^verbatim>\<open>gamma\<close> throws.
\<close>

fun init_cells :: "slab list \<Rightarrow> real list \<Rightarrow> real \<Rightarrow> nat \<Rightarrow> error + slab list" where
  "init_cells slabs [] currentPos slabIndex = Inr []"
| "init_cells slabs (cellCenter # cs) currentPos slabIndex =
     (case find_slab slabs cellCenter currentPos slabIndex of
        (pos', idx') \<Rightarrow>
          (case lookup slabs idx' of
             Inl e \<Rightarrow> Inl e
           | Inr sl \<Rightarrow>
               (case init_cells slabs cs pos' idx' of
                  Inl e \<Rightarrow> Inl e
                | Inr sls \<Rightarrow> Inr (sl # sls))))"

text \<open>The conservative state \<^verbatim>\<open>[rho, rho * u, E]\<close> of a cell of the slab, at rest.\<close>

definition slab_state :: "real \<Rightarrow> slab \<Rightarrow> real \<times> real \<times> real" where
  "slab_state Ru_c sl =
     (let R = Ru_c / slab_mw sl;
          rho_c = slab_pressure sl / (R * slab_temperature sl);
          u_c = 0;
          p_c = slab_pressure sl;
          E = p_c / (slab_gamma sl - 1) + 0.5 * rho_c * u_c * u_c
      in (rho_c, rho_c * u_c, E))"

definition init_U :: "nat \<Rightarrow> real \<Rightarrow> slab list \<Rightarrow> real list \<Rightarrow> real list" where
  "init_U n Ru_c cell_slabs Ubuf =
     fold (\<lambda>i b. case slab_state Ru_c (cell_slabs ! i) of
                    (rho_c, rhou, E) \<Rightarrow> b[i * 3 := rho_c, i * 3 + 1 := rhou, i * 3 + 2 := E])
          [0..<n] Ubuf"

text \<open>The tracers pushed by \<^verbatim>\<open>initialize\<close>: one at the end of every slab but the last.\<close>

fun init_tracers :: "slab list \<Rightarrow> real \<Rightarrow> tracer list" where
  "init_tracers [] currentPos = []"
| "init_tracers (sl # rest) currentPos =
     (let pos' = currentPos + slab_length sl in
      if rest \<noteq> [] then \<lparr> tr_x = pos', trajectory = [(0, pos')] \<rparr> # init_tracers rest pos'
      else init_tracers rest pos')"

text \<open>The row of material fractions of one cell: its overlap with every slab.\<close>

fun overlap_row :: "real \<Rightarrow> real \<Rightarrow> real \<Rightarrow> slab list \<Rightarrow> real \<Rightarrow> real list" where
  "overlap_row dx_c cellLeft cellRight [] tempPos = []"
| "overlap_row dx_c cellLeft cellRight (sl # rest) tempPos =
     (let slabLeft = tempPos;
          slabRight = tempPos + slab_length sl;
          overlapLeft = max cellLeft slabLeft;
          overlapRight = min cellRight slabRight;
          overlap = max 0 (overlapRight - overlapLeft)
      in overlap / dx_c # overlap_row dx_c cellLeft cellRight rest (tempPos + slab_length sl))"

definition init_mixed :: "slab list \<Rightarrow> solver \<Rightarrow> solver" where
  "init_mixed slabs s =
     (if interfaceMethod s = ''mixed'' then
        s\<lparr> numMaterials := length slabs,
           materialFractions :=
             Some (concat (map (\<lambda>i. overlap_row (dx s) (real i * dx s) ((real i + 1) * dx s) slabs 0)
                               [0..<nx s])),
           materialFlux := Some (replicate ((nx s + 1) * length slabs) 0),
           materialProperties :=
             map (\<lambda>sl. \<lparr> gp_gamma = slab_gamma sl, gp_mw = slab_mw sl, gp_gasId = slab_gasId sl \<rparr>) slabs \<rparr>
      else s)"

text \<open>\<^verbatim>\<open>storeXTData()\<close>\<close>

definition storeXTData :: "solver \<Rightarrow> solver" where
  "storeXTData s =
     s\<lparr> xtData := xtData s @
          [\<lparr> snap_t = t_f s, snap_rho = rho s, snap_u = u_f s, snap_p = p_f s, snap_T = T_f s,
             snap_gamma = gamma s, snap_mw = mw s, snap_gasId = gasId s \<rparr>] \<rparr>"

text \<open>
  \<^verbatim>\<open>initialize(slabs)\<close>, in the order of the source: the grid (\<open>init_grid\<close>), the cell
  loop (\<open>init_cells\<close> for the slab of every cell, \<open>init_fields\<close> for the arrays it
  fills, followed by the region table and the tracers), the material fractions of the
  mixed method, the primitive variables and the first snapshot. The source checks
  nothing about the slabs.
\<close>

definition init_grid :: "solver \<Rightarrow> slab list \<Rightarrow> solver" where
  "init_grid s slabs =
     (let totalLength = foldl (\<lambda>sum sl. sum + slab_length sl) 0 slabs;
          s1 = s\<lparr> dx := totalLength / real (nx s) \<rparr>
      in s1\<lparr> x_f := array_loop (nx s1) (\<lambda>i _. (real i + 0.5) * dx s1) (x_f s1) \<rparr>)"

definition init_fields :: "solver \<Rightarrow> slab list \<Rightarrow> slab list \<Rightarrow> solver" where
  "init_fields s2 slabs cell_slabs =
     (let s3 = s2\<lparr> gamma := array_loop (nx s2) (\<lambda>i _. slab_gamma (cell_slabs ! i)) (gamma s2),
                  mw := array_loop (nx s2) (\<lambda>i _. slab_mw (cell_slabs ! i)) (mw s2),
                  gasId := array_loop (nx s2) (\<lambda>i _. Some (slab_gasId (cell_slabs ! i))) (gasId s2),
                  U := init_U (nx s2) (Ru s2) cell_slabs (U s2) \<rparr>;
          s4 = s3\<lparr> regions :=
                    map (\<lambda>sl. \<lparr> gp_gamma = slab_gamma sl, gp_mw = slab_mw sl,
                                gp_gasId = slab_gasId sl \<rparr>) slabs \<rparr>
      in s4\<lparr> tracers := tracers s4 @ init_tracers slabs 0 \<rparr>)"

definition initialize :: "solver \<Rightarrow> slab list \<Rightarrow> error + solver" where
  "initialize s slabs =
     (let s2 = init_grid s slabs
      in case init_cells slabs (map (\<lambda>i. x_f s2 ! i) [0..<nx s2]) 0 0 of
           Inl e \<Rightarrow> Inl e
         | Inr cell_slabs \<Rightarrow>
             Inr (storeXTData (updatePrimitives (init_mixed slabs (init_fields s2 slabs cell_slabs)))))"

subsection \<open>Interface tracking\<close>

text \<open>
  The accumulator loop of \<^verbatim>\<open>computeMixtureProperties(cellIdx)\<close> over the materials:
  \<^verbatim>\<open>(gamma_mix_inv, mw_mix, totalFraction, dominantMaterial, maxFraction)\<close>.
\<close>

fun mix_loop ::
  "solver \<Rightarrow> nat \<Rightarrow> nat list \<Rightarrow> real \<times> real \<times> real \<times> nat \<times> real \<Rightarrow>
   error + (real \<times> real \<times> real \<times> nat \<times> real)" where
  "mix_loop s cellIdx [] acc = Inr acc"
| "mix_loop s cellIdx (m # ms) acc =
     (case acc of (gamma_mix_inv, mw_mix, totalFraction, dominantMaterial, maxFraction) \<Rightarrow>
      (case materialFractions s of
         None \<Rightarrow> Inl TypeError
       | Some mf \<Rightarrow>
           (case lookup (materialProperties s) m of
              Inl e \<Rightarrow> Inl e
            | Inr mp \<Rightarrow>
                (let alpha = mf ! (cellIdx * numMaterials s + m) in
                 mix_loop s cellIdx ms
                   (gamma_mix_inv + alpha / (gp_gamma mp - 1),
                    mw_mix + alpha * gp_mw mp,
                    totalFraction + alpha,
                    (if alpha > maxFraction then m else dominantMaterial),
                    (if alpha > maxFraction then alpha else maxFraction))))))"

definition computeMixtureProperties :: "solver \<Rightarrow> nat \<Rightarrow> error + gasprops" where
  "computeMixtureProperties s cellIdx =
     (case mix_loop s cellIdx [0..<numMaterials s] (0, 0, 0, 0, 0) of
        Inl e \<Rightarrow> Inl e
      | Inr (gamma_mix_inv, mw_mix, totalFraction, dominantMaterial, maxFraction) \<Rightarrow>
          (if totalFraction > 1 / 10 ^ 10 then
             (case lookup (materialProperties s) dominantMaterial of
                Inl e \<Rightarrow> Inl e
              | Inr mp \<Rightarrow>
                  Inr \<lparr> gp_gamma = 1 + 1 / (gamma_mix_inv / totalFraction),
                        gp_mw = mw_mix / totalFraction,
                        gp_gasId = gp_gasId mp \<rparr>)
           else
             (case lookup (materialProperties s) 0 of
                Inl e \<Rightarrow> Inl e
              | Inr mp0 \<Rightarrow>
                  Inr \<lparr> gp_gamma = 1 + 1 / (1.0 / (gp_gamma mp0 - 1)),
                        gp_mw = gp_mw mp0,
                        gp_gasId = gp_gasId mp0 \<rparr>)))"

text \<open>
  The distance test of \<^verbatim>\<open>identifyInterfaceCells\<close> for cell \<open>i\<close> and one tracer, and
  the function itself: the inner loop adds the cell at the first tracer that passes the
  test.
\<close>

definition near_tracer :: "solver \<Rightarrow> nat \<Rightarrow> real \<Rightarrow> bool" where
  "near_tracer s i tracerX =
     (let cellLeft = real i * dx s;
          cellRight = (real i + 1) * dx s;
          dist = min (min \<bar>tracerX - cellLeft\<bar> \<bar>tracerX - cellRight\<bar>) \<bar>tracerX - x_f s ! i\<bar>
      in dist < 1.5 * dx s)"

definition identifyInterfaceCells :: "solver \<Rightarrow> solver" where
  "identifyInterfaceCells s =
     (let tracerPositions = sort (map tr_x (tracers s)) in
      s\<lparr> interfaceCells :=
           fold (\<lambda>i cells. if list_ex (near_tracer s i) tracerPositions then insert i cells else cells)
                [0..<nx s] {} \<rparr>)"

text \<open>
  The region loop shared by the ghost and the sharp branch of \<^verbatim>\<open>updateGasProperties\<close>:
  \<open>region_scan\<close> is the \<^verbatim>\<open>for\<close> loop with its \<^verbatim>\<open>break\<close>, over the tracer positions
  from index \<open>j\<close> on.
\<close>

fun region_scan :: "real \<Rightarrow> real list \<Rightarrow> nat \<Rightarrow> nat \<Rightarrow> nat" where
  "region_scan cellCenter [] j regionIndex = regionIndex"
| "region_scan cellCenter (tp # tps) j regionIndex =
     (if cellCenter > tp then region_scan cellCenter tps (j + 1) (j + 1) else regionIndex)"

definition clamp_region :: "nat \<Rightarrow> nat \<Rightarrow> nat" where
  "clamp_region n_regions regionIndex =
     nat (max 0 (min (int n_regions - 1) (int regionIndex)))"

definition cell_region :: "solver \<Rightarrow> real list \<Rightarrow> nat \<Rightarrow> error + gasprops" where
  "cell_region s tracerPositions i =
     lookup (regions s)
       (clamp_region (length (regions s)) (region_scan (x_f s ! i) tracerPositions 0 0))"

text \<open>Running a per-cell computation for the cells in order, up to the first exception.\<close>

fun for_cells :: "(nat \<Rightarrow> error + 'a) \<Rightarrow> nat list \<Rightarrow> error + 'a list" where
  "for_cells f [] = Inr []"
| "for_cells f (i # is) =
     (case f i of
        Inl e \<Rightarrow> Inl e
      | Inr v \<Rightarrow> (case for_cells f is of Inl e \<Rightarrow> Inl e | Inr vs \<Rightarrow> Inr (v # vs)))"

definition assign_props :: "solver \<Rightarrow> gasprops list \<Rightarrow> solver" where
  "assign_props s props =
     s\<lparr> gamma := array_loop (nx s) (\<lambda>i _. gp_gamma (props ! i)) (gamma s),
        mw := array_loop (nx s) (\<lambda>i _. gp_mw (props ! i)) (mw s),
        gasId := array_loop (nx s) (\<lambda>i _. Some (gp_gasId (props ! i))) (gasId s) \<rparr>"

definition updateGasProperties :: "solver \<Rightarrow> error + solver" where
  "updateGasProperties s =
     (if interfaceMethod s = ''mixed'' then
        (case for_cells (computeMixtureProperties s) [0..<nx s] of
           Inl e \<Rightarrow> Inl e
         | Inr props \<Rightarrow> Inr (assign_props s props))
      else if interfaceMethod s = ''ghost'' then
        (let s1 = identifyInterfaceCells s;
             tracerPositions = sort (map tr_x (tracers s1))
         in case for_cells (cell_region s1 tracerPositions) [0..<nx s1] of
              Inl e \<Rightarrow> Inl e
            | Inr props \<Rightarrow> Inr (assign_props s1 props))
      else
        (let tracerPositions = sort (map tr_x (tracers s))
         in case for_cells (cell_region s tracerPositions) [0..<nx s] of
              Inl e \<Rightarrow> Inl e
            | Inr props \<Rightarrow> Inr (assign_props s props)))"

subsection \<open>Advection of the material fractions\<close>

text \<open>
  The first loop nest of \<^verbatim>\<open>advectMaterialFractions\<close>: the entry written at
  \<^verbatim>\<open>materialFlux[i * numMaterials + m]\<close>, and the loop nest over the array.
\<close>

definition materialFlux_entry :: "solver \<Rightarrow> real list \<Rightarrow> nat \<Rightarrow> nat \<Rightarrow> real" where
  "materialFlux_entry s mf i m =
     (if i = 0 \<or> i = nx s then 0
      else (let uInterface = 0.5 * (u_f s ! (i - 1) + u_f s ! i) in
            if uInterface > 0 then uInterface * (mf ! ((i - 1) * numMaterials s + m))
            else uInterface * (mf ! (i * numMaterials s + m))))"

definition materialFlux_loop :: "solver \<Rightarrow> real list \<Rightarrow> real list \<Rightarrow> real list" where
  "materialFlux_loop s mf mflux =
     fold (\<lambda>i fl. fold (\<lambda>m fl'. fl'[i * numMaterials s + m := materialFlux_entry s mf i m])
                        [0..<numMaterials s] fl)
          [0..<nx s + 1] mflux"

text \<open>
  The three inner loops that build row \<open>i\<close> of the fresh array \<^verbatim>\<open>alphaNew\<close>: the
  finite-volume update, the clamp with the running sum \<^verbatim>\<open>totalAlpha\<close>, and the
  renormalisation or the reset to the equal distribution.
\<close>

definition alpha_update :: "solver \<Rightarrow> real \<Rightarrow> real list \<Rightarrow> real list \<Rightarrow> nat \<Rightarrow> real list" where
  "alpha_update s h mf mflux i =
     map (\<lambda>m. mf ! (i * numMaterials s + m) -
               h / dx s * (mflux ! ((i + 1) * numMaterials s + m) - mflux ! (i * numMaterials s + m)))
         [0..<numMaterials s]"

definition alpha_clamp :: "real list \<Rightarrow> real list" where
  "alpha_clamp row = map (\<lambda>a. max 0 (min 1 a)) row"

definition alpha_total :: "real list \<Rightarrow> real" where
  "alpha_total row = foldl (\<lambda>totalAlpha a. totalAlpha + a) 0 row"

definition alpha_normalize :: "nat \<Rightarrow> real list \<Rightarrow> real list" where
  "alpha_normalize numMat row =
     (if alpha_total row > 1 / 10 ^ 10 then map (\<lambda>a. a / alpha_total row) row
      else map (\<lambda>a. 1.0 / real numMat) row)"

definition alpha_row :: "solver \<Rightarrow> real \<Rightarrow> real list \<Rightarrow> real list \<Rightarrow> nat \<Rightarrow> real list" where
  "alpha_row s h mf mflux i =
     alpha_normalize (numMaterials s) (alpha_clamp (alpha_update s h mf mflux i))"

text \<open>
  \<^verbatim>\<open>advectMaterialFractions(dt)\<close>. Writing to \<^verbatim>\<open>materialFlux\<close> while it is null
  throws (the write is reached when there is a material); \<^verbatim>\<open>alphaNew\<close> has
  \<open>nx * numMaterials\<close> entries, row after row; \<^verbatim>\<open>materialFractions.set(alphaNew)\<close>
  overwrites the first entries of the array and throws when it is too short.
\<close>

definition advectMaterialFractions :: "real \<Rightarrow> solver \<Rightarrow> error + solver" where
  "advectMaterialFractions h s =
     (if interfaceMethod s \<noteq> ''mixed'' then Inr s
      else case materialFractions s of
        None \<Rightarrow> Inr s
      | Some mf \<Rightarrow>
          (case materialFlux s of
             None \<Rightarrow> if numMaterials s > 0 then Inl TypeError else Inr s
           | Some mflux0 \<Rightarrow>
               (let mflux = materialFlux_loop s mf mflux0;
                    alphaNew = concat (map (alpha_row s h mf mflux) [0..<nx s])
                in if length alphaNew > length mf then Inl RangeError
                   else Inr (s\<lparr> materialFlux := Some mflux,
                                materialFractions := Some (alphaNew @ drop (length alphaNew) mf) \<rparr>))))"

subsection \<open>Tracers\<close>

text \<open>\<^verbatim>\<open>updateTracers()\<close>: every tracer is moved on its own.\<close>

definition moveTracer :: "solver \<Rightarrow> tracer \<Rightarrow> tracer" where
  "moveTracer s tr =
     (let cellIdx = \<lfloor>tr_x tr / dx s\<rfloor>;
          clampedIdx = max 0 (min (int (nx s) - 1) cellIdx);
          velocity = u_f s ! nat clampedIdx;
          x1 = tr_x tr + velocity * dt s;
          x2 = max 0 (min (x_f s ! (nx s - 1) + 0.5 * dx s) x1)
      in tr\<lparr> tr_x := x2, trajectory := trajectory tr @ [(t_f s, x2)] \<rparr>)"

definition updateTracers :: "solver \<Rightarrow> solver" where
  "updateTracers s = s\<lparr> tracers := map (moveTracer s) (tracers s) \<rparr>"

subsection \<open>Time integrators\<close>

text \<open>\<^verbatim>\<open>TimeIntegrator.calculateTimeStep(solver, maxWaveSpeed)\<close>\<close>

definition calculateTimeStep :: "solver \<Rightarrow> real \<Rightarrow> real" where
  "calculateTimeStep s maxWaveSpeed =
     (let dt0 = cfl s * dx s / maxWaveSpeed;
          dt1 = (if t_f s + dt0 > finalTime s then finalTime s - t_f s else dt0);
          timeToNextViz = nextXTStore s - t_f s
      in if timeToNextViz > 0 \<and> timeToNextViz < 2.5 * dt1 then
           (let numSubsteps = max 1 \<lceil>timeToNextViz / dt1\<rceil> in timeToNextViz / of_int numSubsteps)
         else dt1)"

text \<open>\<^verbatim>\<open>TimeIntegrator.postStep(solver)\<close>\<close>

definition postStep :: "solver \<Rightarrow> error + solver" where
  "postStep s =
     (let s1 = s\<lparr> t_f := t_f s + dt s, timeSteps := timeSteps s + 1 \<rparr>;
          s2 = updatePrimitives s1;
          s3 = updateTracers s2
      in case updateGasProperties s3 of
           Inl e \<Rightarrow> Inl e
         | Inr s4 \<Rightarrow>
             Inr (if \<bar>t_f s4 - nextXTStore s4\<bar> < 1 / 10 ^ 10 \<or> t_f s4 > nextXTStore s4
                  then (storeXTData s4)\<lparr> nextXTStore := nextXTStore s4 + xtInterval s4 \<rparr>
                  else s4))"

text \<open>
  The flux computation followed by \<^verbatim>\<open>updateConservative(solver.U, solver.Uk, solver.dt)\<close>,
  which every stage but the last of RK2 starts with.
\<close>

definition flux_state :: "solver \<Rightarrow> solver" where
  "flux_state s = fst (computeFluxes s)"

definition stage_Uk :: "solver \<Rightarrow> solver" where
  "stage_Uk s = s\<lparr> Uk := updateConservative s (U s) (Uk s) (dt s) \<rparr>"

text \<open>
  \<^verbatim>\<open>RK2Integrator.step(solver)\<close>: \<open>RK2_stage1\<close> runs up to the copy loop that leaves
  the predictor in U and the old state in Un, \<open>RK2_stage2\<close> from the second flux
  computation to the average.
\<close>

definition RK2_stage1 :: "solver \<Rightarrow> solver" where
  "RK2_stage1 solver =
     (case computeFluxes solver of
        (s1, maxWaveSpeed) \<Rightarrow>
          (let s2 = s1\<lparr> dt := calculateTimeStep s1 maxWaveSpeed \<rparr>;
               s3 = stage_Uk s2;
               n = nx s3 * 3
           in s3\<lparr> Un_f := array_loop n (\<lambda>i _. U s3 ! i) (Un_f s3),
                  U := array_loop n (\<lambda>i _. Uk s3 ! i) (U s3) \<rparr>))"

definition RK2_stage2 :: "solver \<Rightarrow> solver" where
  "RK2_stage2 solver =
     (let s1 = flux_state solver;
          s2 = s1\<lparr> Uk := updateConservative_inplace s1 (Uk s1) (dt s1) \<rparr>;
          n = nx s2 * 3
      in s2\<lparr> U := array_loop n (\<lambda>i _. 0.5 * (Un_f s2 ! i) + 0.5 * (Uk s2 ! i)) (U s2) \<rparr>)"

definition RK2_step :: "solver \<Rightarrow> error + solver" where
  "RK2_step solver = postStep (RK2_stage2 (RK2_stage1 solver))"

text \<open>
  \<^verbatim>\<open>SSPIntegrator.step(solver)\<close>. \<open>SSP_begin\<close> computes the first fluxes and the step
  size and saves U in Un; the stages follow, each from the fluxes of the state it
  starts from.
\<close>

definition SSP_begin :: "solver \<Rightarrow> solver" where
  "SSP_begin solver =
     (case computeFluxes solver of
        (s1, maxWaveSpeed) \<Rightarrow>
          (let s2 = s1\<lparr> dt := calculateTimeStep s1 maxWaveSpeed \<rparr>
           in s2\<lparr> Un_f := array_loop (nx s2 * 3) (\<lambda>i _. U s2 ! i) (Un_f s2) \<rparr>))"

definition SSP_half :: "solver \<Rightarrow> solver" where
  "SSP_half solver =
     (let s1 = stage_Uk solver
      in s1\<lparr> U := array_loop (nx s1 * 3) (\<lambda>i Ui. Ui + 0.5 * (Uk s1 ! i - Ui)) (U s1) \<rparr>)"

definition SSP_stage1 :: "solver \<Rightarrow> solver" where
  "SSP_stage1 solver = SSP_half (SSP_begin solver)"

definition SSP_stage2 :: "solver \<Rightarrow> solver" where
  "SSP_stage2 solver = SSP_half (flux_state solver)"

definition SSP_stage3 :: "solver \<Rightarrow> solver" where
  "SSP_stage3 solver =
     (let s1 = stage_Uk (flux_state solver)
      in s1\<lparr> U := array_loop (nx s1 * 3)
                  (\<lambda>i Ui. (2.0 / 3.0) * (Un_f s1 ! i) + (1.0 / 6.0) * Ui + (1.0 / 6.0) * (Uk s1 ! i))
                  (U s1) \<rparr>)"

definition SSP_stage4 :: "solver \<Rightarrow> solver" where
  "SSP_stage4 solver =
     (let s1 = stage_Uk (flux_state solver)
      in s1\<lparr> U := array_loop (nx s1 * 3) (\<lambda>i Ui. 0.5 * Ui + 0.5 * (Uk s1 ! i)) (U s1) \<rparr>)"

definition SSP_step :: "solver \<Rightarrow> error + solver" where
  "SSP_step solver = postStep (SSP_stage4 (SSP_stage3 (SSP_stage2 (SSP_stage1 solver))))"

text \<open>\<^verbatim>\<open>this.integrator.step(this)\<close>\<close>

definition step :: "solver \<Rightarrow> error + solver" where
  "step s = (case integrator s of RK2Integrator \<Rightarrow> RK2_step s | SSPIntegrator \<Rightarrow> SSP_step s)"

subsection \<open>The run loop\<close>

text \<open>
  \<^verbatim>\<open>run(progressCallback)\<close>. The wall clock is a function from the number of calls of
  \<^verbatim>\<open>Date.now()\<close> made so far to the value read; \<open>cb\<close> says whether a callback was
  passed, and the values it is called with are collected in a list (the callback is an
  observer: it does not touch the solver). The loop need not terminate, so it runs on
  fuel: \<open>None\<close> when the fuel is used up, an exception of a step otherwise ends it.
  The lines of \<^verbatim>\<open>console.log\<close> at the end are not part of the result.
\<close>

fun run_loop ::
  "nat \<Rightarrow> (nat \<Rightarrow> int) \<Rightarrow> bool \<Rightarrow> nat \<Rightarrow> int \<Rightarrow> real list \<Rightarrow> solver \<Rightarrow>
   (error + solver \<times> real list) option" where
  "run_loop fuel clock cb reads lastProgressUpdate progress s =
     (if t_f s < finalTime s then
        (case fuel of
           0 \<Rightarrow> None
         | Suc fuel' \<Rightarrow>
             (case step s of
                Inl e \<Rightarrow> Some (Inl e)
              | Inr s' \<Rightarrow>
                  (let now = clock reads in
                   if cb \<and> now - lastProgressUpdate > 100
                   then run_loop fuel' clock cb (reads + 1) now (progress @ [t_f s' / finalTime s']) s'
                   else run_loop fuel' clock cb (reads + 1) lastProgressUpdate progress s')))
      else Some (Inr (s, progress)))"

declare run_loop.simps [simp del]

definition run :: "nat \<Rightarrow> (nat \<Rightarrow> int) \<Rightarrow> bool \<Rightarrow> solver \<Rightarrow> (error + solver \<times> real list) option" where
  "run fuel clock cb s =
     (let startTime = clock 0 in
      case run_loop fuel clock cb 1 startTime [] s of
        None \<Rightarrow> None
      | Some (Inl e) \<Rightarrow> Some (Inl e)
      | Some (Inr (s', progress)) \<Rightarrow> Some (Inr (s', if cb then progress @ [1.0] else progress)))"

subsection \<open>The stages of the SSP step in Float64 arithmetic\<close>

text \<open>
  The result of a Float64 operation is the exact result rounded to the nearest number
  \<open>m * 2 ^ e\<close> with \<open>\<bar>m\<bar> < 2 ^ 53\<close>, a tie going to the even \<open>m\<close>. \<open>round_even\<close> rounds
  to the nearest integer in this way, and \<open>f64\<close> is the rounding of a number in the
  normal range (no overflow, no subnormal number).
\<close>

definition round_even :: "real \<Rightarrow> int" where
  "round_even x =
     (let f = \<lfloor>x\<rfloor>; r = x - of_int f
      in if r < 1 / 2 then f else if 1 / 2 < r then f + 1 else if even f then f else f + 1)"

definition f64 :: "real \<Rightarrow> real" where
  "f64 x =
     (if x = 0 then 0
      else (let e = \<lfloor>log 2 \<bar>x\<bar>\<rfloor> - 52
            in of_int (round_even (x / 2 powr of_int e)) * 2 powr of_int e))"

text \<open>
  The right-hand sides of the loops of \<^verbatim>\<open>SSPIntegrator.step\<close> and of
  \<^verbatim>\<open>updateConservative\<close> for one entry, every operation rounded:
  \<^verbatim>\<open>U[i] + 0.5 * (Uk[i] - U[i])\<close> of stages 1 and 2,
  \<^verbatim>\<open>(2.0/3.0) * Un[i] + (1.0/6.0) * U[i] + (1.0/6.0) * Uk[i]\<close> of stage 3,
  \<^verbatim>\<open>0.5 * U[i] + 0.5 * Uk[i]\<close> of stage 4, and
  \<^verbatim>\<open>U[idx + k] - dt / this.dx * (this.flux[fluxR + k] - this.flux[fluxL + k])\<close>, with
  \<open>q\<close> the quotient \<^verbatim>\<open>dt / this.dx\<close> as computed.
\<close>

definition SSP_half_f64 :: "real \<Rightarrow> real \<Rightarrow> real" where
  "SSP_half_f64 u uk = f64 (u + f64 (f64 (1 / 2) * f64 (uk - u)))"

definition SSP_stage3_f64 :: "real \<Rightarrow> real \<Rightarrow> real \<Rightarrow> real" where
  "SSP_stage3_f64 un u uk =
     f64 (f64 (f64 (f64 (2 / 3) * un) + f64 (f64 (1 / 6) * u)) + f64 (f64 (1 / 6) * uk))"

definition SSP_stage4_f64 :: "real \<Rightarrow> real \<Rightarrow> real" where
  "SSP_stage4_f64 u uk = f64 (f64 (f64 (1 / 2) * u) + f64 (f64 (1 / 2) * uk))"

definition updateConservative_f64 :: "real \<Rightarrow> real \<Rightarrow> real \<Rightarrow> real \<Rightarrow> real" where
  "updateConservative_f64 u q fluxL fluxR = f64 (u - f64 (q * f64 (fluxR - fluxL)))"

text \<open>
  One entry through the four stages of a step, from the value \<open>x\<close>, when in every stage
  the flux entries at the left and the right interface of the cell are the same number
  (\<open>F1\<close> to \<open>F4\<close>), as they are in a uniform state at rest, where \<^verbatim>\<open>hllcFlux\<close> is
  called with the same numbers at every interface.
\<close>

definition SSP_entry_f64 :: "real \<Rightarrow> real \<Rightarrow> real \<Rightarrow> real \<Rightarrow> real \<Rightarrow> real \<Rightarrow> real" where
  "SSP_entry_f64 q F1 F2 F3 F4 x =
     (let un = x;
          uk1 = updateConservative_f64 x q F1 F1;
          u1 = SSP_half_f64 x uk1;
          uk2 = updateConservative_f64 u1 q F2 F2;
          u2 = SSP_half_f64 u1 uk2;
          uk3 = updateConservative_f64 u2 q F3 F3;
          u3 = SSP_stage3_f64 un u2 uk3;
          uk4 = updateConservative_f64 u3 q F4 F4
      in SSP_stage4_f64 u3 uk4)"

subsection \<open>Definitions that follow the specification's words\<close>

text \<open>
  The candidate step of the step-size policy as the specification words it:
  \<open>CFL * dx / maxWaveSpeed\<close>, clamped so that \<open>t + dt\<close> does not exceed \<open>finalTime\<close>.
\<close>

definition clamped_cfl_step :: "solver \<Rightarrow> real \<Rightarrow> real" where
  "clamped_cfl_step s maxWaveSpeed = min (cfl s * dx s / maxWaveSpeed) (finalTime s - t_f s)"

text \<open>
  The region of a cell as the specification words it: the number of tracer positions,
  sorted ascending, that lie below the cell centre, clamped to a valid region index.
\<close>

definition region_index_spec :: "solver \<Rightarrow> nat \<Rightarrow> nat" where
  "region_index_spec s i =
     min (length (regions s) - 1)
         (length (filter (\<lambda>tp. tp < x_f s ! i) (sort (map tr_x (tracers s)))))"

text \<open>
  The interface cells as the specification words them: the cells within 1.5 cell-widths
  of a tracer, the distance being the one \<^verbatim>\<open>identifyInterfaceCells\<close> measures (to the
  nearest of the cell's two edges and its centre).
\<close>

definition interface_cells_spec :: "solver \<Rightarrow> nat set" where
  "interface_cells_spec s =
     {i. i < nx s \<and> (\<exists>tr \<in> set (tracers s). near_tracer s i (tr_x tr))}"

text \<open>
  The numerical content of the run loop: the loop of \<^verbatim>\<open>run\<close> with the clock, the
  callback and the progress values left out.
\<close>

fun run_steps :: "nat \<Rightarrow> solver \<Rightarrow> (error + solver) option" where
  "run_steps fuel s =
     (if t_f s < finalTime s then
        (case fuel of
           0 \<Rightarrow> None
         | Suc fuel' \<Rightarrow> (case step s of Inl e \<Rightarrow> Some (Inl e) | Inr s' \<Rightarrow> run_steps fuel' s'))
      else Some (Inr s))"

declare run_steps.simps [simp del]

text \<open>Component \<open>k\<close> of a flux or state triple.\<close>

definition tri :: "nat \<Rightarrow> real \<times> real \<times> real \<Rightarrow> real" where
  "tri k v = (if k = 0 then fst v else if k = 1 then fst (snd v) else snd (snd v))"

text \<open>
  The spatial operator of the scheme as the specification words it:
  \<open>L(V) = -(1/dx) (F_right(V) - F_left(V))\<close>, with \<open>cell_flux s V j\<close> entry \<open>j\<close> of the
  HLLC fluxes computed from the conservative state \<open>V\<close> (the fluxes of the left and the
  right interface of a cell lie three entries apart).
\<close>

definition cell_flux :: "solver \<Rightarrow> real list \<Rightarrow> nat \<Rightarrow> real" where
  "cell_flux s V j = tri (j mod 3) (fst (hllcAt (s\<lparr> U := V \<rparr>) (j div 3)))"

definition L_op :: "solver \<Rightarrow> real list \<Rightarrow> real list" where
  "L_op s V = map (\<lambda>j. - (1 / dx s) * (cell_flux s V (j + 3) - cell_flux s V j)) [0..<nx s * 3]"

text \<open>
  The four stages of SSPRK(4,3) in Shu-Osher form as the specification words them, with
  step \<open>h\<close> from the state \<open>V0\<close>.
\<close>

definition ssprk43 :: "solver \<Rightarrow> real \<Rightarrow> real list \<Rightarrow> real list" where
  "ssprk43 s h V0 =
     (let n = nx s * 3;
          U1 = map (\<lambda>j. V0 ! j + (h / 2) * (L_op s V0 ! j)) [0..<n];
          U2 = map (\<lambda>j. U1 ! j + (h / 2) * (L_op s U1 ! j)) [0..<n];
          U3 = map (\<lambda>j. (2 / 3) * (V0 ! j) + (1 / 3) * (U2 ! j) + (h / 6) * (L_op s U2 ! j)) [0..<n]
      in map (\<lambda>j. U3 ! j + (h / 2) * (L_op s U3 ! j)) [0..<n])"

text \<open>The step size a step of either integrator chooses in the state \<open>s\<close>.\<close>

definition step_dt :: "solver \<Rightarrow> real" where
  "step_dt s = calculateTimeStep s (snd (computeFluxes s))"

text \<open>
  The three state buffers and the flux array have the sizes the constructor gives them.
\<close>

definition wf_buffers :: "solver \<Rightarrow> bool" where
  "wf_buffers s \<longleftrightarrow>
     length (U s) = nx s * 3 \<and> length (Un_f s) = nx s * 3 \<and> length (Uk s) = nx s * 3
     \<and> length (flux s) = (nx s + 1) * 3"

text \<open>
  A number of integrator steps in a row, up to the first exception: what the loop of
  \<^verbatim>\<open>run\<close> does to the state, the loop condition left out.
\<close>

fun steps :: "nat \<Rightarrow> solver \<Rightarrow> error + solver" where
  "steps 0 s = Inr s"
| "steps (Suc n) s = (case step s of Inl e \<Rightarrow> Inl e | Inr s' \<Rightarrow> steps n s')"

text \<open>
  The uniform state at rest: every cell has density \<open>r\<close>, momentum 0, total energy \<open>E\<close>
  and heat-capacity ratio \<open>g\<close>; \<open>rest0\<close> adds that there is a cell and that the squared
  sound speed \<open>g p / r\<close> is positive, the pressure being \<open>(g - 1) E\<close>.
\<close>

definition at_rest :: "solver \<Rightarrow> real \<Rightarrow> real \<Rightarrow> real \<Rightarrow> bool" where
  "at_rest s r E g \<longleftrightarrow>
     (\<forall>i < nx s. U s ! (i * 3) = r \<and> U s ! (i * 3 + 1) = 0 \<and> U s ! (i * 3 + 2) = E
                 \<and> gamma s ! i = g)"

definition rest0 :: "solver \<Rightarrow> real \<Rightarrow> real \<Rightarrow> real \<Rightarrow> bool" where
  "rest0 s r E g \<longleftrightarrow> at_rest s r E g \<and> 0 < nx s \<and> 0 < g * ((g - 1) * E) / r"

text \<open>
  Two states have the same physics when they differ at most in the flux array, the two
  stage buffers, the time step, the time, the step counter, the snapshots and the time
  of the next snapshot; \<open>rebook b s\<close> is \<open>s\<close> with these fields taken from \<open>b\<close>.
\<close>

definition rebook :: "solver \<Rightarrow> solver \<Rightarrow> solver" where
  "rebook b s = s\<lparr> flux := flux b, Uk := Uk b, Un_f := Un_f b, dt := dt b, t_f := t_f b,
                   timeSteps := timeSteps b, xtData := xtData b, nextXTStore := nextXTStore b \<rparr>"

definition same_physics :: "solver \<Rightarrow> solver \<Rightarrow> bool" where
  "same_physics t s \<longleftrightarrow> rebook t s = t"

text \<open>
  A state that \<^verbatim>\<open>postStep\<close> leaves alone: its primitive fields are those of its
  conservative state, it has no tracer, and its per-cell gas properties are those that
  \<^verbatim>\<open>updateGasProperties\<close> assigns.
\<close>

definition steady :: "solver \<Rightarrow> bool" where
  "steady s \<longleftrightarrow> updatePrimitives s = s \<and> tracers s = [] \<and> updateGasProperties s = Inr s"

text \<open>A slab with physical values.\<close>

definition valid_slab :: "slab \<Rightarrow> bool" where
  "valid_slab sl \<longleftrightarrow>
     1 < slab_gamma sl \<and> 0 < slab_mw sl \<and> 0 < slab_pressure sl \<and> 0 < slab_temperature sl
     \<and> 0 < slab_length sl"

text \<open>
  The totals of the specification over the \<open>n\<close> cells of a conservative state \<open>V\<close>:
  the sum of the densities \<open>V[3i]\<close> and the sum of the total energies \<open>V[3i + 2]\<close>
  (\<open>component_total\<close> sums component \<open>k\<close>).
\<close>

definition component_total :: "nat \<Rightarrow> nat \<Rightarrow> real list \<Rightarrow> real" where
  "component_total n k V = (\<Sum>i<n. V ! (i * 3 + k))"

definition total_mass :: "nat \<Rightarrow> real list \<Rightarrow> real" where
  "total_mass n V = component_total n 0 V"

definition total_energy :: "nat \<Rightarrow> real list \<Rightarrow> real" where
  "total_energy n V = component_total n 2 V"

text \<open>
  A state with at least one cell in which every cell has positive density, positive
  pressure (the pressure that \<^verbatim>\<open>hllcFlux\<close> and \<^verbatim>\<open>updatePrimitives\<close> compute) and a
  positive heat-capacity ratio, so that the sound speed is the root of a positive number.
\<close>

definition positive_state :: "solver \<Rightarrow> bool" where
  "positive_state s \<longleftrightarrow>
     0 < nx s \<and> (\<forall>i < nx s. 0 < U s ! (i * 3) \<and> 0 < cell_p s i \<and> 0 < gamma s ! i)"

text \<open>
  The states from which the stages of one step compute their fluxes are all positive,
  and so are those of \<open>n\<close> steps in a row.
\<close>

definition stages_positive :: "solver \<Rightarrow> bool" where
  "stages_positive s =
     (case integrator s of
        RK2Integrator \<Rightarrow> positive_state s \<and> positive_state (RK2_stage1 s)
      | SSPIntegrator \<Rightarrow>
          positive_state s \<and> positive_state (SSP_stage1 s)
          \<and> positive_state (SSP_stage2 (SSP_stage1 s))
          \<and> positive_state (SSP_stage3 (SSP_stage2 (SSP_stage1 s))))"

fun positive_run :: "nat \<Rightarrow> solver \<Rightarrow> bool" where
  "positive_run 0 s = True"
| "positive_run (Suc n) s =
     (stages_positive s \<and> (case step s of Inl e \<Rightarrow> True | Inr s' \<Rightarrow> positive_run n s'))"

subsection \<open>States used as concrete inputs\<close>

definition ts_state :: solver where
  "ts_state = (EulerSolver_new \<lparr> cfg_nx = Some 2, cfg_cfl = Some 0.5, cfg_finalTime = Some 10,
      cfg_interfaceMethod = None, cfg_integrator = None, cfg_xtInterval = Some 1 \<rparr>)
      \<lparr> dx := 1, t_f := 0, nextXTStore := 1 \<rparr>"

definition half_gamma_slab :: slab where
  "half_gamma_slab = \<lparr> slab_gasId = ''X'', slab_gamma = 0.5, slab_mw = 29, slab_pressure = 101325,
       slab_temperature = 300, slab_length = 1 \<rparr>"

definition cfg2 :: config where
  "cfg2 = \<lparr> cfg_nx = Some 2, cfg_cfl = None, cfg_finalTime = None,
      cfg_interfaceMethod = None, cfg_integrator = None, cfg_xtInterval = None \<rparr>"

definition neg_state :: solver where
  "neg_state = (EulerSolver_new \<lparr> cfg_nx = Some 1, cfg_cfl = None, cfg_finalTime = None,
      cfg_interfaceMethod = None, cfg_integrator = None, cfg_xtInterval = None \<rparr>)
      \<lparr> U := [-1, 0, 1], gamma := [2], mw := [29], dx := 1, x_f := [0.5],
        regions := [\<lparr> gp_gamma = 2, gp_mw = 29, gp_gasId = ''air'' \<rparr>] \<rparr>"

definition ghost_state :: solver where
  "ghost_state = (EulerSolver_new cfg2)
      \<lparr> dx := 1, x_f := [0.5, 1.5], tracers := [\<lparr> tr_x = 1, trajectory = [(0, 1)] \<rparr>],
        regions := [\<lparr> gp_gamma = 1.4, gp_mw = 29, gp_gasId = ''air'' \<rparr>,
                    \<lparr> gp_gamma = 5 / 3, gp_mw = 4, gp_gasId = ''helium'' \<rparr>] \<rparr>"

definition mixed_state :: solver where
  "mixed_state = (EulerSolver_new \<lparr> cfg_nx = Some 2, cfg_cfl = None, cfg_finalTime = None,
      cfg_interfaceMethod = Some ''mixed'', cfg_integrator = None, cfg_xtInterval = None \<rparr>)
      \<lparr> dx := 1, x_f := [0.5, 1.5], u_f := [1, 1], numMaterials := 2,
        materialFractions := Some [1, 0, 0, 1], materialFlux := Some [0, 0, 0, 0, 0, 0] \<rparr>"

definition air_slab :: slab where
  "air_slab = \<lparr> slab_gasId = ''air'', slab_gamma = 1.4, slab_mw = 29, slab_pressure = 101325,
                slab_temperature = 300, slab_length = 1 \<rparr>"

definition cfg_ssp :: config where
  "cfg_ssp = \<lparr> cfg_nx = Some 2, cfg_cfl = Some 0.8, cfg_finalTime = None,
               cfg_interfaceMethod = Some ''mixed'', cfg_integrator = Some ''SSP'',
               cfg_xtInterval = None \<rparr>"

definition rest_state :: solver where
  "rest_state = (EulerSolver_new cfg2)
      \<lparr> dx := 0.5, x_f := [0.25, 0.75], U := [1, 0, 2.5, 1, 0, 2.5], gamma := [1.4, 1.4],
        mw := [29, 29], regions := [\<lparr> gp_gamma = 1.4, gp_mw = 29, gp_gasId = ''air'' \<rparr>] \<rparr>"

definition tube_state :: solver where
  "tube_state = (EulerSolver_new cfg2)
      \<lparr> dx := 0.5, x_f := [0.25, 0.75], U := [2, 0, 1, 2, 1, 4], gamma := [2, 2],
        mw := [29, 29], regions := [\<lparr> gp_gamma = 2, gp_mw = 29, gp_gasId = ''air'' \<rparr>] \<rparr>"

definition unit_slab :: slab where
  "unit_slab = \<lparr> slab_gasId = ''unit'', slab_gamma = 2, slab_mw = 8314.51, slab_pressure = 1,
                 slab_temperature = 1, slab_length = 1 \<rparr>"

definition zero_state :: solver where
  "zero_state = neg_state\<lparr> U := [0, 5, 1] \<rparr>"

section \<open>Properties\<close>

subsection \<open>Array loops\<close>

lemma length_array_loop [simp]: "length (array_loop n f a) = length a"
proof -
  have "length (fold (\<lambda>i b. b[i := f i (b ! i)]) js a) = length a" for js
    by (induction js arbitrary: a) auto
  then show ?thesis by (simp add: array_loop_def)
qed

lemma array_loop_Suc:
  "array_loop (Suc n) f a = (array_loop n f a)[n := f n (array_loop n f a ! n)]"
  by (simp add: array_loop_def)

lemma array_loop_0 [simp]: "array_loop 0 f a = a"
  by (simp add: array_loop_def)

lemma nth_array_loop:
  "i < length a \<Longrightarrow> array_loop n f a ! i = (if i < n then f i (a ! i) else a ! i)"
proof (induction n)
  case 0
  then show ?case by simp
next
  case (Suc n)
  then show ?case
    by (cases "i = n") (auto simp: array_loop_Suc)
qed

lemma array_loop_eq_map:
  "length a = n \<Longrightarrow> array_loop n f a = map (\<lambda>i. f i (a ! i)) [0..<n]"
  by (rule nth_equalityI) (auto simp: nth_array_loop)

subsection \<open>The integrator factory\<close>

text \<open>
  C2, as the specification states it, fails: for the name \<^verbatim>\<open>Euler\<close> the factory does
  not signal an error, it writes a warning and returns the RK2 integrator.
\<close>

theorem create_unknown_counterexample:
  "IntegratorFactory_create ''Euler'' =
     (RK2Integrator, [''Unknown integrator: Euler, defaulting to RK2''])"
  by (simp add: IntegratorFactory_create_def)

text \<open>
  C2, amended: for every integrator name other than RK2 and SSP the factory returns the
  RK2 integrator and writes one warning line that names the unknown integrator; a
  solver constructed with such a name has the RK2 integrator, and the constructor warns
  unless the name is the empty string (which \<^verbatim>\<open>config.integrator || 'RK2'\<close> replaces
  before the factory sees it). Construction never fails.
\<close>

theorem create_unknown_defaults:
  assumes "name \<noteq> ''RK2''" and "name \<noteq> ''SSP''"
  shows "IntegratorFactory_create name =
           (RK2Integrator, [''Unknown integrator: '' @ name @ '', defaulting to RK2''])
         \<and> (cfg_integrator config = Some name \<longrightarrow>
              integrator (EulerSolver_new config) = RK2Integrator
              \<and> EulerSolver_new_warnings config =
                  (if name = [] then []
                   else [''Unknown integrator: '' @ name @ '', defaulting to RK2'']))"
  using assms
  by (simp add: IntegratorFactory_create_def EulerSolver_new_def EulerSolver_new_warnings_def
      or_str_def Let_def)

theorem create_unknown_defaults_witness:
  "''Euler'' \<noteq> ''RK2'' \<and> ''Euler'' \<noteq> ''SSP''
   \<and> IntegratorFactory_create ''Euler'' =
           (RK2Integrator, [''Unknown integrator: Euler, defaulting to RK2''])
   \<and> integrator (EulerSolver_new \<lparr> cfg_nx = None, cfg_cfl = None, cfg_finalTime = None,
         cfg_interfaceMethod = None, cfg_integrator = Some ''Euler'',
         cfg_xtInterval = None \<rparr>) = RK2Integrator"
  using create_unknown_defaults [of "''Euler''" "\<lparr> cfg_nx = None, cfg_cfl = None,
         cfg_finalTime = None, cfg_interfaceMethod = None, cfg_integrator = Some ''Euler'',
         cfg_xtInterval = None \<rparr>"]
  by simp

subsection \<open>The step-size policy\<close>

lemma ceil_pos_quot:
  fixes r d :: real
  assumes "0 < r" "r < 2.5 * d"
  shows "1 \<le> \<lceil>r / d\<rceil>" and "r / of_int \<lceil>r / d\<rceil> \<le> d" and "0 < r / of_int \<lceil>r / d\<rceil>"
proof -
  from assms have d: "0 < d" by simp
  then have q: "0 < r / d" using assms by simp
  then have "0 < \<lceil>r / d\<rceil>" by (simp add: ceiling_less_iff)
  then show c1: "1 \<le> \<lceil>r / d\<rceil>" by simp
  then have cpos: "(0::real) < of_int \<lceil>r / d\<rceil>" by simp
  have "r / d \<le> of_int \<lceil>r / d\<rceil>" by (rule le_of_int_ceiling)
  then have "r / d * d \<le> of_int \<lceil>r / d\<rceil> * d" using d by (intro mult_right_mono) simp_all
  then have "r \<le> of_int \<lceil>r / d\<rceil> * d" using d by simp
  then show "r / of_int \<lceil>r / d\<rceil> \<le> d" using cpos by (simp add: pos_divide_le_eq mult.commute)
  show "0 < r / of_int \<lceil>r / d\<rceil>" using cpos assms by simp
qed

lemma calculateTimeStep_clamped:
  "calculateTimeStep s maxWaveSpeed =
     (if 0 < nextXTStore s - t_f s \<and> nextXTStore s - t_f s < 2.5 * clamped_cfl_step s maxWaveSpeed
      then (nextXTStore s - t_f s) /
             of_int (max 1 \<lceil>(nextXTStore s - t_f s) / clamped_cfl_step s maxWaveSpeed\<rceil>)
      else clamped_cfl_step s maxWaveSpeed)"
proof -
  have "(if t_f s + cfl s * dx s / maxWaveSpeed > finalTime s then finalTime s - t_f s
         else cfl s * dx s / maxWaveSpeed) = clamped_cfl_step s maxWaveSpeed"
    by (simp add: clamped_cfl_step_def min_def)
  then show ?thesis
    unfolding calculateTimeStep_def Let_def by (simp only:)
qed

text \<open>
  C4: with a positive wave speed, and \<open>r = nextXTStore - t\<close> the time to the next
  snapshot instant: when \<open>0 < r < 2.5 * dt0\<close>, for \<open>dt0\<close> the clamped CFL step, the step
  returned is \<open>r / \<lceil>r / dt0\<rceil>\<close>, it is positive and at most \<open>dt0\<close>, and
  \<open>\<lceil>r / dt0\<rceil> \<ge> 1\<close> such steps add up to \<open>r\<close>; otherwise the step returned is \<open>dt0\<close>.
  (Numbers are reals: "exactly" is exact arithmetic.)
\<close>

theorem calculateTimeStep_policy:
  assumes "0 < maxWaveSpeed"
  shows "(if 0 < nextXTStore s - t_f s \<and> nextXTStore s - t_f s < 2.5 * clamped_cfl_step s maxWaveSpeed
          then calculateTimeStep s maxWaveSpeed =
                 (nextXTStore s - t_f s) /
                   of_int \<lceil>(nextXTStore s - t_f s) / clamped_cfl_step s maxWaveSpeed\<rceil>
               \<and> 0 < calculateTimeStep s maxWaveSpeed
               \<and> calculateTimeStep s maxWaveSpeed \<le> clamped_cfl_step s maxWaveSpeed
               \<and> 1 \<le> \<lceil>(nextXTStore s - t_f s) / clamped_cfl_step s maxWaveSpeed\<rceil>
               \<and> of_int \<lceil>(nextXTStore s - t_f s) / clamped_cfl_step s maxWaveSpeed\<rceil>
                     * calculateTimeStep s maxWaveSpeed = nextXTStore s - t_f s
          else calculateTimeStep s maxWaveSpeed = clamped_cfl_step s maxWaveSpeed)"
proof (cases "0 < nextXTStore s - t_f s \<and> nextXTStore s - t_f s < 2.5 * clamped_cfl_step s maxWaveSpeed")
  case True
  then have r: "0 < nextXTStore s - t_f s"
      "nextXTStore s - t_f s < 2.5 * clamped_cfl_step s maxWaveSpeed" by auto
  note c = ceil_pos_quot [OF r]
  have m: "max 1 \<lceil>(nextXTStore s - t_f s) / clamped_cfl_step s maxWaveSpeed\<rceil>
           = \<lceil>(nextXTStore s - t_f s) / clamped_cfl_step s maxWaveSpeed\<rceil>"
    using c(1) by simp
  have eq: "calculateTimeStep s maxWaveSpeed =
      (nextXTStore s - t_f s) / of_int \<lceil>(nextXTStore s - t_f s) / clamped_cfl_step s maxWaveSpeed\<rceil>"
    using True m by (simp only: calculateTimeStep_clamped if_True simp_thms)
  have pos: "0 < calculateTimeStep s maxWaveSpeed" using c(3) by (simp only: eq)
  have le: "calculateTimeStep s maxWaveSpeed \<le> clamped_cfl_step s maxWaveSpeed"
    using c(2) by (simp only: eq)
  have "\<lceil>(nextXTStore s - t_f s) / clamped_cfl_step s maxWaveSpeed\<rceil> \<noteq> 0" using c(1) by linarith
  then have again: "of_int \<lceil>(nextXTStore s - t_f s) / clamped_cfl_step s maxWaveSpeed\<rceil>
                     * calculateTimeStep s maxWaveSpeed = nextXTStore s - t_f s"
    unfolding eq by simp
  show ?thesis
    by (simp only: if_P [OF True]) (intro conjI eq pos le c(1) again)
next
  case False
  then have "calculateTimeStep s maxWaveSpeed = clamped_cfl_step s maxWaveSpeed"
    by (simp only: calculateTimeStep_clamped if_False simp_thms)
  then show ?thesis by (simp only: if_not_P [OF False])
qed

theorem calculateTimeStep_policy_witness:
  "(0::real) < 1 \<and> clamped_cfl_step ts_state 1 = 0.5 \<and> calculateTimeStep ts_state 1 = 0.5
   \<and> \<lceil>(nextXTStore ts_state - t_f ts_state) / clamped_cfl_step ts_state 1\<rceil> = 2"
  using calculateTimeStep_policy [of 1 ts_state]
  by (simp add: ts_state_def EulerSolver_new_def clamped_cfl_step_def or_num_def or_nat_def)

subsection \<open>initialize and its input\<close>

lemma find_slab_bound:
  "slabIndex < length slabs \<Longrightarrow> snd (find_slab slabs c pos slabIndex) < length slabs"
proof (induction slabs c pos slabIndex rule: find_slab.induct)
  case (1 slabs c pos slabIndex)
  show ?case
    using 1 by (subst find_slab.simps) auto
qed

lemma init_cells_nonempty:
  "slabIndex < length slabs \<Longrightarrow>
     \<exists>sls. init_cells slabs cs pos slabIndex = Inr sls \<and> length sls = length cs"
proof (induction cs arbitrary: pos slabIndex)
  case Nil
  then show ?case by simp
next
  case (Cons c cs)
  obtain pos' idx' where f: "find_slab slabs c pos slabIndex = (pos', idx')"
    by (cases "find_slab slabs c pos slabIndex")
  with find_slab_bound [OF Cons.prems, of c pos] have b: "idx' < length slabs" by simp
  from Cons.IH [OF b, of pos'] obtain sls where
    "init_cells slabs cs pos' idx' = Inr sls" "length sls = length cs" by blast
  with f b show ?case by (simp add: lookup_def)
qed

lemma init_cells_empty: "cs \<noteq> [] \<Longrightarrow> init_cells [] cs pos slabIndex = Inl TypeError"
  by (cases cs) (simp_all add: find_slab.simps lookup_def)

lemma initialize_outcome:
  "(if slabs = [] \<and> 0 < nx s then initialize s slabs = Inl TypeError
    else \<exists>s'. initialize s slabs = Inr s')"
proof -
  define cs where "cs = map (\<lambda>i. x_f (init_grid s slabs) ! i) [0..<nx (init_grid s slabs)]"
  have len: "length cs = nx s" by (simp add: cs_def init_grid_def Let_def)
  have split: "initialize s slabs = Inl TypeError" if "init_cells slabs cs 0 0 = Inl TypeError"
    using that unfolding initialize_def Let_def cs_def by simp
  have ok: "\<exists>s'. initialize s slabs = Inr s'" if "init_cells slabs cs 0 0 = Inr sls" for sls
    using that unfolding initialize_def Let_def cs_def by simp
  show ?thesis
  proof (cases "slabs = [] \<and> 0 < nx s")
    case True
    then have "cs \<noteq> []" using len by auto
    with True have "init_cells slabs cs 0 0 = Inl TypeError" by (simp add: init_cells_empty)
    with True split show ?thesis by simp
  next
    case False
    have ex: "\<exists>s'. initialize s slabs = Inr s'"
    proof (cases "slabs = []")
      case True
      with False have "cs = []" using len by simp
      then have "init_cells slabs cs 0 0 = Inr []" by simp
      from ok [OF this] show ?thesis .
    next
      case nonempty: False
      then have "0 < length slabs" by simp
      from init_cells_nonempty [OF this, of cs 0] ok show ?thesis by blast
    qed
    show ?thesis unfolding if_not_P [OF False] by (rule ex)
  qed
qed

text \<open>
  C1, as the specification states it, fails: a slab list whose only slab has
  \<open>gamma = 0.5\<close> is accepted, and \<^verbatim>\<open>initialize\<close> completes.
\<close>

theorem initialize_unvalidated_counterexample:
  "slab_gamma half_gamma_slab \<le> 1 \<and> \<not> isl (initialize (EulerSolver_new cfg2) [half_gamma_slab])"
  using initialize_outcome [of "[half_gamma_slab]" "EulerSolver_new cfg2"]
  by (auto simp: half_gamma_slab_def)

text \<open>
  C1, amended: \<^verbatim>\<open>initialize\<close> checks no property of a slab. On a solver with at least
  one cell it fails exactly when the slab list is empty, and then with the TypeError of
  reading a property of \<^verbatim>\<open>undefined\<close>; on every non-empty list, whatever the values of
  gamma, molecular weight, pressure, temperature and length, it completes.
\<close>

theorem initialize_unvalidated:
  "(if slabs = [] \<and> 0 < nx s then initialize s slabs = Inl TypeError
    else \<exists>s'. initialize s slabs = Inr s')"
  by (rule initialize_outcome)

subsection \<open>Region lookup and interface cells\<close>

lemma for_cells_Inr:
  "(\<And>i. i \<in> set js \<Longrightarrow> f i = Inr (g i)) \<Longrightarrow> for_cells f js = Inr (map g js)"
  by (induction js) auto

lemma for_cells_cong:
  "(\<And>i. i \<in> set js \<Longrightarrow> f i = g i) \<Longrightarrow> for_cells f js = for_cells g js"
  by (induction js) (auto split: sum.splits)

lemma for_cells_length: "for_cells f js = Inr vs \<Longrightarrow> length vs = length js"
  by (induction js arbitrary: vs) (auto split: sum.splits)

lemma for_cells_error:
  "for_cells f js = Inl e \<Longrightarrow> \<exists>i \<in> set js. f i = Inl e"
  by (induction js) (auto split: sum.splits)

lemma region_scan_takeWhile:
  "region_scan c tps j r =
     (if takeWhile (\<lambda>tp. tp < c) tps = [] then r else j + length (takeWhile (\<lambda>tp. tp < c) tps))"
  by (induction tps arbitrary: j r) auto

lemma takeWhile_sorted_filter:
  fixes c :: real
  shows "sorted tps \<Longrightarrow> takeWhile (\<lambda>tp. tp < c) tps = filter (\<lambda>tp. tp < c) tps"
proof (induction tps)
  case Nil
  then show ?case by simp
next
  case (Cons tp tps)
  show ?case
  proof (cases "tp < c")
    case True
    with Cons show ?thesis by simp
  next
    case False
    with Cons.prems have "\<forall>y \<in> set tps. \<not> y < c" by auto
    then have "filter (\<lambda>tp. tp < c) tps = []" by (simp add: filter_empty_conv)
    with False show ?thesis by simp
  qed
qed

lemma region_scan_sorted:
  "sorted tps \<Longrightarrow> region_scan c tps 0 0 = length (filter (\<lambda>tp. tp < c) tps)"
  by (simp add: region_scan_takeWhile takeWhile_sorted_filter)

lemma clamp_region_eq: "clamp_region n r = min (n - 1) r"
  by (auto simp: clamp_region_def min_def max_def)

lemma fold_insert_cells:
  "fold (\<lambda>i cells. if P i then insert i cells else cells) [0..<n] {} = {i. i < n \<and> P i}"
  by (induction n) (auto simp: less_Suc_eq)

lemma cell_region_spec:
  "cell_region s (sort (map tr_x (tracers s))) = (\<lambda>i. lookup (regions s) (region_index_spec s i))"
  by (rule ext)
     (simp add: cell_region_def region_index_spec_def clamp_region_eq region_scan_sorted)

lemma identifyInterfaceCells_spec:
  "identifyInterfaceCells s = s\<lparr> interfaceCells := interface_cells_spec s \<rparr>"
  by (auto simp: identifyInterfaceCells_def interface_cells_spec_def Let_def fold_insert_cells
      list_ex_iff)

lemma region_index_spec_frame [simp]:
  "region_index_spec (s\<lparr> interfaceCells := c \<rparr>) i = region_index_spec s i"
  "region_index_spec (s\<lparr> interfaceMethod := m \<rparr>) i = region_index_spec s i"
  by (simp_all add: region_index_spec_def)

lemma updateGasProperties_sharp:
  assumes "interfaceMethod s \<noteq> ''mixed''" "interfaceMethod s \<noteq> ''ghost''"
  shows "updateGasProperties s =
     (case for_cells (\<lambda>i. lookup (regions s) (region_index_spec s i)) [0..<nx s] of
        Inl e \<Rightarrow> Inl e
      | Inr props \<Rightarrow> Inr (assign_props s props))"
  using assms by (simp add: updateGasProperties_def Let_def cell_region_spec)

lemma updateGasProperties_ghost:
  assumes "interfaceMethod s = ''ghost''"
  shows "updateGasProperties s =
     (case for_cells (\<lambda>i. lookup (regions s) (region_index_spec s i)) [0..<nx s] of
        Inl e \<Rightarrow> Inl e
      | Inr props \<Rightarrow> Inr (assign_props (s\<lparr> interfaceCells := interface_cells_spec s \<rparr>) props))"
proof -
  have "cell_region (s\<lparr> interfaceCells := interface_cells_spec s \<rparr>) (sort (map tr_x (tracers s)))
        = (\<lambda>i. lookup (regions s) (region_index_spec s i))"
    using cell_region_spec [of "s\<lparr> interfaceCells := interface_cells_spec s \<rparr>"] by simp
  then show ?thesis
    using assms by (simp add: updateGasProperties_def Let_def identifyInterfaceCells_spec)
qed

lemma assign_props_frame:
  "assign_props (s\<lparr> interfaceMethod := m, interfaceCells := c \<rparr>) props
     = (assign_props s props)\<lparr> interfaceMethod := m, interfaceCells := c \<rparr>"
  by (simp add: assign_props_def)

lemma ghost_sharp_eq:
  "updateGasProperties (s\<lparr> interfaceMethod := ''ghost'' \<rparr>) =
     (case updateGasProperties (s\<lparr> interfaceMethod := ''sharp'' \<rparr>) of
        Inl e \<Rightarrow> Inl e
      | Inr s' \<Rightarrow> Inr (s'\<lparr> interfaceMethod := ''ghost'', interfaceCells := interface_cells_spec s \<rparr>))"
proof -
  have i: "interface_cells_spec (s\<lparr> interfaceMethod := ''ghost'' \<rparr>) = interface_cells_spec s"
    by (simp add: interface_cells_spec_def near_tracer_def)
  show ?thesis
    by (simp add: updateGasProperties_ghost updateGasProperties_sharp i assign_props_def
        split: sum.splits)
qed

lemma lookup_Inr: "i < length xs \<Longrightarrow> lookup xs i = Inr (xs ! i)"
  by (simp add: lookup_def)

lemma region_index_spec_bound: "regions s \<noteq> [] \<Longrightarrow> region_index_spec s i < length (regions s)"
  by (cases "regions s") (simp_all add: region_index_spec_def)

lemma updateGasProperties_sharp_ok:
  assumes "interfaceMethod s \<noteq> ''mixed''" "interfaceMethod s \<noteq> ''ghost''" "regions s \<noteq> []"
  shows "updateGasProperties s =
           Inr (assign_props s (map (\<lambda>i. regions s ! region_index_spec s i) [0..<nx s]))"
proof -
  have "for_cells (\<lambda>i. lookup (regions s) (region_index_spec s i)) [0..<nx s]
        = Inr (map (\<lambda>i. regions s ! region_index_spec s i) [0..<nx s])"
    by (rule for_cells_Inr) (simp add: lookup_Inr region_index_spec_bound assms(3))
  then show ?thesis by (simp add: updateGasProperties_sharp assms)
qed

lemma assign_props_nth:
  assumes "i < nx s" "length (gamma s) = nx s" "length (mw s) = nx s" "length (gasId s) = nx s"
  shows "gamma (assign_props s props) ! i = gp_gamma (props ! i)"
    and "mw (assign_props s props) ! i = gp_mw (props ! i)"
    and "gasId (assign_props s props) ! i = Some (gp_gasId (props ! i))"
  using assms by (simp_all add: assign_props_def nth_array_loop)

lemma updateGasProperties_frame:
  "updateGasProperties s = Inr s' \<Longrightarrow>
     s' = s\<lparr> gamma := gamma s', mw := mw s', gasId := gasId s', interfaceCells := interfaceCells s' \<rparr>"
  by (auto simp: updateGasProperties_def assign_props_def identifyInterfaceCells_def Let_def
      split: if_splits sum.splits)

lemma ghost_frame:
  assumes "updateGasProperties (s\<lparr> interfaceMethod := ''ghost'' \<rparr>) = Inr s'"
  shows "s' = s\<lparr> interfaceMethod := ''ghost'', gamma := gamma s', mw := mw s', gasId := gasId s',
                  interfaceCells := interface_cells_spec s \<rparr>"
proof -
  have i: "interface_cells_spec (s\<lparr> interfaceMethod := ''ghost'' \<rparr>) = interface_cells_spec s"
    by (simp add: interface_cells_spec_def near_tracer_def)
  from assms have "interfaceCells s' = interface_cells_spec s"
    by (auto simp: updateGasProperties_ghost assign_props_def i split: sum.splits)
  with updateGasProperties_frame [OF assms] show ?thesis by simp
qed

text \<open>
  C6: on every state, \<^verbatim>\<open>updateGasProperties\<close> under the ghost method returns what it
  returns under the sharp method, but for the method itself and the set of interface
  cells, which becomes the set of cells that pass the 1.5-cell-width test for some
  tracer; it changes no field but gamma, mw, gasId and interfaceCells; and with a
  region table and arrays of \<open>nx\<close> entries the sharp method succeeds and gives every
  cell the gamma, molecular weight and gas id of the region whose index is the number
  of sorted tracer positions strictly below the cell centre, clamped to the table.
\<close>

theorem ghost_refines_sharp:
  "updateGasProperties (s\<lparr> interfaceMethod := ''ghost'' \<rparr>) =
     (case updateGasProperties (s\<lparr> interfaceMethod := ''sharp'' \<rparr>) of
        Inl e \<Rightarrow> Inl e
      | Inr s' \<Rightarrow> Inr (s'\<lparr> interfaceMethod := ''ghost'', interfaceCells := interface_cells_spec s \<rparr>))
   \<and> (\<forall>s'. updateGasProperties (s\<lparr> interfaceMethod := ''ghost'' \<rparr>) = Inr s' \<longrightarrow>
          s' = s\<lparr> interfaceMethod := ''ghost'', gamma := gamma s', mw := mw s', gasId := gasId s',
                  interfaceCells := interface_cells_spec s \<rparr>)
   \<and> (regions s \<noteq> [] \<and> length (gamma s) = nx s \<and> length (mw s) = nx s \<and> length (gasId s) = nx s
        \<longrightarrow> (\<exists>s'. updateGasProperties (s\<lparr> interfaceMethod := ''sharp'' \<rparr>) = Inr s'
              \<and> (\<forall>i < nx s. gamma s' ! i = gp_gamma (regions s ! region_index_spec s i)
                           \<and> mw s' ! i = gp_mw (regions s ! region_index_spec s i)
                           \<and> gasId s' ! i = Some (gp_gasId (regions s ! region_index_spec s i)))))"
proof (intro conjI impI allI)
  show "updateGasProperties (s\<lparr> interfaceMethod := ''ghost'' \<rparr>) =
     (case updateGasProperties (s\<lparr> interfaceMethod := ''sharp'' \<rparr>) of
        Inl e \<Rightarrow> Inl e
      | Inr s' \<Rightarrow> Inr (s'\<lparr> interfaceMethod := ''ghost'', interfaceCells := interface_cells_spec s \<rparr>))"
    by (rule ghost_sharp_eq)
next
  fix s'
  assume "updateGasProperties (s\<lparr> interfaceMethod := ''ghost'' \<rparr>) = Inr s'"
  then show "s' = s\<lparr> interfaceMethod := ''ghost'', gamma := gamma s', mw := mw s', gasId := gasId s',
                  interfaceCells := interface_cells_spec s \<rparr>"
    by (rule ghost_frame)
next
  assume a: "regions s \<noteq> [] \<and> length (gamma s) = nx s \<and> length (mw s) = nx s \<and> length (gasId s) = nx s"
  let ?t = "s\<lparr> interfaceMethod := ''sharp'' \<rparr>"
  have ok: "updateGasProperties ?t =
           Inr (assign_props ?t (map (\<lambda>i. regions ?t ! region_index_spec ?t i) [0..<nx ?t]))"
    by (rule updateGasProperties_sharp_ok) (use a in simp_all)
  show "\<exists>s'. updateGasProperties ?t = Inr s'
              \<and> (\<forall>i < nx s. gamma s' ! i = gp_gamma (regions s ! region_index_spec s i)
                           \<and> mw s' ! i = gp_mw (regions s ! region_index_spec s i)
                           \<and> gasId s' ! i = Some (gp_gasId (regions s ! region_index_spec s i)))"
    unfolding ok using a by (auto simp: assign_props_nth)
qed

theorem ghost_refines_sharp_witness:
  "regions ghost_state \<noteq> [] \<and> length (gamma ghost_state) = nx ghost_state
   \<and> length (mw ghost_state) = nx ghost_state \<and> length (gasId ghost_state) = nx ghost_state
   \<and> (\<exists>s'. updateGasProperties (ghost_state\<lparr> interfaceMethod := ''sharp'' \<rparr>) = Inr s'
          \<and> gamma s' ! 0 = 1.4 \<and> gamma s' ! 1 = 5 / 3)"
proof -
  have h: "regions ghost_state \<noteq> [] \<and> length (gamma ghost_state) = nx ghost_state
   \<and> length (mw ghost_state) = nx ghost_state \<and> length (gasId ghost_state) = nx ghost_state"
    by (simp add: ghost_state_def EulerSolver_new_def cfg2_def or_nat_def)
  have n: "nx ghost_state = 2"
    by (simp add: ghost_state_def EulerSolver_new_def cfg2_def or_nat_def)
  have r0: "region_index_spec ghost_state 0 = 0"
    and r1: "region_index_spec ghost_state (Suc 0) = Suc 0"
    by (simp_all add: region_index_spec_def ghost_state_def)
  have g: "regions ghost_state ! 0 = \<lparr> gp_gamma = 1.4, gp_mw = 29, gp_gasId = ''air'' \<rparr>"
      "regions ghost_state ! Suc 0 = \<lparr> gp_gamma = 5 / 3, gp_mw = 4, gp_gasId = ''helium'' \<rparr>"
    by (simp_all add: ghost_state_def)
  from ghost_refines_sharp [of ghost_state] h obtain s' where
    s': "updateGasProperties (ghost_state\<lparr> interfaceMethod := ''sharp'' \<rparr>) = Inr s'"
    and a: "\<forall>i < nx ghost_state. gamma s' ! i = gp_gamma (regions ghost_state ! region_index_spec ghost_state i)
                           \<and> mw s' ! i = gp_mw (regions ghost_state ! region_index_spec ghost_state i)
                           \<and> gasId s' ! i = Some (gp_gasId (regions ghost_state ! region_index_spec ghost_state i))"
    by blast
  from a n have "gamma s' ! 0 = 1.4" "gamma s' ! 1 = 5 / 3"
    by (simp_all add: r0 r1 g)
  with s' h show ?thesis by blast
qed

subsection \<open>The post-step operations\<close>

lemma updateGasProperties_nonmixed_ok:
  assumes "interfaceMethod s \<noteq> ''mixed''" "regions s \<noteq> []"
  shows "\<exists>s'. updateGasProperties s = Inr s'"
proof (cases "interfaceMethod s = ''ghost''")
  case True
  have "for_cells (\<lambda>i. lookup (regions s) (region_index_spec s i)) [0..<nx s]
        = Inr (map (\<lambda>i. regions s ! region_index_spec s i) [0..<nx s])"
    by (rule for_cells_Inr) (simp add: lookup_Inr region_index_spec_bound assms(2))
  then show ?thesis by (simp add: updateGasProperties_ghost True)
next
  case False
  then show ?thesis using updateGasProperties_sharp_ok [OF assms(1) False assms(2)] by simp
qed

lemma updatePrimitives_fields:
  "rho (updatePrimitives s) = array_loop (nx s) (\<lambda>i _. U s ! (i * 3)) (rho s)"
  "u_f (updatePrimitives s) = array_loop (nx s) (\<lambda>i _. cell_u s i) (u_f s)"
  "p_f (updatePrimitives s) = array_loop (nx s) (\<lambda>i _. cell_p s i) (p_f s)"
  "T_f (updatePrimitives s) = array_loop (nx s) (\<lambda>i _. cell_T s i) (T_f s)"
  by (simp_all add: updatePrimitives_def)

lemma cell_frame [simp]:
  "cell_u (s\<lparr> t_f := a \<rparr>) = cell_u s" "cell_u (s\<lparr> timeSteps := b \<rparr>) = cell_u s"
  "cell_p (s\<lparr> t_f := a \<rparr>) = cell_p s" "cell_p (s\<lparr> timeSteps := b \<rparr>) = cell_p s"
  "cell_T (s\<lparr> t_f := a \<rparr>) = cell_T s" "cell_T (s\<lparr> timeSteps := b \<rparr>) = cell_T s"
  by (simp_all add: cell_u_def cell_p_def cell_T_def fun_eq_iff)

lemma updatePrimitives_time:
  "rho (updatePrimitives (s\<lparr> t_f := a, timeSteps := b \<rparr>)) = rho (updatePrimitives s)"
  "p_f (updatePrimitives (s\<lparr> t_f := a, timeSteps := b \<rparr>)) = p_f (updatePrimitives s)"
  by (simp_all add: updatePrimitives_def)

lemma updateGasProperties_fields:
  assumes "updateGasProperties s = Inr s'"
  shows "nx s' = nx s" "cfl s' = cfl s" "finalTime s' = finalTime s"
    "interfaceMethod s' = interfaceMethod s" "integrator s' = integrator s" "x_f s' = x_f s"
    "dx s' = dx s" "U s' = U s" "Un_f s' = Un_f s" "Uk s' = Uk s" "rho s' = rho s"
    "u_f s' = u_f s" "p_f s' = p_f s" "T_f s' = T_f s" "flux s' = flux s" "t_f s' = t_f s"
    "dt s' = dt s" "timeSteps s' = timeSteps s" "xtData s' = xtData s"
    "xtInterval s' = xtInterval s" "nextXTStore s' = nextXTStore s" "tracers s' = tracers s"
    "regions s' = regions s" "numMaterials s' = numMaterials s"
    "materialFractions s' = materialFractions s" "materialProperties s' = materialProperties s"
    "materialFlux s' = materialFlux s" "Ru s' = Ru s"
  using assms
  by (auto simp: updateGasProperties_def assign_props_def identifyInterfaceCells_def Let_def
      split: if_splits sum.splits)

lemma postStep_Inr:
  assumes "postStep s = Inr s'"
  shows "\<exists>s4. updateGasProperties (updateTracers (updatePrimitives
                 (s\<lparr> t_f := t_f s + dt s, timeSteps := timeSteps s + 1 \<rparr>))) = Inr s4
          \<and> s' = (if \<bar>t_f s4 - nextXTStore s4\<bar> < 1 / 10 ^ 10 \<or> t_f s4 > nextXTStore s4
                  then (storeXTData s4)\<lparr> nextXTStore := nextXTStore s4 + xtInterval s4 \<rparr>
                  else s4)"
  using assms unfolding postStep_def Let_def by (auto split: sum.splits)

lemma postStep_fields:
  assumes "postStep s = Inr s'"
  shows "nx s' = nx s" "cfl s' = cfl s" "finalTime s' = finalTime s"
    "interfaceMethod s' = interfaceMethod s" "integrator s' = integrator s" "x_f s' = x_f s"
    "dx s' = dx s" "U s' = U s" "Un_f s' = Un_f s" "Uk s' = Uk s" "flux s' = flux s"
    "dt s' = dt s" "xtInterval s' = xtInterval s" "regions s' = regions s"
    "numMaterials s' = numMaterials s" "materialFractions s' = materialFractions s"
    "materialProperties s' = materialProperties s" "materialFlux s' = materialFlux s"
    "Ru s' = Ru s" "t_f s' = t_f s + dt s" "timeSteps s' = timeSteps s + 1"
    "rho s' = rho (updatePrimitives s)" "u_f s' = u_f (updatePrimitives s)"
    "p_f s' = p_f (updatePrimitives s)" "T_f s' = T_f (updatePrimitives s)"
proof -
  define s3 where "s3 = updateTracers (updatePrimitives
                 (s\<lparr> t_f := t_f s + dt s, timeSteps := timeSteps s + 1 \<rparr>))"
  from postStep_Inr [OF assms] obtain s4 where
    s4: "updateGasProperties s3 = Inr s4"
    and s': "s' = (if \<bar>t_f s4 - nextXTStore s4\<bar> < 1 / 10 ^ 10 \<or> t_f s4 > nextXTStore s4
                  then (storeXTData s4)\<lparr> nextXTStore := nextXTStore s4 + xtInterval s4 \<rparr>
                  else s4)"
    unfolding s3_def by blast
  note f = updateGasProperties_fields [OF s4]
  have g: "nx s3 = nx s" "cfl s3 = cfl s" "finalTime s3 = finalTime s"
    "interfaceMethod s3 = interfaceMethod s" "integrator s3 = integrator s" "x_f s3 = x_f s"
    "dx s3 = dx s" "U s3 = U s" "Un_f s3 = Un_f s" "Uk s3 = Uk s" "flux s3 = flux s"
    "dt s3 = dt s" "xtInterval s3 = xtInterval s" "regions s3 = regions s"
    "numMaterials s3 = numMaterials s" "materialFractions s3 = materialFractions s"
    "materialProperties s3 = materialProperties s" "materialFlux s3 = materialFlux s"
    "Ru s3 = Ru s" "t_f s3 = t_f s + dt s" "timeSteps s3 = timeSteps s + 1"
    "rho s3 = rho (updatePrimitives s)" "u_f s3 = u_f (updatePrimitives s)"
    "p_f s3 = p_f (updatePrimitives s)" "T_f s3 = T_f (updatePrimitives s)"
    by (simp_all add: s3_def updateTracers_def updatePrimitives_def)
  show "nx s' = nx s" "cfl s' = cfl s" "finalTime s' = finalTime s"
    "interfaceMethod s' = interfaceMethod s" "integrator s' = integrator s" "x_f s' = x_f s"
    "dx s' = dx s" "U s' = U s" "Un_f s' = Un_f s" "Uk s' = Uk s" "flux s' = flux s"
    "dt s' = dt s" "xtInterval s' = xtInterval s" "regions s' = regions s"
    "numMaterials s' = numMaterials s" "materialFractions s' = materialFractions s"
    "materialProperties s' = materialProperties s" "materialFlux s' = materialFlux s"
    "Ru s' = Ru s" "t_f s' = t_f s + dt s" "timeSteps s' = timeSteps s + 1"
    "rho s' = rho (updatePrimitives s)" "u_f s' = u_f (updatePrimitives s)"
    "p_f s' = p_f (updatePrimitives s)" "T_f s' = T_f (updatePrimitives s)"
    unfolding s' by (simp_all add: storeXTData_def f g)
qed

lemma postStep_nonmixed_ok:
  assumes "interfaceMethod s \<noteq> ''mixed''" "regions s \<noteq> []"
  shows "\<exists>s'. postStep s = Inr s'"
proof -
  define s3 where "s3 = updateTracers (updatePrimitives
                 (s\<lparr> t_f := t_f s + dt s, timeSteps := timeSteps s + 1 \<rparr>))"
  have "interfaceMethod s3 \<noteq> ''mixed''" "regions s3 \<noteq> []"
    using assms by (simp_all add: s3_def updateTracers_def updatePrimitives_def)
  from updateGasProperties_nonmixed_ok [OF this] obtain s4 where "updateGasProperties s3 = Inr s4"
    by blast
  then show ?thesis unfolding postStep_def Let_def s3_def by simp
qed

lemma postStep_snapshot:
  assumes "postStep s = Inr s'"
    and "\<bar>t_f s + dt s - nextXTStore s\<bar> < 1 / 10 ^ 10 \<or> t_f s + dt s > nextXTStore s"
  shows "xtData s' \<noteq> []" "snap_rho (last (xtData s')) = rho s'"
    "snap_p (last (xtData s')) = p_f s'" "snap_t (last (xtData s')) = t_f s'"
proof -
  define s3 where "s3 = updateTracers (updatePrimitives
                 (s\<lparr> t_f := t_f s + dt s, timeSteps := timeSteps s + 1 \<rparr>))"
  from postStep_Inr [OF assms(1)] obtain s4 where
    s4: "updateGasProperties s3 = Inr s4"
    and s': "s' = (if \<bar>t_f s4 - nextXTStore s4\<bar> < 1 / 10 ^ 10 \<or> t_f s4 > nextXTStore s4
                  then (storeXTData s4)\<lparr> nextXTStore := nextXTStore s4 + xtInterval s4 \<rparr>
                  else s4)"
    unfolding s3_def by blast
  note f = updateGasProperties_fields [OF s4]
  have g: "t_f s3 = t_f s + dt s" "nextXTStore s3 = nextXTStore s"
    by (simp_all add: s3_def updateTracers_def updatePrimitives_def)
  have c: "\<bar>t_f s4 - nextXTStore s4\<bar> < 1 / 10 ^ 10 \<or> t_f s4 > nextXTStore s4"
    using assms(2) by (simp only: f g)
  have s'': "s' = (storeXTData s4)\<lparr> nextXTStore := nextXTStore s4 + xtInterval s4 \<rparr>"
    unfolding s' using c by (simp only: if_True)
  show "xtData s' \<noteq> []" "snap_rho (last (xtData s')) = rho s'"
    "snap_p (last (xtData s')) = p_f s'" "snap_t (last (xtData s')) = t_f s'"
    unfolding s'' by (simp_all add: storeXTData_def)
qed

text \<open>
  C3, amended: the solver detects nothing. Under the sharp or the ghost method, with
  a region table, \<^verbatim>\<open>postStep\<close> completes on every state and counts the step: it
  stores in the primitive fields the density \<open>U[3i]\<close> of every cell and, in every cell
  whose density is not zero, the pressure computed from the conservative state,
  whatever their sign, and copies the fields into the snapshot when one is due. (In a
  cell of density zero the source divides by zero; what it stores as the pressure is
  not a number, and the statement says nothing about it.)
\<close>

theorem postStep_unchecked:
  assumes "interfaceMethod s \<noteq> ''mixed''" "regions s \<noteq> []"
    and "length (rho s) = nx s" "length (p_f s) = nx s"
  shows "\<exists>s'. postStep s = Inr s'
           \<and> timeSteps s' = timeSteps s + 1
           \<and> (\<forall>i < nx s. rho s' ! i = U s ! (i * 3)
                          \<and> (U s ! (i * 3) \<noteq> 0 \<longrightarrow> p_f s' ! i = cell_p s i))
           \<and> (\<bar>t_f s + dt s - nextXTStore s\<bar> < 1 / 10 ^ 10 \<or> t_f s + dt s > nextXTStore s
                \<longrightarrow> xtData s' \<noteq> [] \<and> snap_rho (last (xtData s')) = rho s'
                     \<and> snap_p (last (xtData s')) = p_f s')"
proof -
  from postStep_nonmixed_ok [OF assms(1,2)] obtain s' where s': "postStep s = Inr s'" by blast
  note f = postStep_fields [OF s']
  have "\<forall>i < nx s. rho s' ! i = U s ! (i * 3)
                          \<and> (U s ! (i * 3) \<noteq> 0 \<longrightarrow> p_f s' ! i = cell_p s i)"
    using assms(3,4) by (simp add: f updatePrimitives_fields nth_array_loop)
  with s' f(21) postStep_snapshot [OF s'] show ?thesis by blast
qed

lemma neg_state_facts:
  "interfaceMethod neg_state \<noteq> ''mixed''" "regions neg_state \<noteq> []"
  "length (rho neg_state) = nx neg_state" "length (p_f neg_state) = nx neg_state"
  "nx neg_state = 1" "U neg_state = [-1, 0, 1]" "t_f neg_state = 0" "dt neg_state = 0"
  "nextXTStore neg_state = 0" "cell_p neg_state 0 = 1" "rho neg_state = [0]"
  "timeSteps neg_state = 0"
  by (simp_all add: neg_state_def EulerSolver_new_def or_nat_def or_str_def cell_p_def cell_u_def)

lemma zero_state_facts:
  "interfaceMethod zero_state \<noteq> ''mixed''" "regions zero_state \<noteq> []"
  "length (rho zero_state) = nx zero_state" "length (p_f zero_state) = nx zero_state"
  "nx zero_state = 1" "U zero_state = [0, 5, 1]" "timeSteps zero_state = 0"
  by (simp_all add: zero_state_def neg_state_facts)

theorem postStep_unchecked_witness:
  "interfaceMethod neg_state \<noteq> ''mixed'' \<and> regions neg_state \<noteq> []
   \<and> length (rho neg_state) = nx neg_state \<and> length (p_f neg_state) = nx neg_state
   \<and> (\<exists>s'. postStep neg_state = Inr s' \<and> timeSteps s' = 1 \<and> rho s' ! 0 = - 1 \<and> p_f s' ! 0 = 1)
   \<and> interfaceMethod zero_state \<noteq> ''mixed'' \<and> regions zero_state \<noteq> []
   \<and> length (rho zero_state) = nx zero_state \<and> length (p_f zero_state) = nx zero_state
   \<and> (\<exists>s'. postStep zero_state = Inr s' \<and> timeSteps s' = 1 \<and> rho s' ! 0 = 0)"
proof -
  have a: "\<exists>s'. postStep neg_state = Inr s' \<and> timeSteps s' = 1 \<and> rho s' ! 0 = - 1 \<and> p_f s' ! 0 = 1"
    using postStep_unchecked [of neg_state] by (auto simp: neg_state_facts)
  have b: "\<exists>s'. postStep zero_state = Inr s' \<and> timeSteps s' = 1 \<and> rho s' ! 0 = 0"
    using postStep_unchecked [of zero_state] by (auto simp: zero_state_facts)
  have h: "interfaceMethod neg_state \<noteq> ''mixed''" "regions neg_state \<noteq> []"
    "length (rho neg_state) = nx neg_state" "length (p_f neg_state) = nx neg_state"
    "interfaceMethod zero_state \<noteq> ''mixed''" "regions zero_state \<noteq> []"
    "length (rho zero_state) = nx zero_state" "length (p_f zero_state) = nx zero_state"
    by (rule neg_state_facts zero_state_facts)+
  from a b h show ?thesis by blast
qed

text \<open>
  C3, as the specification states it, fails: on a state whose only cell has density
  \<open>-1\<close> after an update, \<^verbatim>\<open>postStep\<close> raises nothing; it counts the step and stores
  the negative density in the primitive field and in the snapshot.
\<close>

theorem nonpositive_density_counterexample:
  "U neg_state ! 0 \<le> 0 \<and>
   (case postStep neg_state of Inl e \<Rightarrow> False
    | Inr s' \<Rightarrow> rho s' ! 0 = - 1 \<and> snap_rho (last (xtData s')) ! 0 = - 1
               \<and> timeSteps s' = timeSteps neg_state + 1)"
proof -
  from postStep_nonmixed_ok [of neg_state] obtain s' where
    s': "postStep neg_state = Inr s'" by (auto simp: neg_state_facts)
  note f = postStep_fields [OF s']
  have r: "rho s' ! 0 = - 1"
    by (simp add: f updatePrimitives_fields nth_array_loop neg_state_facts)
  have "snap_rho (last (xtData s')) = rho s'"
    by (rule postStep_snapshot [OF s']) (simp add: neg_state_facts)
  with r f(21) show ?thesis by (simp add: s' neg_state_facts)
qed

subsection \<open>Material fractions\<close>

lemma alpha_total_sum_list: "alpha_total row = sum_list row"
proof -
  have "foldl (\<lambda>totalAlpha a. totalAlpha + a) z row = z + sum_list row" for z :: real
    by (induction row arbitrary: z) simp_all
  then show ?thesis by (simp add: alpha_total_def)
qed

lemma alpha_clamp_range:
  "a \<in> set (alpha_clamp row) \<Longrightarrow> 0 \<le> a \<and> a \<le> 1"
  by (auto simp: alpha_clamp_def)

lemma length_alpha_clamp [simp]: "length (alpha_clamp row) = length row"
  by (simp add: alpha_clamp_def)

lemma length_alpha_normalize [simp]: "length (alpha_normalize n row) = length row"
  by (simp add: alpha_normalize_def)

lemma sum_list_divide:
  fixes c :: real
  shows "sum_list (map (\<lambda>a. a / c) row) = sum_list row / c"
  by (induction row) (simp_all add: add_divide_distrib)

lemma alpha_normalize_sum:
  assumes "0 < length row"
  shows "sum_list (alpha_normalize (length row) row) = 1"
proof (cases "alpha_total row > 1 / 10 ^ 10")
  case True
  then have "sum_list row \<noteq> 0" by (auto simp: alpha_total_sum_list)
  with True show ?thesis
    by (simp add: alpha_normalize_def sum_list_divide alpha_total_sum_list)
next
  case False
  have "map (\<lambda>a. 1.0 / real (length row)) row = replicate (length row) (1 / real (length row))"
    by (simp add: map_replicate_const)
  with False assms show ?thesis
    by (simp add: alpha_normalize_def sum_list_replicate)
qed

lemma alpha_normalize_range:
  assumes "\<forall>a \<in> set row. 0 \<le> a \<and> a \<le> 1" "0 < length row" "b \<in> set (alpha_normalize (length row) row)"
  shows "0 \<le> b \<and> b \<le> 1"
proof (cases "alpha_total row > 1 / 10 ^ 10")
  case True
  then have pos: "0 < sum_list row" by (simp add: alpha_total_sum_list)
  from True assms(3) obtain a where a: "a \<in> set row" "b = a / sum_list row"
    by (auto simp: alpha_normalize_def alpha_total_sum_list)
  have "a \<le> sum_list row"
    using a(1) assms(1) by (intro member_le_sum_list) auto
  with a pos assms(1) show ?thesis by auto
next
  case False
  with assms(3) have "b = 1 / real (length row)" by (auto simp: alpha_normalize_def)
  with assms(2) show ?thesis by (cases row) simp_all
qed

lemma length_concat_rows:
  "(\<And>i. i < n \<Longrightarrow> length (f i) = k) \<Longrightarrow> length (concat (map f [0..<n])) = n * k"
  by (induction n) simp_all

lemma nth_concat_rows:
  assumes "\<And>i. i < n \<Longrightarrow> length (f i) = k" "i < n" "m < k"
  shows "concat (map f [0..<n]) ! (i * k + m) = f i ! m"
  using assms
proof (induction n)
  case 0
  then show ?case by simp
next
  case (Suc n)
  have len: "length (concat (map f [0..<n])) = n * k"
    by (rule length_concat_rows) (simp add: Suc.prems(1))
  show ?case
  proof (cases "i < n")
    case True
    then have "i * k + m < n * k"
      using Suc.prems(3) by (metis Suc_leI add.commute mult_Suc mult_le_mono1 nat_add_left_cancel_less order_less_le_trans)
    with True Suc show ?thesis by (simp add: nth_append len)
  next
    case False
    with Suc.prems(2) have "i = n" by simp
    then show ?thesis by (simp add: nth_append len)
  qed
qed

lemma length_alpha_row [simp]: "length (alpha_row s h mf mflux i) = numMaterials s"
  by (simp add: alpha_row_def alpha_update_def)

lemma alpha_row_props:
  assumes "0 < numMaterials s"
  shows "sum_list (alpha_row s h mf mflux i) = 1"
    and "\<forall>b \<in> set (alpha_row s h mf mflux i). 0 \<le> b \<and> b \<le> 1"
    and "alpha_total (alpha_clamp (alpha_update s h mf mflux i)) \<le> 1 / 10 ^ 10 \<Longrightarrow>
           alpha_row s h mf mflux i = replicate (numMaterials s) (1 / real (numMaterials s))"
proof -
  let ?row = "alpha_clamp (alpha_update s h mf mflux i)"
  have len: "length ?row = numMaterials s" by (simp add: alpha_update_def)
  have eq: "alpha_row s h mf mflux i = alpha_normalize (length ?row) ?row"
    by (simp only: alpha_row_def len)
  show "sum_list (alpha_row s h mf mflux i) = 1"
    unfolding eq by (rule alpha_normalize_sum) (simp only: len assms)
  have pos: "0 < length ?row" by (simp only: len assms)
  have rng: "\<forall>a \<in> set ?row. 0 \<le> a \<and> a \<le> 1"
    using alpha_clamp_range by blast
  show "\<forall>b \<in> set (alpha_row s h mf mflux i). 0 \<le> b \<and> b \<le> 1"
    unfolding eq using alpha_normalize_range [OF rng pos] by blast
  show "alpha_row s h mf mflux i = replicate (numMaterials s) (1 / real (numMaterials s))"
    if "alpha_total ?row \<le> 1 / 10 ^ 10"
    using that len
    by (simp add: alpha_row_def alpha_normalize_def map_replicate_const)
qed

text \<open>
  C5: in the mixed method, with the fraction table and the flux array allocated for
  \<open>nx\<close> cells and at least one material, \<^verbatim>\<open>advectMaterialFractions\<close> returns, and
  afterwards every entry of every cell's row lies in [0,1] and the row sums to 1; a row
  whose clamped sum is not above the threshold \<open>1e-10\<close> is the equal distribution
  \<open>1 / numMaterials\<close>. (Numbers are reals, so the sum is 1 exactly.)
\<close>

theorem advect_rows_normalized:
  assumes "interfaceMethod s = ''mixed''"
    and "materialFractions s = Some mf" and "materialFlux s = Some fl"
    and "length mf = nx s * numMaterials s" and "0 < numMaterials s"
  shows "\<exists>s' mf'. advectMaterialFractions h s = Inr s' \<and> materialFractions s' = Some mf'
           \<and> length mf' = nx s * numMaterials s
           \<and> (\<forall>i < nx s.
                 (\<forall>m < numMaterials s. 0 \<le> mf' ! (i * numMaterials s + m)
                                       \<and> mf' ! (i * numMaterials s + m) \<le> 1)
               \<and> (\<Sum>m < numMaterials s. mf' ! (i * numMaterials s + m)) = 1
               \<and> (alpha_total (alpha_clamp (alpha_update s h mf (materialFlux_loop s mf fl) i))
                     \<le> 1 / 10 ^ 10
                   \<longrightarrow> (\<forall>m < numMaterials s.
                          mf' ! (i * numMaterials s + m) = 1 / real (numMaterials s))))"
proof -
  let ?k = "numMaterials s"
  let ?fl = "materialFlux_loop s mf fl"
  let ?new = "concat (map (alpha_row s h mf ?fl) [0..<nx s])"
  have len: "length ?new = nx s * ?k"
    by (rule length_concat_rows) simp
  have res: "advectMaterialFractions h s =
               Inr (s\<lparr> materialFlux := Some ?fl, materialFractions := Some ?new \<rparr>)"
    using assms(1-4) len by (simp add: advectMaterialFractions_def Let_def)
  have nth: "?new ! (i * ?k + m) = alpha_row s h mf ?fl i ! m" if "i < nx s" "m < ?k" for i m
    by (rule nth_concat_rows) (simp_all add: that)
  note rp = alpha_row_props [OF assms(5), of h mf ?fl]
  have cell: "(\<forall>m < ?k. 0 \<le> ?new ! (i * ?k + m) \<and> ?new ! (i * ?k + m) \<le> 1)
               \<and> (\<Sum>m < ?k. ?new ! (i * ?k + m)) = 1
               \<and> (alpha_total (alpha_clamp (alpha_update s h mf ?fl i)) \<le> 1 / 10 ^ 10
                   \<longrightarrow> (\<forall>m < ?k. ?new ! (i * ?k + m) = 1 / real ?k))"
    if i: "i < nx s" for i
  proof (intro conjI allI impI)
    fix m assume m: "m < ?k"
    then have "alpha_row s h mf ?fl i ! m \<in> set (alpha_row s h mf ?fl i)" by simp
    with rp(2) [of i] show "0 \<le> ?new ! (i * ?k + m)" "?new ! (i * ?k + m) \<le> 1"
      by (simp_all add: nth [OF i m])
  next
    have "(\<Sum>m < ?k. ?new ! (i * ?k + m)) = (\<Sum>m < ?k. alpha_row s h mf ?fl i ! m)"
      by (rule sum.cong) (simp_all add: nth [OF i])
    also have "\<dots> = sum_list (alpha_row s h mf ?fl i)"
      by (simp add: sum_list_sum_nth atLeast0LessThan)
    finally show "(\<Sum>m < ?k. ?new ! (i * ?k + m)) = 1" by (simp add: rp(1))
  next
    fix m assume u: "alpha_total (alpha_clamp (alpha_update s h mf ?fl i)) \<le> 1 / 10 ^ 10" and m: "m < ?k"
    show "?new ! (i * ?k + m) = 1 / real ?k"
      by (simp add: nth [OF i m] rp(3) [OF u] m)
  qed
  show ?thesis
    unfolding res using len cell by auto
qed

lemma mixed_state_facts:
  "interfaceMethod mixed_state = ''mixed''" "materialFractions mixed_state = Some [1, 0, 0, 1]"
  "materialFlux mixed_state = Some [0, 0, 0, 0, 0, 0]" "nx mixed_state = 2"
  "numMaterials mixed_state = 2"
  by (simp_all add: mixed_state_def EulerSolver_new_def or_nat_def or_str_def)

theorem advect_rows_normalized_witness:
  "interfaceMethod mixed_state = ''mixed''
   \<and> materialFractions mixed_state = Some [1, 0, 0, 1]
   \<and> materialFlux mixed_state = Some [0, 0, 0, 0, 0, 0]
   \<and> length [1, 0, 0, 1 :: real] = nx mixed_state * numMaterials mixed_state
   \<and> 0 < numMaterials mixed_state
   \<and> (\<exists>s' mf'. advectMaterialFractions (1 / 10) mixed_state = Inr s'
          \<and> materialFractions s' = Some mf' \<and> length mf' = 4
          \<and> (\<Sum>m < 2. mf' ! (0 * 2 + m)) = 1 \<and> (\<Sum>m < 2. mf' ! (1 * 2 + m)) = 1)"
proof -
  have h: "length [1, 0, 0, 1 :: real] = nx mixed_state * numMaterials mixed_state"
      "0 < numMaterials mixed_state"
    by (simp_all add: mixed_state_facts)
  from advect_rows_normalized [OF mixed_state_facts(1,2,3) h, of "1 / 10"]
  obtain s' mf' where r: "advectMaterialFractions (1 / 10) mixed_state = Inr s'"
      "materialFractions s' = Some mf'" "length mf' = nx mixed_state * numMaterials mixed_state"
      "\<forall>i < nx mixed_state.
          (\<Sum>m < numMaterials mixed_state. mf' ! (i * numMaterials mixed_state + m)) = 1"
    by blast
  have "(0::nat) < 2" "(1::nat) < 2" by simp_all
  with r(4) have "(\<Sum>m < 2. mf' ! (0 * 2 + m)) = 1" "(\<Sum>m < 2. mf' ! (1 * 2 + m)) = 1"
    unfolding mixed_state_facts by blast+
  with r(1,2,3) h show ?thesis
    unfolding mixed_state_facts by (intro conjI exI [of _ s'] exI [of _ mf']) simp_all
qed

subsection \<open>The run loop and the wall clock\<close>

lemma run_loop_steps:
  "map_option (map_sum id fst) (run_loop fuel clock cb reads lastUpdate progress s) = run_steps fuel s"
proof (induction fuel arbitrary: reads lastUpdate progress s cb)
  case 0
  show ?case by (simp add: run_loop.simps [of 0] run_steps.simps [of 0])
next
  case (Suc fuel)
  show ?case
    by (subst run_loop.simps, subst run_steps.simps) (simp add: Suc Let_def split: sum.splits)
qed

lemma run_steps_eq:
  "map_option (map_sum id fst) (run fuel clock cb s) = run_steps fuel s"
proof -
  have "map_option (map_sum id fst) (run fuel clock cb s)
        = map_option (map_sum id fst) (run_loop fuel clock cb 1 (clock 0) [] s)"
    by (simp add: run_def Let_def split: option.splits sum.splits)
  then show ?thesis by (simp add: run_loop_steps)
qed

text \<open>
  C10: two runs from the same solver state (which the constructor and \<^verbatim>\<open>initialize\<close>
  compute from the configuration and the slabs alone) end in the same state, and so
  with the same snapshot sequence, whatever the two wall clocks read and whether or not
  a progress callback is passed; they also agree on running out of fuel and on the
  exception raised. Values are compared as the model has them (numbers as reals).
\<close>

theorem run_deterministic:
  "map_option (map_sum id fst) (run fuel clock1 cb1 s)
     = map_option (map_sum id fst) (run fuel clock2 cb2 s)
   \<and> map_option (map_sum id (\<lambda>r. xtData (fst r))) (run fuel clock1 cb1 s)
     = map_option (map_sum id (\<lambda>r. xtData (fst r))) (run fuel clock2 cb2 s)"
proof -
  have a: "map_option (map_sum id fst) (run fuel clock1 cb1 s)
     = map_option (map_sum id fst) (run fuel clock2 cb2 s)"
    by (simp only: run_steps_eq)
  have "map_option (map_sum id (\<lambda>r. xtData (fst r))) (run fuel c b s)
      = map_option (map_sum id xtData) (map_option (map_sum id fst) (run fuel c b s))" for c b
    by (simp add: option.map_comp sum.map_comp comp_def id_def)
  with a show ?thesis by simp
qed

subsection \<open>Fluxes, conservative update and the stages of the integrators\<close>

lemma array_loop_add3:
  "array_loop (3 + m) f b =
     (let b0 = array_loop m f b;
          b1 = b0[m := f m (b0 ! m)];
          b2 = b1[Suc m := f (Suc m) (b1 ! Suc m)]
      in b2[Suc (Suc m) := f (Suc (Suc m)) (b2 ! Suc (Suc m))])"
proof -
  have "3 + m = Suc (Suc (Suc m))" by simp
  then show ?thesis by (simp only: array_loop_Suc Let_def)
qed

lemma nested3_normal:
  "fold (\<lambda>i out. out[i * 3 := f (i * 3) (out ! (i * 3)),
                     Suc (i * 3) := f (Suc (i * 3)) (out ! Suc (i * 3)),
                     Suc (Suc (i * 3)) := f (Suc (Suc (i * 3))) (out ! Suc (Suc (i * 3)))])
        [0..<n] b = array_loop (n * 3) f b"
proof (induction n)
  case 0
  then show ?case by simp
next
  case (Suc n)
  show ?case
    by (simp add: Suc array_loop_add3 Let_def)
qed

lemma nested3_array_loop:
  "fold (\<lambda>i out. fold (\<lambda>k out'. out'[i * 3 + k := f (i * 3 + k) (out' ! (i * 3 + k))]) [0..<3] out)
        [0..<n] b = array_loop (n * 3) f b"
proof -
  have three: "[0..<3] = [0, Suc 0, Suc (Suc 0)]" by (simp add: upt_rec)
  show ?thesis by (simp add: three nested3_normal)
qed

lemma triple_array_loop:
  "fold (\<lambda>i fl. fl[i * 3 := g (i * 3), i * 3 + 1 := g (i * 3 + 1), i * 3 + 2 := g (i * 3 + 2)])
        [0..<n] b = array_loop (n * 3) (\<lambda>j _. g j) b"
  using nested3_normal [of "\<lambda>j _. g j" n b] by simp

lemma right_index: "(i + 1) * 3 + k = i * 3 + k + (3::nat)"
  by simp

lemma updateConservative_array_loop:
  "updateConservative s Uin Uout h =
     array_loop (nx s * 3) (\<lambda>j _. Uin ! j - h / dx s * (flux s ! (j + 3) - flux s ! j)) Uout"
  unfolding updateConservative_def right_index
  by (rule nested3_array_loop
        [where f = "\<lambda>j _. Uin ! j - h / dx s * (flux s ! (j + 3) - flux s ! j)"])

lemma updateConservative_inplace_array_loop:
  "updateConservative_inplace s Uio h =
     array_loop (nx s * 3) (\<lambda>j v. v - h / dx s * (flux s ! (j + 3) - flux s ! j)) Uio"
  unfolding updateConservative_inplace_def right_index
  by (rule nested3_array_loop
        [where f = "\<lambda>j v. v - h / dx s * (flux s ! (j + 3) - flux s ! j)"])

lemma fst_fold_computeFluxes_body:
  "fst (fold (computeFluxes_body s) js (fl, w)) =
     fold (\<lambda>i fl. fl[i * 3 := tri 0 (fst (hllcAt s i)), i * 3 + 1 := tri 1 (fst (hllcAt s i)),
                      i * 3 + 2 := tri 2 (fst (hllcAt s i))]) js fl"
  by (induction js arbitrary: fl w)
     (simp_all add: computeFluxes_body_def tri_def split: prod.splits)

lemma divmod3:
  fixes i :: nat
  shows "(i * 3) div 3 = i" "(i * 3) mod 3 = 0"
    "(i * 3 + 1) div 3 = i" "(i * 3 + 1) mod 3 = 1"
    "(i * 3 + 2) div 3 = i" "(i * 3 + 2) mod 3 = 2"
  by presburger+

lemma computeFluxes_flux:
  "fst (computeFluxes s) =
     s\<lparr> flux := array_loop ((nx s + 1) * 3)
                  (\<lambda>j _. tri (j mod 3) (fst (hllcAt s (j div 3)))) (flux s) \<rparr>"
proof -
  let ?g = "\<lambda>j. tri (j mod 3) (fst (hllcAt s (j div 3)))"
  have "fold (\<lambda>i fl. fl[i * 3 := tri 0 (fst (hllcAt s i)), i * 3 + 1 := tri 1 (fst (hllcAt s i)),
                      i * 3 + 2 := tri 2 (fst (hllcAt s i))]) [0..<n] fl
        = fold (\<lambda>i fl. fl[i * 3 := ?g (i * 3), i * 3 + 1 := ?g (i * 3 + 1),
                           i * 3 + 2 := ?g (i * 3 + 2)]) [0..<n] fl" for n fl
    by (simp only: divmod3)
  note conv = this
  have "fst (fold (computeFluxes_body s) [0..<nx s + 1] (flux s, 0))
        = fold (\<lambda>i fl. fl[i * 3 := ?g (i * 3), i * 3 + 1 := ?g (i * 3 + 1),
                           i * 3 + 2 := ?g (i * 3 + 2)]) [0..<nx s + 1] (flux s)"
    by (simp only: fst_fold_computeFluxes_body conv)
  also have "\<dots> = array_loop ((nx s + 1) * 3) (\<lambda>j _. ?g j) (flux s)"
    by (rule triple_array_loop [of ?g])
  finally have "fst (fold (computeFluxes_body s) [0..<nx s + 1] (flux s, 0))
        = array_loop ((nx s + 1) * 3) (\<lambda>j _. ?g j) (flux s)" .
  then show ?thesis
    by (simp add: computeFluxes_def split: prod.splits) (metis fst_conv)
qed

lemma flux_state_eq:
  "flux_state s =
     s\<lparr> flux := array_loop ((nx s + 1) * 3)
                  (\<lambda>j _. tri (j mod 3) (fst (hllcAt s (j div 3)))) (flux s) \<rparr>"
  by (simp only: flux_state_def computeFluxes_flux)

lemma computeFluxes_pair: "computeFluxes s = (flux_state s, snd (computeFluxes s))"
  by (simp add: flux_state_def)

lemma hllcAt_cong:
  "nx t = nx s \<Longrightarrow> gamma t = gamma s \<Longrightarrow> U t = U s \<Longrightarrow> hllcAt t = hllcAt s"
  by (simp add: hllcAt_def interfaceStates_def fun_eq_iff)

lemma cell_flux_cong:
  "nx t = nx s \<Longrightarrow> gamma t = gamma s \<Longrightarrow> cell_flux t = cell_flux s"
proof -
  assume a: "nx t = nx s" "gamma t = gamma s"
  have "hllcAt (t\<lparr> U := V \<rparr>) = hllcAt (s\<lparr> U := V \<rparr>)" for V
    by (rule hllcAt_cong) (simp_all add: a)
  then show ?thesis by (simp add: cell_flux_def fun_eq_iff)
qed

lemma L_op_cong:
  "nx t = nx s \<Longrightarrow> gamma t = gamma s \<Longrightarrow> dx t = dx s \<Longrightarrow> L_op t = L_op s"
  by (simp add: L_op_def fun_eq_iff cell_flux_cong [of t s])

lemma nth_L_op:
  "j < nx s * 3 \<Longrightarrow> L_op s V ! j = - (1 / dx s) * (cell_flux s V (j + 3) - cell_flux s V j)"
  by (simp add: L_op_def)

lemma length_L_op [simp]: "length (L_op s V) = nx s * 3"
  by (simp add: L_op_def)

lemma flux_state_nth:
  assumes "length (flux t) = (nx t + 1) * 3" "j < (nx t + 1) * 3"
  shows "flux (flux_state t) ! j = cell_flux t (U t) j"
  using assms by (simp add: flux_state_eq nth_array_loop cell_flux_def)

lemma flux_state_fields [simp]:
  "nx (flux_state t) = nx t" "dx (flux_state t) = dx t" "gamma (flux_state t) = gamma t"
  "U (flux_state t) = U t" "Uk (flux_state t) = Uk t" "Un_f (flux_state t) = Un_f t"
  "dt (flux_state t) = dt t" "length (flux (flux_state t)) = length (flux t)"
  by (simp_all add: flux_state_eq)

lemma stage_Uk_fields [simp]:
  "nx (stage_Uk t) = nx t" "dx (stage_Uk t) = dx t" "gamma (stage_Uk t) = gamma t"
  "U (stage_Uk t) = U t" "Un_f (stage_Uk t) = Un_f t" "flux (stage_Uk t) = flux t"
  "dt (stage_Uk t) = dt t" "length (Uk (stage_Uk t)) = length (Uk t)"
  by (simp_all add: stage_Uk_def updateConservative_array_loop)

lemma stage_Uk_nth:
  assumes "length (Uk t) = nx t * 3" "length (flux t) = (nx t + 1) * 3" "j < nx t * 3"
  shows "Uk (stage_Uk (flux_state t)) ! j = U t ! j + dt t * (L_op t (U t) ! j)"
proof -
  have "Uk (stage_Uk (flux_state t)) ! j =
          U t ! j - dt t / dx t * (flux (flux_state t) ! (j + 3) - flux (flux_state t) ! j)"
    using assms by (simp add: stage_Uk_def updateConservative_array_loop nth_array_loop)
  also have "\<dots> = U t ! j - dt t / dx t * (cell_flux t (U t) (j + 3) - cell_flux t (U t) j)"
    using assms by (simp add: flux_state_nth)
  also have "\<dots> = U t ! j + dt t * (L_op t (U t) ! j)"
    using assms by (simp add: nth_L_op)
  finally show ?thesis .
qed

lemma wf_buffers_flux_state [simp]: "wf_buffers (flux_state t) = wf_buffers t"
  by (simp add: wf_buffers_def)

lemma SSP_half_props:
  assumes "wf_buffers t"
  shows "U (SSP_half (flux_state t)) = map (\<lambda>j. U t ! j + (dt t / 2) * (L_op t (U t) ! j)) [0..<nx t * 3]"
    and "wf_buffers (SSP_half (flux_state t))"
    and "nx (SSP_half (flux_state t)) = nx t" "dx (SSP_half (flux_state t)) = dx t"
    and "gamma (SSP_half (flux_state t)) = gamma t" "dt (SSP_half (flux_state t)) = dt t"
    and "Un_f (SSP_half (flux_state t)) = Un_f t"
proof -
  from assms have len: "length (U t) = nx t * 3" "length (Uk t) = nx t * 3"
      "length (flux t) = (nx t + 1) * 3" "length (Un_f t) = nx t * 3"
    by (simp_all add: wf_buffers_def)
  show "U (SSP_half (flux_state t)) = map (\<lambda>j. U t ! j + (dt t / 2) * (L_op t (U t) ! j)) [0..<nx t * 3]"
  proof (rule nth_equalityI)
    show "length (U (SSP_half (flux_state t))) = length (map (\<lambda>j. U t ! j + (dt t / 2) * (L_op t (U t) ! j)) [0..<nx t * 3])"
      by (simp add: SSP_half_def Let_def len)
  next
    fix j assume "j < length (U (SSP_half (flux_state t)))"
    then have j: "j < nx t * 3" by (simp add: SSP_half_def Let_def len)
    have "U (SSP_half (flux_state t)) ! j = U t ! j + 0.5 * (Uk (stage_Uk (flux_state t)) ! j - U t ! j)"
      using j by (simp add: SSP_half_def Let_def nth_array_loop len)
    also have "\<dots> = U t ! j + (dt t / 2) * (L_op t (U t) ! j)"
      by (simp add: stage_Uk_nth [OF len(2,3) j])
    finally show "U (SSP_half (flux_state t)) ! j = map (\<lambda>j. U t ! j + (dt t / 2) * (L_op t (U t) ! j)) [0..<nx t * 3] ! j"
      using j by simp
  qed
  show "wf_buffers (SSP_half (flux_state t))"
    by (simp add: wf_buffers_def SSP_half_def Let_def len)
  show "nx (SSP_half (flux_state t)) = nx t" "dx (SSP_half (flux_state t)) = dx t"
    "gamma (SSP_half (flux_state t)) = gamma t" "dt (SSP_half (flux_state t)) = dt t"
    "Un_f (SSP_half (flux_state t)) = Un_f t"
    by (simp_all add: SSP_half_def Let_def)
qed

lemma SSP_stage3_props:
  assumes "wf_buffers t"
  shows "U (SSP_stage3 t) = map (\<lambda>j. (2 / 3) * (Un_f t ! j) + (1 / 3) * (U t ! j)
                                   + (dt t / 6) * (L_op t (U t) ! j)) [0..<nx t * 3]"
    and "wf_buffers (SSP_stage3 t)"
    and "nx (SSP_stage3 t) = nx t" "dx (SSP_stage3 t) = dx t"
    and "gamma (SSP_stage3 t) = gamma t" "dt (SSP_stage3 t) = dt t"
    and "Un_f (SSP_stage3 t) = Un_f t"
proof -
  from assms have len: "length (U t) = nx t * 3" "length (Uk t) = nx t * 3"
      "length (flux t) = (nx t + 1) * 3" "length (Un_f t) = nx t * 3"
    by (simp_all add: wf_buffers_def)
  show "U (SSP_stage3 t) = map (\<lambda>j. (2 / 3) * (Un_f t ! j) + (1 / 3) * (U t ! j)
                                   + (dt t / 6) * (L_op t (U t) ! j)) [0..<nx t * 3]"
  proof (rule nth_equalityI)
    show "length (U (SSP_stage3 t)) = length (map (\<lambda>j. (2 / 3) * (Un_f t ! j) + (1 / 3) * (U t ! j)
                                   + (dt t / 6) * (L_op t (U t) ! j)) [0..<nx t * 3])"
      by (simp add: SSP_stage3_def Let_def len)
  next
    fix j assume "j < length (U (SSP_stage3 t))"
    then have j: "j < nx t * 3" by (simp add: SSP_stage3_def Let_def len)
    have "U (SSP_stage3 t) ! j = (2.0 / 3.0) * (Un_f t ! j) + (1.0 / 6.0) * (U t ! j)
            + (1.0 / 6.0) * (Uk (stage_Uk (flux_state t)) ! j)"
      using j by (simp add: SSP_stage3_def Let_def nth_array_loop len)
    also have "\<dots> = (2 / 3) * (Un_f t ! j) + (1 / 3) * (U t ! j) + (dt t / 6) * (L_op t (U t) ! j)"
      by (simp add: stage_Uk_nth [OF len(2,3) j] algebra_simps)
    finally show "U (SSP_stage3 t) ! j = map (\<lambda>j. (2 / 3) * (Un_f t ! j) + (1 / 3) * (U t ! j)
                                   + (dt t / 6) * (L_op t (U t) ! j)) [0..<nx t * 3] ! j"
      using j by simp
  qed
  show "wf_buffers (SSP_stage3 t)"
    by (simp add: wf_buffers_def SSP_stage3_def Let_def len)
  show "nx (SSP_stage3 t) = nx t" "dx (SSP_stage3 t) = dx t"
    "gamma (SSP_stage3 t) = gamma t" "dt (SSP_stage3 t) = dt t"
    "Un_f (SSP_stage3 t) = Un_f t"
    by (simp_all add: SSP_stage3_def Let_def)
qed

lemma SSP_stage4_props:
  assumes "wf_buffers t"
  shows "U (SSP_stage4 t) = map (\<lambda>j. U t ! j + (dt t / 2) * (L_op t (U t) ! j)) [0..<nx t * 3]"
    and "wf_buffers (SSP_stage4 t)"
    and "nx (SSP_stage4 t) = nx t" "dx (SSP_stage4 t) = dx t"
    and "gamma (SSP_stage4 t) = gamma t" "dt (SSP_stage4 t) = dt t"
    and "Un_f (SSP_stage4 t) = Un_f t"
proof -
  from assms have len: "length (U t) = nx t * 3" "length (Uk t) = nx t * 3"
      "length (flux t) = (nx t + 1) * 3" "length (Un_f t) = nx t * 3"
    by (simp_all add: wf_buffers_def)
  show "U (SSP_stage4 t) = map (\<lambda>j. U t ! j + (dt t / 2) * (L_op t (U t) ! j)) [0..<nx t * 3]"
  proof (rule nth_equalityI)
    show "length (U (SSP_stage4 t)) = length (map (\<lambda>j. U t ! j + (dt t / 2) * (L_op t (U t) ! j)) [0..<nx t * 3])"
      by (simp add: SSP_stage4_def Let_def len)
  next
    fix j assume "j < length (U (SSP_stage4 t))"
    then have j: "j < nx t * 3" by (simp add: SSP_stage4_def Let_def len)
    have "U (SSP_stage4 t) ! j = 0.5 * (U t ! j) + 0.5 * (Uk (stage_Uk (flux_state t)) ! j)"
      using j by (simp add: SSP_stage4_def Let_def nth_array_loop len)
    also have "\<dots> = U t ! j + (dt t / 2) * (L_op t (U t) ! j)"
      by (simp add: stage_Uk_nth [OF len(2,3) j] algebra_simps)
    finally show "U (SSP_stage4 t) ! j = map (\<lambda>j. U t ! j + (dt t / 2) * (L_op t (U t) ! j)) [0..<nx t * 3] ! j"
      using j by simp
  qed
  show "wf_buffers (SSP_stage4 t)"
    by (simp add: wf_buffers_def SSP_stage4_def Let_def len)
  show "nx (SSP_stage4 t) = nx t" "dx (SSP_stage4 t) = dx t"
    "gamma (SSP_stage4 t) = gamma t" "dt (SSP_stage4 t) = dt t"
    "Un_f (SSP_stage4 t) = Un_f t"
    by (simp_all add: SSP_stage4_def Let_def)
qed

lemma calculateTimeStep_cong:
  assumes "cfl t = cfl s" "dx t = dx s" "t_f t = t_f s" "finalTime t = finalTime s"
    "nextXTStore t = nextXTStore s"
  shows "calculateTimeStep t w = calculateTimeStep s w"
  unfolding calculateTimeStep_def by (simp only: assms)

lemma calculateTimeStep_flux_state [simp]:
  "calculateTimeStep (flux_state s) w = calculateTimeStep s w"
  by (rule calculateTimeStep_cong) (simp_all add: flux_state_eq)

lemma flux_state_commute:
  "flux_state (s\<lparr> dt := a, Un_f := b \<rparr>) = (flux_state s)\<lparr> dt := a, Un_f := b \<rparr>"
proof -
  have "hllcAt (s\<lparr> dt := a, Un_f := b \<rparr>) = hllcAt s"
    by (rule hllcAt_cong) simp_all
  then show ?thesis by (simp add: flux_state_eq)
qed

lemma SSP_begin_eq:
  "SSP_begin s = flux_state (s\<lparr> dt := step_dt s,
                                 Un_f := array_loop (nx s * 3) (\<lambda>i _. U s ! i) (Un_f s) \<rparr>)"
proof (cases "computeFluxes s")
  case (Pair s1 w)
  then have e: "s1 = flux_state s" by (simp add: flux_state_def)
  show ?thesis
    unfolding SSP_begin_def step_dt_def Pair
    by (simp add: e flux_state_commute Let_def)
qed

lemma copy_loop: "length a = n \<Longrightarrow> length b = n \<Longrightarrow> array_loop n (\<lambda>i _. a ! i) b = a"
  by (rule nth_equalityI) (simp_all add: nth_array_loop)

lemma SSP_stages_ssprk43:
  assumes "wf_buffers s"
  shows "U (SSP_stage4 (SSP_stage3 (SSP_stage2 (SSP_stage1 s)))) = ssprk43 s (step_dt s) (U s)"
proof -
  from assms have len: "length (U s) = nx s * 3" "length (Un_f s) = nx s * 3"
    by (simp_all add: wf_buffers_def)
  define s0 where "s0 = s\<lparr> dt := step_dt s, Un_f := array_loop (nx s * 3) (\<lambda>i _. U s ! i) (Un_f s) \<rparr>"
  have s0: "wf_buffers s0" "nx s0 = nx s" "dx s0 = dx s" "gamma s0 = gamma s" "dt s0 = step_dt s"
      "Un_f s0 = U s" "U s0 = U s"
    using assms by (simp_all add: s0_def wf_buffers_def copy_loop)
  define s1 where "s1 = SSP_stage1 s"
  have s1_eq: "s1 = SSP_half (flux_state s0)"
    by (simp add: s1_def SSP_stage1_def SSP_begin_eq s0_def)
  note p1 = SSP_half_props [OF s0(1), folded s1_eq]
  define s2 where "s2 = SSP_stage2 s1"
  have s2_eq: "s2 = SSP_half (flux_state s1)" by (simp add: s2_def SSP_stage2_def)
  note p2 = SSP_half_props [OF p1(2), folded s2_eq]
  define s3 where "s3 = SSP_stage3 s2"
  note p3 = SSP_stage3_props [OF p2(2), folded s3_def]
  note p4 = SSP_stage4_props [OF p3(2)]
  have L1: "L_op s0 = L_op s" by (rule L_op_cong) (simp_all add: s0)
  have L2: "L_op s1 = L_op s" by (rule L_op_cong) (simp_all add: p1 s0)
  have L3: "L_op s2 = L_op s" by (rule L_op_cong) (simp_all add: p2 p1 s0)
  have L4: "L_op s3 = L_op s" by (rule L_op_cong) (simp_all add: p3 p2 p1 s0)
  have "U (SSP_stage4 s3) = ssprk43 s (step_dt s) (U s)"
    unfolding p4(1) p3 p2 p1 L1 L2 L3 L4 s0 ssprk43_def Let_def ..
  then show ?thesis by (simp only: s3_def s2_def s1_def)
qed

subsection \<open>The HLLC flux at rest and at the walls\<close>

lemma hllcFlux_rest:
  assumes "0 < gam * ((gam - 1) * E) / r"
  shows "fst (hllcFlux (r, 0, E) (r, 0, E) gam gam) = (0, (gam - 1) * E, 0)"
proof -
  define a where "a = sqrt (gam * ((gam - 1) * E) / r)"
  have a: "0 < a" using assms by (simp add: a_def)
  have "\<not> 0 \<le> - a" using a by simp
  then show ?thesis
    unfolding hllcFlux_def Let_def
    by (simp add: a_def [symmetric])
qed

lemma hllcFlux_wall_left:
  assumes "0 < r" "0 < (gam - 1) * (E - 0.5 * r * (m / r) * (m / r))" "0 < gam"
  shows "fst (fst (hllcFlux (r, - m, E) (r, m, E) gam gam)) = 0"
    and "snd (snd (fst (hllcFlux (r, - m, E) (r, m, E) gam gam))) = 0"
proof -
  define u where "u = m / r"
  define p where "p = (gam - 1) * (E - 0.5 * r * u * u)"
  define a where "a = sqrt (gam * p / r)"
  have p: "0 < p" using assms(2) by (simp add: p_def u_def)
  have a: "0 < a" using assms(1,3) p by (simp add: a_def)
  have um: "- m / r = - u" by (simp add: u_def)
  have pl: "(gam - 1) * (E - 0.5 * r * (- u) * (- u)) = p" by (simp add: p_def)
  have SL: "min (- u - a) (u - a) = - \<bar>u\<bar> - a" by (simp add: min_def abs_if)
  have SR: "max (- u + a) (u + a) = \<bar>u\<bar> + a" by (simp add: max_def abs_if)
  have neg: "\<not> 0 \<le> - \<bar>u\<bar> - a" using a by simp
  have num: "p - p + r * (- u) * (- \<bar>u\<bar> - a - (- u)) - r * u * (\<bar>u\<bar> + a - u) = 0"
    by (simp add: algebra_simps)
  show "fst (fst (hllcFlux (r, - m, E) (r, m, E) gam gam)) = 0"
    and "snd (snd (fst (hllcFlux (r, - m, E) (r, m, E) gam gam))) = 0"
    unfolding hllcFlux_def Let_def fst_conv snd_conv um u_def [symmetric] pl p_def [symmetric]
      a_def [symmetric] SL SR num
    using neg by simp_all
qed

lemma hllcFlux_wall_right:
  assumes "0 < r" "0 < (gam - 1) * (E - 0.5 * r * (m / r) * (m / r))" "0 < gam"
  shows "fst (fst (hllcFlux (r, m, E) (r, - m, E) gam gam)) = 0"
    and "snd (snd (fst (hllcFlux (r, m, E) (r, - m, E) gam gam))) = 0"
proof -
  define u where "u = m / r"
  define p where "p = (gam - 1) * (E - 0.5 * r * u * u)"
  define a where "a = sqrt (gam * p / r)"
  have p: "0 < p" using assms(2) by (simp add: p_def u_def)
  have a: "0 < a" using assms(1,3) p by (simp add: a_def)
  have um: "- m / r = - u" by (simp add: u_def)
  have pl: "(gam - 1) * (E - 0.5 * r * (- u) * (- u)) = p" by (simp add: p_def)
  have SL: "min (u - a) (- u - a) = - \<bar>u\<bar> - a" by (simp add: min_def abs_if)
  have SR: "max (u + a) (- u + a) = \<bar>u\<bar> + a" by (simp add: max_def abs_if)
  have neg: "\<not> 0 \<le> - \<bar>u\<bar> - a" using a by simp
  have num: "p - p + r * u * (- \<bar>u\<bar> - a - u) - r * (- u) * (\<bar>u\<bar> + a - (- u)) = 0"
    by (simp add: algebra_simps)
  show "fst (fst (hllcFlux (r, m, E) (r, - m, E) gam gam)) = 0"
    and "snd (snd (fst (hllcFlux (r, m, E) (r, - m, E) gam gam))) = 0"
    unfolding hllcFlux_def Let_def fst_conv snd_conv um u_def [symmetric] pl p_def [symmetric]
      a_def [symmetric] SL SR num
    using neg by simp_all
qed

subsection \<open>A single slab: the state at rest is a fixed point\<close>

lemma find_slab_single: "find_slab [sl] c pos 0 = (pos, 0)"
  by (subst find_slab.simps) simp

lemma init_cells_single: "init_cells [sl] cs pos 0 = Inr (replicate (length cs) sl)"
  by (induction cs arbitrary: pos) (simp_all add: find_slab_single lookup_def)

lemma init_U_array_loop:
  "init_U n Ru_c cs Ubuf =
     array_loop (n * 3) (\<lambda>j _. tri (j mod 3) (slab_state Ru_c (cs ! (j div 3)))) Ubuf"
proof -
  let ?g = "\<lambda>j. tri (j mod 3) (slab_state Ru_c (cs ! (j div 3)))"
  have "(\<lambda>i b. case slab_state Ru_c (cs ! i) of
                    (rho_c, rhou, E) \<Rightarrow> b[i * 3 := rho_c, i * 3 + 1 := rhou, i * 3 + 2 := E])
        = (\<lambda>i b. b[i * 3 := ?g (i * 3), i * 3 + 1 := ?g (i * 3 + 1), i * 3 + 2 := ?g (i * 3 + 2)])"
    unfolding divmod3 by (simp add: fun_eq_iff tri_def split: prod.splits)
  then have "init_U n Ru_c cs Ubuf =
      fold (\<lambda>i b. b[i * 3 := ?g (i * 3), i * 3 + 1 := ?g (i * 3 + 1), i * 3 + 2 := ?g (i * 3 + 2)])
           [0..<n] Ubuf"
    by (simp only: init_U_def)
  also have "\<dots> = array_loop (n * 3) (\<lambda>j _. ?g j) Ubuf"
    by (rule triple_array_loop [of ?g])
  finally show ?thesis .
qed

lemma array_loop_cong:
  "(\<And>i v. i < n \<Longrightarrow> f i v = g i v) \<Longrightarrow> array_loop n f a = array_loop n g a"
proof (induction n)
  case 0
  then show ?case by simp
next
  case (Suc n)
  then show ?case by (simp add: array_loop_Suc)
qed

lemma array_loop_const:
  "length a = n \<Longrightarrow> array_loop n (\<lambda>i _. c) a = replicate n c"
  by (rule nth_equalityI) (simp_all add: nth_array_loop)

lemma nx_init_grid [simp]: "nx (init_grid s slabs) = nx s"
  by (simp add: init_grid_def Let_def)

lemma initialize_single:
  "initialize s [sl] =
     Inr (storeXTData (updatePrimitives (init_mixed [sl]
            (init_fields (init_grid s [sl]) [sl] (replicate (nx s) sl)))))"
  by (simp add: initialize_def Let_def init_cells_single)

lemma interfaceStates_at_rest:
  assumes "at_rest s r E g" "0 < nx s" "i \<le> nx s"
  shows "interfaceStates s i = ((r, 0, E), (r, 0, E), g, g)"
proof -
  have c: "U s ! (k * 3) = r" "U s ! (k * 3 + 1) = 0" "U s ! (k * 3 + 2) = E" "gamma s ! k = g"
    if "k < nx s" for k
    using assms(1) that by (simp_all add: at_rest_def)
  show ?thesis
  proof (cases "i = 0")
    case True
    with c [of 0] assms(2) show ?thesis by (simp add: interfaceStates_def numeral_2_eq_2)
  next
    case False
    show ?thesis
    proof (cases "i = nx s")
      case True
      with c [of "nx s - 1"] assms(2) False show ?thesis by (simp add: interfaceStates_def Let_def)
    next
      case neq: False
      with assms(3) have "i < nx s" "i - 1 < nx s" by simp_all
      with c [of i] c [of "i - 1"] False neq show ?thesis
        by (simp add: interfaceStates_def Let_def)
    qed
  qed
qed

lemma cell_flux_at_rest:
  assumes "at_rest s r E g" "0 < nx s" "0 < g * ((g - 1) * E) / r" "j < (nx s + 1) * 3"
  shows "cell_flux s (U s) j = tri (j mod 3) (0, (g - 1) * E, 0)"
proof -
  from assms(4) have "j div 3 \<le> nx s" by (simp add: less_mult_imp_div_less)
  from interfaceStates_at_rest [OF assms(1,2) this]
  have "hllcAt s (j div 3) = hllcFlux (r, 0, E) (r, 0, E) g g" by (simp add: hllcAt_def)
  then show ?thesis by (simp add: cell_flux_def hllcFlux_rest [OF assms(3)])
qed

lemma L_op_at_rest:
  assumes "at_rest s r E g" "0 < nx s" "0 < g * ((g - 1) * E) / r" "j < nx s * 3"
  shows "L_op s (U s) ! j = 0"
proof -
  have "j < (nx s + 1) * 3" "j + 3 < (nx s + 1) * 3" using assms(4) by simp_all
  then show ?thesis
    using assms(4) by (simp add: nth_L_op cell_flux_at_rest [OF assms(1,2,3)])
qed

lemma same_physics_refl [simp]: "same_physics s s"
  by (simp add: same_physics_def rebook_def)

lemma same_physics_buffers:
  assumes "same_physics t s"
  shows "same_physics (t\<lparr> flux := a, Uk := b, Un_f := c, dt := d \<rparr>) s"
proof -
  from assms have e: "rebook t s = t" by (simp add: same_physics_def)
  have "t\<lparr> flux := a, Uk := b, Un_f := c, dt := d \<rparr> = (rebook t s)\<lparr> flux := a, Uk := b, Un_f := c, dt := d \<rparr>"
    by (simp only: e)
  also have "\<dots> = rebook (t\<lparr> flux := a, Uk := b, Un_f := c, dt := d \<rparr>) s"
    by (simp add: rebook_def)
  finally show ?thesis by (simp add: same_physics_def)
qed

lemma same_physics_time:
  assumes "same_physics t s"
  shows "same_physics (t\<lparr> t_f := a, timeSteps := b \<rparr>) s"
    and "same_physics (t\<lparr> xtData := c, nextXTStore := d \<rparr>) s"
proof -
  from assms have e: "rebook t s = t" by (simp add: same_physics_def)
  have "t\<lparr> t_f := a, timeSteps := b \<rparr> = (rebook t s)\<lparr> t_f := a, timeSteps := b \<rparr>"
    by (simp only: e)
  also have "\<dots> = rebook (t\<lparr> t_f := a, timeSteps := b \<rparr>) s"
    by (simp add: rebook_def)
  finally show "same_physics (t\<lparr> t_f := a, timeSteps := b \<rparr>) s" by (simp add: same_physics_def)
  have "t\<lparr> xtData := c, nextXTStore := d \<rparr> = (rebook t s)\<lparr> xtData := c, nextXTStore := d \<rparr>"
    by (simp only: e)
  also have "\<dots> = rebook (t\<lparr> xtData := c, nextXTStore := d \<rparr>) s"
    by (simp add: rebook_def)
  finally show "same_physics (t\<lparr> xtData := c, nextXTStore := d \<rparr>) s" by (simp add: same_physics_def)
qed

lemma same_physics_fields:
  assumes "same_physics t s"
  shows "nx t = nx s" "cfl t = cfl s" "finalTime t = finalTime s"
    "interfaceMethod t = interfaceMethod s" "integrator t = integrator s" "x_f t = x_f s"
    "dx t = dx s" "U t = U s" "rho t = rho s" "u_f t = u_f s" "p_f t = p_f s" "T_f t = T_f s"
    "gamma t = gamma s" "mw t = mw s" "gasId t = gasId s" "xtInterval t = xtInterval s"
    "tracers t = tracers s" "regions t = regions s" "numMaterials t = numMaterials s"
    "materialFractions t = materialFractions s" "materialProperties t = materialProperties s"
    "materialFlux t = materialFlux s" "interfaceCells t = interfaceCells s" "Ru t = Ru s"
proof -
  from assms have e: "t = rebook t s" by (simp add: same_physics_def)
  show "nx t = nx s" "cfl t = cfl s" "finalTime t = finalTime s"
    "interfaceMethod t = interfaceMethod s" "integrator t = integrator s" "x_f t = x_f s"
    "dx t = dx s" "U t = U s" "rho t = rho s" "u_f t = u_f s" "p_f t = p_f s" "T_f t = T_f s"
    "gamma t = gamma s" "mw t = mw s" "gasId t = gasId s" "xtInterval t = xtInterval s"
    "tracers t = tracers s" "regions t = regions s" "numMaterials t = numMaterials s"
    "materialFractions t = materialFractions s" "materialProperties t = materialProperties s"
    "materialFlux t = materialFlux s" "interfaceCells t = interfaceCells s" "Ru t = Ru s"
    by (subst e, simp add: rebook_def)+
qed

lemma SSP_half_frame:
  "SSP_half (flux_state t) =
     t\<lparr> flux := flux (flux_state t), Uk := Uk (stage_Uk (flux_state t)), Un_f := Un_f t, dt := dt t,
        U := U (SSP_half (flux_state t)) \<rparr>"
  by (simp add: SSP_half_def Let_def stage_Uk_def flux_state_eq)

lemma SSP_stage3_frame:
  "SSP_stage3 t =
     t\<lparr> flux := flux (flux_state t), Uk := Uk (stage_Uk (flux_state t)), Un_f := Un_f t, dt := dt t,
        U := U (SSP_stage3 t) \<rparr>"
  by (simp add: SSP_stage3_def Let_def stage_Uk_def flux_state_eq)

lemma SSP_stage4_frame:
  "SSP_stage4 t =
     t\<lparr> flux := flux (flux_state t), Uk := Uk (stage_Uk (flux_state t)), Un_f := Un_f t, dt := dt t,
        U := U (SSP_stage4 t) \<rparr>"
  by (simp add: SSP_stage4_def Let_def stage_Uk_def flux_state_eq)

lemma flux_state_dt: "flux_state (s\<lparr> dt := a \<rparr>) = (flux_state s)\<lparr> dt := a \<rparr>"
proof -
  have "hllcAt (s\<lparr> dt := a \<rparr>) = hllcAt s"
    by (rule hllcAt_cong) simp_all
  then show ?thesis by (simp add: flux_state_eq)
qed

lemma RK2_stage1_eq:
  "RK2_stage1 s =
     (stage_Uk (flux_state (s\<lparr> dt := step_dt s \<rparr>)))
       \<lparr> Un_f := array_loop (nx s * 3) (\<lambda>i _. U s ! i) (Un_f s),
         U := array_loop (nx s * 3)
                (\<lambda>i _. Uk (stage_Uk (flux_state (s\<lparr> dt := step_dt s \<rparr>))) ! i) (U s) \<rparr>"
proof (cases "computeFluxes s")
  case (Pair s1 w)
  then have e: "s1 = flux_state s" by (simp add: flux_state_def)
  show ?thesis
    unfolding RK2_stage1_def step_dt_def Pair
    by (simp add: e flux_state_dt Let_def)
qed

lemma RK2_stage1_props:
  assumes "wf_buffers s"
  shows "U (RK2_stage1 s) = map (\<lambda>j. U s ! j + step_dt s * (L_op s (U s) ! j)) [0..<nx s * 3]"
    and "Uk (RK2_stage1 s) = U (RK2_stage1 s)"
    and "Un_f (RK2_stage1 s) = U s"
    and "wf_buffers (RK2_stage1 s)"
    and "nx (RK2_stage1 s) = nx s" "dx (RK2_stage1 s) = dx s"
    and "gamma (RK2_stage1 s) = gamma s" "dt (RK2_stage1 s) = step_dt s"
proof -
  from assms have len: "length (U s) = nx s * 3" "length (Uk s) = nx s * 3"
      "length (flux s) = (nx s + 1) * 3" "length (Un_f s) = nx s * 3"
    by (simp_all add: wf_buffers_def)
  let ?t = "s\<lparr> dt := step_dt s \<rparr>"
  have lt: "length (Uk ?t) = nx ?t * 3" "length (flux ?t) = (nx ?t + 1) * 3"
    using len by simp_all
  have L: "L_op ?t = L_op s" by (rule L_op_cong) simp_all
  have uk: "Uk (stage_Uk (flux_state ?t)) ! j = U s ! j + step_dt s * (L_op s (U s) ! j)"
    if "j < nx s * 3" for j
    using stage_Uk_nth [OF lt, of j] that by (simp add: L)
  have lk: "length (Uk (stage_Uk (flux_state ?t))) = nx s * 3" using len by simp
  have U1: "U (RK2_stage1 s) = Uk (stage_Uk (flux_state ?t))"
    unfolding RK2_stage1_eq using len lk by (simp add: copy_loop)
  show "U (RK2_stage1 s) = map (\<lambda>j. U s ! j + step_dt s * (L_op s (U s) ! j)) [0..<nx s * 3]"
    unfolding U1 by (rule nth_equalityI) (simp_all add: len uk)
  show "Uk (RK2_stage1 s) = U (RK2_stage1 s)"
    unfolding U1 by (simp add: RK2_stage1_eq)
  show "Un_f (RK2_stage1 s) = U s"
    using len by (simp add: RK2_stage1_eq copy_loop)
  show "wf_buffers (RK2_stage1 s)"
    using len by (simp add: RK2_stage1_eq wf_buffers_def)
  show "nx (RK2_stage1 s) = nx s" "dx (RK2_stage1 s) = dx s"
    "gamma (RK2_stage1 s) = gamma s" "dt (RK2_stage1 s) = step_dt s"
    by (simp_all add: RK2_stage1_eq)
qed

lemma RK2_stage2_props:
  assumes "wf_buffers t"
  shows "U (RK2_stage2 t) =
           map (\<lambda>j. 0.5 * (Un_f t ! j) + 0.5 * (Uk t ! j + dt t * (L_op t (U t) ! j))) [0..<nx t * 3]"
    and "wf_buffers (RK2_stage2 t)"
    and "nx (RK2_stage2 t) = nx t" "dx (RK2_stage2 t) = dx t"
    and "gamma (RK2_stage2 t) = gamma t" "dt (RK2_stage2 t) = dt t"
    and "Un_f (RK2_stage2 t) = Un_f t"
proof -
  from assms have len: "length (U t) = nx t * 3" "length (Uk t) = nx t * 3"
      "length (flux t) = (nx t + 1) * 3" "length (Un_f t) = nx t * 3"
    by (simp_all add: wf_buffers_def)
  have uk: "updateConservative_inplace (flux_state t) (Uk t) (dt t) ! j
              = Uk t ! j + dt t * (L_op t (U t) ! j)" if j: "j < nx t * 3" for j
  proof -
    have "updateConservative_inplace (flux_state t) (Uk t) (dt t) ! j
            = Uk t ! j - dt t / dx t * (flux (flux_state t) ! (j + 3) - flux (flux_state t) ! j)"
      using j len by (simp add: updateConservative_inplace_array_loop nth_array_loop)
    also have "\<dots> = Uk t ! j - dt t / dx t * (cell_flux t (U t) (j + 3) - cell_flux t (U t) j)"
      using j len by (simp add: flux_state_nth)
    also have "\<dots> = Uk t ! j + dt t * (L_op t (U t) ! j)"
      using j by (simp add: nth_L_op)
    finally show ?thesis .
  qed
  show "U (RK2_stage2 t) =
           map (\<lambda>j. 0.5 * (Un_f t ! j) + 0.5 * (Uk t ! j + dt t * (L_op t (U t) ! j))) [0..<nx t * 3]"
  proof (rule nth_equalityI)
    show "length (U (RK2_stage2 t)) = length (map (\<lambda>j. 0.5 * (Un_f t ! j) + 0.5 * (Uk t ! j + dt t * (L_op t (U t) ! j))) [0..<nx t * 3])"
      by (simp add: RK2_stage2_def Let_def len)
  next
    fix j assume "j < length (U (RK2_stage2 t))"
    then have j: "j < nx t * 3" by (simp add: RK2_stage2_def Let_def len)
    have "U (RK2_stage2 t) ! j = 0.5 * (Un_f t ! j)
            + 0.5 * (updateConservative_inplace (flux_state t) (Uk t) (dt t) ! j)"
      using j by (simp add: RK2_stage2_def Let_def nth_array_loop len)
    then show "U (RK2_stage2 t) ! j = map (\<lambda>j. 0.5 * (Un_f t ! j) + 0.5 * (Uk t ! j + dt t * (L_op t (U t) ! j))) [0..<nx t * 3] ! j"
      using j by (simp add: uk)
  qed
  show "wf_buffers (RK2_stage2 t)"
    by (simp add: wf_buffers_def RK2_stage2_def Let_def len updateConservative_inplace_array_loop)
  show "nx (RK2_stage2 t) = nx t" "dx (RK2_stage2 t) = dx t"
    "gamma (RK2_stage2 t) = gamma t" "dt (RK2_stage2 t) = dt t"
    "Un_f (RK2_stage2 t) = Un_f t"
    by (simp_all add: RK2_stage2_def Let_def)
qed

lemma RK2_stage1_frame:
  "RK2_stage1 s =
     s\<lparr> flux := flux (RK2_stage1 s), Uk := Uk (RK2_stage1 s), Un_f := Un_f (RK2_stage1 s),
        dt := dt (RK2_stage1 s), U := U (RK2_stage1 s) \<rparr>"
  by (simp add: RK2_stage1_eq stage_Uk_def flux_state_eq)

lemma RK2_stage2_frame:
  "RK2_stage2 t =
     t\<lparr> flux := flux (RK2_stage2 t), Uk := Uk (RK2_stage2 t), Un_f := Un_f t, dt := dt t,
        U := U (RK2_stage2 t) \<rparr>"
  by (simp add: RK2_stage2_def Let_def flux_state_eq)

lemma at_rest_same_physics:
  "same_physics t s \<Longrightarrow> rest0 s r E g \<Longrightarrow> rest0 t r E g"
  by (simp add: rest0_def at_rest_def same_physics_fields)

lemma map_nth_upt: "length xs = n \<Longrightarrow> map (\<lambda>j. xs ! j) [0..<n] = xs"
  by (rule nth_equalityI) simp_all

lemma L_zero_map:
  assumes "rest0 t r E g" "length (U t) = nx t * 3"
  shows "map (\<lambda>j. a j * (U t ! j) + c * (L_op t (U t) ! j)) [0..<nx t * 3]
         = map (\<lambda>j. a j * (U t ! j)) [0..<nx t * 3]"
proof (rule map_cong [OF refl])
  fix j assume "j \<in> set [0..<nx t * 3]"
  then have "j < nx t * 3" by simp
  from L_op_at_rest [OF _ _ _ this, of r E g] assms(1)
  have "L_op t (U t) ! j = 0" by (simp add: rest0_def)
  then show "a j * (U t ! j) + c * (L_op t (U t) ! j) = a j * (U t ! j)" by simp
qed

lemma quiet_SSP_half:
  assumes "rest0 s r E g" "same_physics t s" "wf_buffers t"
  shows "same_physics (SSP_half (flux_state t)) s" "wf_buffers (SSP_half (flux_state t))"
    "Un_f (SSP_half (flux_state t)) = Un_f t"
proof -
  note r = at_rest_same_physics [OF assms(2,1)]
  from assms(3) have len: "length (U t) = nx t * 3" by (simp add: wf_buffers_def)
  note p = SSP_half_props [OF assms(3)]
  have "U (SSP_half (flux_state t)) = map (\<lambda>j. 1 * (U t ! j) + (dt t / 2) * (L_op t (U t) ! j)) [0..<nx t * 3]"
    by (simp add: p(1))
  also have "\<dots> = map (\<lambda>j. 1 * (U t ! j)) [0..<nx t * 3]"
    by (rule L_zero_map [OF r len])
  also have "\<dots> = U t" using len by (simp add: map_nth_upt)
  finally have u: "U (SSP_half (flux_state t)) = U t" .
  have "SSP_half (flux_state t) =
     t\<lparr> flux := flux (flux_state t), Uk := Uk (stage_Uk (flux_state t)), Un_f := Un_f t, dt := dt t \<rparr>"
    by (subst SSP_half_frame) (simp add: u)
  then show "same_physics (SSP_half (flux_state t)) s"
    by (simp only: same_physics_buffers [OF assms(2)])
  show "wf_buffers (SSP_half (flux_state t))" by (rule p(2))
  show "Un_f (SSP_half (flux_state t)) = Un_f t" by (rule p(7))
qed

lemma quiet_SSP_stage3:
  assumes "rest0 s r E g" "same_physics t s" "wf_buffers t" "Un_f t = U t"
  shows "same_physics (SSP_stage3 t) s" "wf_buffers (SSP_stage3 t)"
proof -
  note r = at_rest_same_physics [OF assms(2,1)]
  from assms(3) have len: "length (U t) = nx t * 3" by (simp add: wf_buffers_def)
  note p = SSP_stage3_props [OF assms(3)]
  have "U (SSP_stage3 t) = map (\<lambda>j. 1 * (U t ! j) + (dt t / 6) * (L_op t (U t) ! j)) [0..<nx t * 3]"
    by (simp add: p(1) assms(4) algebra_simps)
  also have "\<dots> = map (\<lambda>j. 1 * (U t ! j)) [0..<nx t * 3]"
    by (rule L_zero_map [OF r len])
  also have "\<dots> = U t" using len by (simp add: map_nth_upt)
  finally have u: "U (SSP_stage3 t) = U t" .
  have "SSP_stage3 t =
     t\<lparr> flux := flux (flux_state t), Uk := Uk (stage_Uk (flux_state t)), Un_f := Un_f t, dt := dt t \<rparr>"
    by (subst SSP_stage3_frame) (simp add: u)
  then show "same_physics (SSP_stage3 t) s"
    by (simp only: same_physics_buffers [OF assms(2)])
  show "wf_buffers (SSP_stage3 t)" by (rule p(2))
qed

lemma quiet_SSP_stage4:
  assumes "rest0 s r E g" "same_physics t s" "wf_buffers t"
  shows "same_physics (SSP_stage4 t) s" "wf_buffers (SSP_stage4 t)"
proof -
  note r = at_rest_same_physics [OF assms(2,1)]
  from assms(3) have len: "length (U t) = nx t * 3" by (simp add: wf_buffers_def)
  note p = SSP_stage4_props [OF assms(3)]
  have "U (SSP_stage4 t) = map (\<lambda>j. 1 * (U t ! j) + (dt t / 2) * (L_op t (U t) ! j)) [0..<nx t * 3]"
    by (simp add: p(1))
  also have "\<dots> = map (\<lambda>j. 1 * (U t ! j)) [0..<nx t * 3]"
    by (rule L_zero_map [OF r len])
  also have "\<dots> = U t" using len by (simp add: map_nth_upt)
  finally have u: "U (SSP_stage4 t) = U t" .
  have "SSP_stage4 t =
     t\<lparr> flux := flux (flux_state t), Uk := Uk (stage_Uk (flux_state t)), Un_f := Un_f t, dt := dt t \<rparr>"
    by (subst SSP_stage4_frame) (simp add: u)
  then show "same_physics (SSP_stage4 t) s"
    by (simp only: same_physics_buffers [OF assms(2)])
  show "wf_buffers (SSP_stage4 t)" by (rule p(2))
qed

lemma quiet_RK2_stage1:
  assumes "rest0 s r E g" "same_physics t s" "wf_buffers t"
  shows "same_physics (RK2_stage1 t) s" "wf_buffers (RK2_stage1 t)"
    "Un_f (RK2_stage1 t) = U t" "Uk (RK2_stage1 t) = U t"
proof -
  note r = at_rest_same_physics [OF assms(2,1)]
  from assms(3) have len: "length (U t) = nx t * 3" by (simp add: wf_buffers_def)
  note p = RK2_stage1_props [OF assms(3)]
  have "U (RK2_stage1 t) = map (\<lambda>j. 1 * (U t ! j) + step_dt t * (L_op t (U t) ! j)) [0..<nx t * 3]"
    by (simp add: p(1))
  also have "\<dots> = map (\<lambda>j. 1 * (U t ! j)) [0..<nx t * 3]"
    by (rule L_zero_map [OF r len])
  also have "\<dots> = U t" using len by (simp add: map_nth_upt)
  finally have u: "U (RK2_stage1 t) = U t" .
  have e: "RK2_stage1 t =
     t\<lparr> flux := flux (RK2_stage1 t), Uk := Uk (RK2_stage1 t), Un_f := Un_f (RK2_stage1 t),
        dt := dt (RK2_stage1 t) \<rparr>"
    by (subst RK2_stage1_frame) (simp add: u)
  show "same_physics (RK2_stage1 t) s"
    by (subst e) (rule same_physics_buffers [OF assms(2)])
  show "wf_buffers (RK2_stage1 t)" by (rule p(4))
  show "Un_f (RK2_stage1 t) = U t" by (rule p(3))
  show "Uk (RK2_stage1 t) = U t" by (simp only: p(2) u)
qed

lemma quiet_RK2_stage2:
  assumes "rest0 s r E g" "same_physics t s" "wf_buffers t" "Un_f t = U t" "Uk t = U t"
  shows "same_physics (RK2_stage2 t) s" "wf_buffers (RK2_stage2 t)"
proof -
  note r = at_rest_same_physics [OF assms(2,1)]
  from assms(3) have len: "length (U t) = nx t * 3" by (simp add: wf_buffers_def)
  note p = RK2_stage2_props [OF assms(3)]
  have "U (RK2_stage2 t) = map (\<lambda>j. 1 * (U t ! j) + (dt t / 2) * (L_op t (U t) ! j)) [0..<nx t * 3]"
    by (simp add: p(1) assms(4,5) algebra_simps)
  also have "\<dots> = map (\<lambda>j. 1 * (U t ! j)) [0..<nx t * 3]"
    by (rule L_zero_map [OF r len])
  also have "\<dots> = U t" using len by (simp add: map_nth_upt)
  finally have u: "U (RK2_stage2 t) = U t" .
  have e: "RK2_stage2 t =
     t\<lparr> flux := flux (RK2_stage2 t), Uk := Uk (RK2_stage2 t), Un_f := Un_f t, dt := dt t \<rparr>"
    by (subst RK2_stage2_frame) (simp add: u)
  show "same_physics (RK2_stage2 t) s"
    by (subst e) (rule same_physics_buffers [OF assms(2)])
  show "wf_buffers (RK2_stage2 t)" by (rule p(2))
qed

lemma cell_rebook [simp]:
  "cell_u (rebook b s) = cell_u s" "cell_p (rebook b s) = cell_p s" "cell_T (rebook b s) = cell_T s"
  by (simp_all add: cell_u_def cell_p_def cell_T_def rebook_def fun_eq_iff)

lemma updatePrimitives_rebook: "updatePrimitives (rebook b s) = rebook b (updatePrimitives s)"
proof -
  have "updatePrimitives (rebook b s) =
     (rebook b s)\<lparr> rho := array_loop (nx s) (\<lambda>i _. U s ! (i * 3)) (rho s),
        u_f := array_loop (nx s) (\<lambda>i _. cell_u s i) (u_f s),
        p_f := array_loop (nx s) (\<lambda>i _. cell_p s i) (p_f s),
        T_f := array_loop (nx s) (\<lambda>i _. cell_T s i) (T_f s) \<rparr>"
    unfolding updatePrimitives_def cell_rebook by (simp add: rebook_def)
  also have "\<dots> = rebook b (updatePrimitives s)"
    by (simp add: rebook_def updatePrimitives_def)
  finally show ?thesis .
qed

lemma mix_loop_cong:
  assumes "materialFractions t = materialFractions s" "materialProperties t = materialProperties s"
    "numMaterials t = numMaterials s"
  shows "mix_loop t c ms acc = mix_loop s c ms acc"
  by (induction ms arbitrary: acc) (simp_all add: assms split: prod.splits option.splits sum.splits)

lemma computeMixtureProperties_cong:
  assumes "materialFractions t = materialFractions s" "materialProperties t = materialProperties s"
    "numMaterials t = numMaterials s"
  shows "computeMixtureProperties t = computeMixtureProperties s"
  unfolding computeMixtureProperties_def fun_eq_iff
  by (simp only: mix_loop_cong [OF assms] assms simp_thms)

lemma computeMixtureProperties_rebook:
  "computeMixtureProperties (rebook b s) = computeMixtureProperties s"
  by (rule computeMixtureProperties_cong) (simp_all add: rebook_def)

lemma cell_region_rebook: "cell_region (rebook b s) = cell_region s"
  by (simp add: cell_region_def fun_eq_iff rebook_def)

lemma assign_props_rebook: "assign_props (rebook b s) props = rebook b (assign_props s props)"
  by (simp add: assign_props_def rebook_def)

lemma identifyInterfaceCells_rebook:
  "identifyInterfaceCells (rebook b s) = rebook b (identifyInterfaceCells s)"
proof -
  have "near_tracer (rebook b s) = near_tracer s"
    by (simp add: near_tracer_def fun_eq_iff rebook_def)
  then show ?thesis
    by (simp add: identifyInterfaceCells_def Let_def) (simp add: rebook_def)
qed

lemma rebook_fields [simp]:
  "nx (rebook b s) = nx s" "interfaceMethod (rebook b s) = interfaceMethod s"
  "tracers (rebook b s) = tracers s"
  by (simp_all add: rebook_def)

lemma rebook_rebook [simp]: "rebook b (rebook c s) = rebook b s"
  by (simp add: rebook_def)

lemma updateGasProperties_rebook:
  "updateGasProperties (rebook b s) =
     (case updateGasProperties s of Inl e \<Rightarrow> Inl e | Inr s' \<Rightarrow> Inr (rebook b s'))"
proof -
  have i: "identifyInterfaceCells (rebook b s) = rebook b (identifyInterfaceCells s)"
    by (rule identifyInterfaceCells_rebook)
  have n: "nx (identifyInterfaceCells s) = nx s" "tracers (identifyInterfaceCells s) = tracers s"
    by (simp_all add: identifyInterfaceCells_def Let_def)
  show ?thesis
    unfolding updateGasProperties_def Let_def i
    by (simp add: computeMixtureProperties_rebook cell_region_rebook assign_props_rebook n
        split: sum.splits)
qed

lemma postStep_quiet:
  assumes "steady s" "same_physics t s" "wf_buffers t"
  shows "\<exists>t'. postStep t = Inr t' \<and> same_physics t' s \<and> wf_buffers t'"
proof -
  define s1 where "s1 = t\<lparr> t_f := t_f t + dt t, timeSteps := timeSteps t + 1 \<rparr>"
  have sp: "same_physics s1 s" unfolding s1_def by (rule same_physics_time(1) [OF assms(2)])
  then have e: "rebook s1 s = s1" by (simp add: same_physics_def)
  from assms(1) have st: "updatePrimitives s = s" "tracers s = []" "updateGasProperties s = Inr s"
    by (simp_all add: steady_def)
  have up: "updatePrimitives s1 = s1"
    using updatePrimitives_rebook [of s1 s] by (simp add: e st)
  have "tracers s1 = []" using same_physics_fields(17) [OF sp] st by simp
  then have ut: "updateTracers s1 = s1" by (simp add: updateTracers_def)
  have ug: "updateGasProperties s1 = Inr s1"
    using updateGasProperties_rebook [of s1 s] by (simp add: e st)
  have post: "postStep t =
      Inr (if \<bar>t_f s1 - nextXTStore s1\<bar> < 1 / 10 ^ 10 \<or> t_f s1 > nextXTStore s1
           then (storeXTData s1)\<lparr> nextXTStore := nextXTStore s1 + xtInterval s1 \<rparr>
           else s1)"
    unfolding postStep_def Let_def s1_def [symmetric] up ut ug by simp
  have wf1: "wf_buffers s1" using assms(3) by (simp add: wf_buffers_def s1_def)
  have store: "(storeXTData s1)\<lparr> nextXTStore := nextXTStore s1 + xtInterval s1 \<rparr>
      = s1\<lparr> xtData := xtData (storeXTData s1), nextXTStore := nextXTStore s1 + xtInterval s1 \<rparr>"
    by (simp add: storeXTData_def)
  have "same_physics ((storeXTData s1)\<lparr> nextXTStore := nextXTStore s1 + xtInterval s1 \<rparr>) s"
    unfolding store by (rule same_physics_time(2) [OF sp])
  moreover have "wf_buffers ((storeXTData s1)\<lparr> nextXTStore := nextXTStore s1 + xtInterval s1 \<rparr>)"
    using wf1 by (simp add: wf_buffers_def storeXTData_def)
  ultimately show ?thesis
    unfolding post using sp wf1 by auto
qed

lemma step_quiet:
  assumes "rest0 s r E g" "steady s" "same_physics t s" "wf_buffers t"
  shows "\<exists>t'. step t = Inr t' \<and> same_physics t' s \<and> wf_buffers t'"
proof (cases "integrator t")
  case RK2Integrator
  note a = quiet_RK2_stage1 [OF assms(1,3,4)]
  have "Un_f (RK2_stage1 t) = U (RK2_stage1 t)" "Uk (RK2_stage1 t) = U (RK2_stage1 t)"
    using a(3,4) same_physics_fields(8) [OF a(1)] same_physics_fields(8) [OF assms(3)] by simp_all
  note b = quiet_RK2_stage2 [OF assms(1) a(1,2) this]
  from postStep_quiet [OF assms(2) b] RK2Integrator show ?thesis
    by (simp add: step_def RK2_step_def)
next
  case SSPIntegrator
  define t0 where "t0 = t\<lparr> dt := step_dt t, Un_f := array_loop (nx t * 3) (\<lambda>i _. U t ! i) (Un_f t) \<rparr>"
  have t0_eq: "t0 = t\<lparr> flux := flux t, Uk := Uk t,
                  Un_f := array_loop (nx t * 3) (\<lambda>i _. U t ! i) (Un_f t), dt := step_dt t \<rparr>"
    by (simp add: t0_def)
  have sp0: "same_physics t0 s" unfolding t0_eq by (rule same_physics_buffers [OF assms(3)])
  have wf0: "wf_buffers t0" using assms(4) by (simp add: t0_def wf_buffers_def)
  have un0: "Un_f t0 = U t0" using assms(4) by (simp add: t0_def wf_buffers_def copy_loop)
  have s1: "SSP_stage1 t = SSP_half (flux_state t0)"
    by (simp add: SSP_stage1_def SSP_begin_eq t0_def)
  note a = quiet_SSP_half [OF assms(1) sp0 wf0, folded s1]
  have s2: "SSP_stage2 (SSP_stage1 t) = SSP_half (flux_state (SSP_stage1 t))"
    by (simp add: SSP_stage2_def)
  note b = quiet_SSP_half [OF assms(1) a(1,2), folded s2]
  have "Un_f (SSP_stage2 (SSP_stage1 t)) = U (SSP_stage2 (SSP_stage1 t))"
    using b(3) a(3) un0 same_physics_fields(8) [OF b(1)] same_physics_fields(8) [OF sp0] by simp
  note c = quiet_SSP_stage3 [OF assms(1) b(1,2) this]
  note d = quiet_SSP_stage4 [OF assms(1) c]
  from postStep_quiet [OF assms(2) d] SSPIntegrator show ?thesis
    by (simp add: step_def SSP_step_def)
qed

lemma steps_quiet:
  assumes "rest0 s r E g" "steady s"
  shows "same_physics t s \<Longrightarrow> wf_buffers t \<Longrightarrow>
           \<exists>t'. steps n t = Inr t' \<and> same_physics t' s \<and> wf_buffers t'"
proof (induction n arbitrary: t)
  case 0
  then show ?case by simp
next
  case (Suc n)
  from step_quiet [OF assms Suc.prems] obtain t1 where
    t1: "step t = Inr t1" "same_physics t1 s" "wf_buffers t1" by blast
  from Suc.IH [OF t1(2,3)] t1(1) show ?case by simp
qed

lemma array_loop_id:
  "(\<And>i. i < n \<Longrightarrow> i < length a \<Longrightarrow> f i (a ! i) = a ! i) \<Longrightarrow> array_loop n f a = a"
  by (rule nth_equalityI) (simp_all add: nth_array_loop)

lemma array_loop_idem:
  "array_loop n (\<lambda>i _. g i) (array_loop n (\<lambda>i _. g i) a) = array_loop n (\<lambda>i _. g i) a"
  by (rule array_loop_id) (simp add: nth_array_loop)

lemma cell_updatePrimitives [simp]:
  "cell_u (updatePrimitives s) = cell_u s" "cell_p (updatePrimitives s) = cell_p s"
  "cell_T (updatePrimitives s) = cell_T s"
  by (simp_all add: cell_u_def cell_p_def cell_T_def updatePrimitives_def fun_eq_iff)

lemma updatePrimitives_idem: "updatePrimitives (updatePrimitives s) = updatePrimitives s"
proof -
  define Y where "Y = updatePrimitives s"
  have f: "nx Y = nx s" "U Y = U s" "cell_u Y = cell_u s" "cell_p Y = cell_p s" "cell_T Y = cell_T s"
    unfolding Y_def cell_updatePrimitives by (simp_all add: updatePrimitives_def)
  have r: "rho Y = array_loop (nx s) (\<lambda>i _. U s ! (i * 3)) (rho s)"
       "u_f Y = array_loop (nx s) (\<lambda>i _. cell_u s i) (u_f s)"
       "p_f Y = array_loop (nx s) (\<lambda>i _. cell_p s i) (p_f s)"
       "T_f Y = array_loop (nx s) (\<lambda>i _. cell_T s i) (T_f s)"
    unfolding Y_def by (simp_all add: updatePrimitives_def)
  have i: "array_loop (nx s) (\<lambda>i _. U s ! (i * 3)) (rho Y) = rho Y"
       "array_loop (nx s) (\<lambda>i _. cell_u s i) (u_f Y) = u_f Y"
       "array_loop (nx s) (\<lambda>i _. cell_p s i) (p_f Y) = p_f Y"
       "array_loop (nx s) (\<lambda>i _. cell_T s i) (T_f Y) = T_f Y"
    unfolding r by (rule array_loop_idem)+
  have "updatePrimitives Y = Y\<lparr> rho := rho Y, u_f := u_f Y, p_f := p_f Y, T_f := T_f Y \<rparr>"
    unfolding updatePrimitives_def [of Y] f i by (rule refl)
  also have "\<dots> = Y" by simp
  finally show ?thesis unfolding Y_def .
qed

lemma cell_xtData [simp]:
  "cell_u (s\<lparr> xtData := d \<rparr>) = cell_u s" "cell_p (s\<lparr> xtData := d \<rparr>) = cell_p s"
  "cell_T (s\<lparr> xtData := d \<rparr>) = cell_T s"
  by (simp_all add: cell_u_def cell_p_def cell_T_def fun_eq_iff)

lemma updatePrimitives_xtData:
  "updatePrimitives (s\<lparr> xtData := d \<rparr>) = (updatePrimitives s)\<lparr> xtData := d \<rparr>"
  by (simp add: updatePrimitives_def)

lemma storeXTData_alt: "\<exists>d. storeXTData s = s\<lparr> xtData := d \<rparr>"
  unfolding storeXTData_def by blast

lemma updatePrimitives_store:
  "updatePrimitives (storeXTData (updatePrimitives s)) = storeXTData (updatePrimitives s)"
proof -
  define Y where "Y = updatePrimitives s"
  have idem: "updatePrimitives Y = Y"
    unfolding Y_def by (rule updatePrimitives_idem)
  obtain d where d: "storeXTData Y = Y\<lparr> xtData := d \<rparr>"
    using storeXTData_alt [of Y] by blast
  have "updatePrimitives (storeXTData Y) = storeXTData Y"
    unfolding d updatePrimitives_xtData idem by (rule refl)
  thus ?thesis unfolding Y_def .
qed

lemma or_nat_pos: "0 < d \<Longrightarrow> 0 < or_nat v d"
  by (simp add: or_nat_def split: option.splits)

lemma init_U_single:
  "init_U n Ru_c (replicate n sl) Ubuf =
     array_loop (n * 3) (\<lambda>j _. tri (j mod 3) (slab_state Ru_c sl)) Ubuf"
  unfolding init_U_array_loop
  by (rule array_loop_cong) (simp add: less_mult_imp_div_less)

lemma array_loop_replicate:
  "array_loop n (\<lambda>i _. h (replicate n c ! i)) (replicate n z) = replicate n (h c)"
  by (rule nth_equalityI) (simp_all add: nth_array_loop)

lemma assign_props_id:
  assumes "\<And>i. i < nx s \<Longrightarrow> gp_gamma (props ! i) = gamma s ! i"
    "\<And>i. i < nx s \<Longrightarrow> gp_mw (props ! i) = mw s ! i"
    "\<And>i. i < nx s \<Longrightarrow> Some (gp_gasId (props ! i)) = gasId s ! i"
  shows "assign_props s props = s"
proof -
  have "array_loop (nx s) (\<lambda>i _. gp_gamma (props ! i)) (gamma s) = gamma s"
       "array_loop (nx s) (\<lambda>i _. gp_mw (props ! i)) (mw s) = mw s"
       "array_loop (nx s) (\<lambda>i _. Some (gp_gasId (props ! i))) (gasId s) = gasId s"
    by (rule array_loop_id, simp add: assms)+
  then show ?thesis by (simp add: assign_props_def)
qed

lemma single_start_fields:
  assumes "initialize (EulerSolver_new config) [sl] = Inr s0"
  shows "nx s0 = or_nat (cfg_nx config) 500"
    and "gamma s0 = replicate (nx s0) (slab_gamma sl)"
    and "mw s0 = replicate (nx s0) (slab_mw sl)"
    and "gasId s0 = replicate (nx s0) (Some (slab_gasId sl))"
    and "U s0 = array_loop (nx s0 * 3) (\<lambda>j _. tri (j mod 3) (slab_state 8314.51 sl))
                  (replicate (nx s0 * 3) 0)"
    and "length (Un_f s0) = nx s0 * 3"
    and "length (Uk s0) = nx s0 * 3"
    and "length (flux s0) = (nx s0 + 1) * 3"
    and "tracers s0 = []"
    and "interfaceCells s0 = {}"
    and "regions s0 = [\<lparr> gp_gamma = slab_gamma sl, gp_mw = slab_mw sl, gp_gasId = slab_gasId sl \<rparr>]"
    and "dx s0 = slab_length sl / real (nx s0)"
    and "interfaceMethod s0 = ''mixed'' \<Longrightarrow>
           numMaterials s0 = 1 \<and>
           materialProperties s0 =
             [\<lparr> gp_gamma = slab_gamma sl, gp_mw = slab_mw sl, gp_gasId = slab_gasId sl \<rparr>] \<and>
           materialFractions s0 =
             Some (concat (map (\<lambda>i. overlap_row (dx s0) (real i * dx s0) ((real i + 1) * dx s0) [sl] 0)
                               [0..<nx s0]))"
    and "updatePrimitives s0 = s0"
proof -
  define s where "s = EulerSolver_new config"
  define s5 where "s5 = init_fields (init_grid s [sl]) [sl] (replicate (nx s) sl)"
  define s6 where "s6 = init_mixed [sl] s5"
  have s0: "s0 = storeXTData (updatePrimitives s6)"
    using assms unfolding initialize_single s6_def s5_def s_def by simp
  have f5: "nx s5 = or_nat (cfg_nx config) 500"
    "gamma s5 = replicate (nx s5) (slab_gamma sl)"
    "mw s5 = replicate (nx s5) (slab_mw sl)"
    "gasId s5 = replicate (nx s5) (Some (slab_gasId sl))"
    "U s5 = array_loop (nx s5 * 3) (\<lambda>j _. tri (j mod 3) (slab_state 8314.51 sl))
                  (replicate (nx s5 * 3) 0)"
    "length (Un_f s5) = nx s5 * 3"
    "length (Uk s5) = nx s5 * 3"
    "length (flux s5) = (nx s5 + 1) * 3"
    "tracers s5 = []"
    "interfaceCells s5 = {}"
    "regions s5 = [\<lparr> gp_gamma = slab_gamma sl, gp_mw = slab_mw sl, gp_gasId = slab_gasId sl \<rparr>]"
    "dx s5 = slab_length sl / real (nx s5)"
    unfolding s5_def s_def
    by (simp_all add: init_fields_def init_grid_def EulerSolver_new_def Let_def
        array_loop_replicate array_loop_replicate [where h = "\<lambda>x. Some (slab_gasId x)"]
        init_U_single)
  have f6: "nx s6 = nx s5" "gamma s6 = gamma s5" "mw s6 = mw s5" "gasId s6 = gasId s5"
    "U s6 = U s5" "Un_f s6 = Un_f s5" "Uk s6 = Uk s5" "flux s6 = flux s5" "tracers s6 = tracers s5"
    "interfaceCells s6 = interfaceCells s5" "regions s6 = regions s5" "dx s6 = dx s5"
    "interfaceMethod s6 = interfaceMethod s5"
    unfolding s6_def by (simp_all add: init_mixed_def)
  have m6: "interfaceMethod s6 = ''mixed'' \<Longrightarrow>
           numMaterials s6 = 1 \<and>
           materialProperties s6 =
             [\<lparr> gp_gamma = slab_gamma sl, gp_mw = slab_mw sl, gp_gasId = slab_gasId sl \<rparr>] \<and>
           materialFractions s6 =
             Some (concat (map (\<lambda>i. overlap_row (dx s6) (real i * dx s6) ((real i + 1) * dx s6) [sl] 0)
                               [0..<nx s6]))"
    unfolding f6 unfolding s6_def by (simp add: init_mixed_def)
  have f0: "nx s0 = nx s6" "gamma s0 = gamma s6" "mw s0 = mw s6" "gasId s0 = gasId s6"
    "U s0 = U s6" "Un_f s0 = Un_f s6" "Uk s0 = Uk s6" "flux s0 = flux s6" "tracers s0 = tracers s6"
    "interfaceCells s0 = interfaceCells s6" "regions s0 = regions s6" "dx s0 = dx s6"
    "interfaceMethod s0 = interfaceMethod s6" "numMaterials s0 = numMaterials s6"
    "materialProperties s0 = materialProperties s6" "materialFractions s0 = materialFractions s6"
    unfolding s0 by (simp_all add: storeXTData_def updatePrimitives_def)
  show "nx s0 = or_nat (cfg_nx config) 500"
    and "gamma s0 = replicate (nx s0) (slab_gamma sl)"
    and "mw s0 = replicate (nx s0) (slab_mw sl)"
    and "gasId s0 = replicate (nx s0) (Some (slab_gasId sl))"
    and "U s0 = array_loop (nx s0 * 3) (\<lambda>j _. tri (j mod 3) (slab_state 8314.51 sl))
                  (replicate (nx s0 * 3) 0)"
    and "length (Un_f s0) = nx s0 * 3"
    and "length (Uk s0) = nx s0 * 3"
    and "length (flux s0) = (nx s0 + 1) * 3"
    and "tracers s0 = []"
    and "interfaceCells s0 = {}"
    and "regions s0 = [\<lparr> gp_gamma = slab_gamma sl, gp_mw = slab_mw sl, gp_gasId = slab_gasId sl \<rparr>]"
    and "dx s0 = slab_length sl / real (nx s0)"
    unfolding f0 f6 by (rule f5)+
  show "interfaceMethod s0 = ''mixed'' \<Longrightarrow>
           numMaterials s0 = 1 \<and>
           materialProperties s0 =
             [\<lparr> gp_gamma = slab_gamma sl, gp_mw = slab_mw sl, gp_gasId = slab_gasId sl \<rparr>] \<and>
           materialFractions s0 =
             Some (concat (map (\<lambda>i. overlap_row (dx s0) (real i * dx s0) ((real i + 1) * dx s0) [sl] 0)
                               [0..<nx s0]))"
    unfolding f0 by (rule m6)
  show "updatePrimitives s0 = s0"
    unfolding s0 by (rule updatePrimitives_store)
qed

lemma single_start_rest:
  assumes "initialize (EulerSolver_new config) [sl] = Inr s0" "valid_slab sl"
  shows "rest0 s0 (slab_pressure sl / (8314.51 / slab_mw sl * slab_temperature sl))
           (slab_pressure sl / (slab_gamma sl - 1)) (slab_gamma sl)"
proof -
  note f = single_start_fields [OF assms(1)]
  have v: "1 < slab_gamma sl" "0 < slab_mw sl" "0 < slab_pressure sl" "0 < slab_temperature sl"
    using assms(2) by (simp_all add: valid_slab_def)
  have n: "0 < nx s0" unfolding f(1) by (rule or_nat_pos) simp
  have u: "U s0 ! (i * 3 + k) = tri k (slab_state 8314.51 sl)" if "i < nx s0" "k < 3" for i k
  proof -
    have j: "i * 3 + k < nx s0 * 3" using that by simp
    have m: "k mod 3 = k" using that by simp
    show ?thesis unfolding f(5) using j by (simp add: nth_array_loop m)
  qed
  have st: "slab_state 8314.51 sl =
      (slab_pressure sl / (8314.51 / slab_mw sl * slab_temperature sl), 0,
       slab_pressure sl / (slab_gamma sl - 1))"
    by (simp add: slab_state_def Let_def)
  have ar: "at_rest s0 (slab_pressure sl / (8314.51 / slab_mw sl * slab_temperature sl))
           (slab_pressure sl / (slab_gamma sl - 1)) (slab_gamma sl)"
    unfolding at_rest_def
  proof (intro allI impI conjI)
    fix i assume i: "i < nx s0"
    show "U s0 ! (i * 3) = slab_pressure sl / (8314.51 / slab_mw sl * slab_temperature sl)"
      using u [OF i, of 0] unfolding st by (simp add: tri_def)
    show "U s0 ! (i * 3 + 1) = 0"
      using u [OF i, of 1] unfolding st by (simp add: tri_def)
    show "U s0 ! (i * 3 + 2) = slab_pressure sl / (slab_gamma sl - 1)"
      using u [OF i, of 2] unfolding st by (simp add: tri_def)
    show "gamma s0 ! i = slab_gamma sl"
      using i by (simp add: f(2))
  qed
  have p: "(slab_gamma sl - 1) * (slab_pressure sl / (slab_gamma sl - 1)) = slab_pressure sl"
    using v(1) by simp
  have r: "0 < slab_pressure sl / (8314.51 / slab_mw sl * slab_temperature sl)"
    using v by simp
  have c: "0 < slab_gamma sl * ((slab_gamma sl - 1) * (slab_pressure sl / (slab_gamma sl - 1)))
               / (slab_pressure sl / (8314.51 / slab_mw sl * slab_temperature sl))"
    unfolding p using v r by (intro divide_pos_pos mult_pos_pos) simp_all
  show ?thesis unfolding rest0_def using ar n c by blast
qed

lemma single_start_mixture:
  assumes "initialize (EulerSolver_new config) [sl] = Inr s0" "valid_slab sl"
    "interfaceMethod s0 = ''mixed''" "i < nx s0"
  shows "computeMixtureProperties s0 i =
           Inr \<lparr> gp_gamma = slab_gamma sl, gp_mw = slab_mw sl, gp_gasId = slab_gasId sl \<rparr>"
proof -
  note f = single_start_fields [OF assms(1)]
  note m = f(13) [OF assms(3)]
  have v: "1 < slab_gamma sl" "0 < slab_length sl"
    using assms(2) by (simp_all add: valid_slab_def)
  have n: "0 < nx s0" unfolding f(1) by (rule or_nat_pos) simp
  have d: "0 < dx s0" unfolding f(12) using v n by simp
  have L: "slab_length sl = real (nx s0) * dx s0" unfolding f(12) using n by simp
  have row: "overlap_row (dx s0) (real k * dx s0) ((real k + 1) * dx s0) [sl] 0 = [1]"
    if "k < nx s0" for k
  proof -
    have "(real k + 1) * dx s0 \<le> real (nx s0) * dx s0"
      using that d by (intro mult_right_mono) simp_all
    then have a: "min ((real k + 1) * dx s0) (slab_length sl) = (real k + 1) * dx s0"
      unfolding L by simp
    have b: "max (real k * dx s0) 0 = real k * dx s0"
      using d by simp
    have c: "(real k + 1) * dx s0 - real k * dx s0 = dx s0"
      by (simp add: algebra_simps)
    show ?thesis using d by (simp add: Let_def a b c)
  qed
  define mf where "mf = concat (map (\<lambda>i. overlap_row (dx s0) (real i * dx s0) ((real i + 1) * dx s0) [sl] 0)
                               [0..<nx s0])"
  have "mf ! (i * 1 + 0) = overlap_row (dx s0) (real i * dx s0) ((real i + 1) * dx s0) [sl] 0 ! 0"
    unfolding mf_def by (rule nth_concat_rows) (simp_all add: row assms(4))
  then have one: "mf ! i = 1" unfolding row [OF assms(4)] by simp
  have mfs: "materialFractions s0 = Some mf" "numMaterials s0 = 1"
    "materialProperties s0 = [\<lparr> gp_gamma = slab_gamma sl, gp_mw = slab_mw sl, gp_gasId = slab_gasId sl \<rparr>]"
    using m by (simp_all add: mf_def)
  have loop: "mix_loop s0 i [0..<numMaterials s0] (0, 0, 0, 0, 0) =
     Inr (1 / (slab_gamma sl - 1), slab_mw sl, 1, 0, 1)"
    by (simp add: mfs lookup_def one)
  have g: "1 + 1 / (1 / (slab_gamma sl - 1) / 1) = slab_gamma sl"
    using v by simp
  show ?thesis
    unfolding computeMixtureProperties_def loop
    by (simp add: mfs lookup_def g)
qed

lemma single_start_steady:
  assumes "initialize (EulerSolver_new config) [sl] = Inr s0" "valid_slab sl"
  shows "steady s0"
proof -
  note f = single_start_fields [OF assms(1)]
  let ?p = "\<lparr> gp_gamma = slab_gamma sl, gp_mw = slab_mw sl, gp_gasId = slab_gasId sl \<rparr>"
  have ri: "regions s0 ! region_index_spec s0 i = ?p" for i
    by (simp add: region_index_spec_def f(11))
  have id: "assign_props s0 (map (\<lambda>i. ?p) [0..<nx s0]) = s0"
    by (rule assign_props_id) (simp_all add: f(2,3,4))
  have cells: "interface_cells_spec s0 = {}"
    by (simp add: interface_cells_spec_def f(9))
  have noop: "s0\<lparr> interfaceCells := {} \<rparr> = s0"
    using f(10) by simp
  have reg: "for_cells (\<lambda>i. lookup (regions s0) (region_index_spec s0 i)) [0..<nx s0]
        = Inr (map (\<lambda>i. ?p) [0..<nx s0])"
    by (rule for_cells_Inr) (simp add: lookup_def region_index_spec_def f(11))
  have "updateGasProperties s0 = Inr s0"
  proof (cases "interfaceMethod s0 = ''mixed''")
    case True
    have "for_cells (computeMixtureProperties s0) [0..<nx s0] = Inr (map (\<lambda>i. ?p) [0..<nx s0])"
      by (rule for_cells_Inr) (simp add: single_start_mixture [OF assms True])
    then show ?thesis
      unfolding updateGasProperties_def by (simp add: True id)
  next
    case False
    show ?thesis
    proof (cases "interfaceMethod s0 = ''ghost''")
      case True
      show ?thesis
        unfolding updateGasProperties_ghost [OF True] reg cells noop by (simp add: id)
    next
      case g: False
      show ?thesis
        unfolding updateGasProperties_sharp [OF False g] reg by (simp add: id)
    qed
  qed
  then show ?thesis
    unfolding steady_def using f(9) f(14) by simp
qed

lemma single_start_steps:
  assumes "initialize (EulerSolver_new config) [sl] = Inr s0" "valid_slab sl"
  shows "\<exists>sn. steps n s0 = Inr sn \<and> same_physics sn s0"
proof -
  note f = single_start_fields [OF assms(1)]
  have wf: "wf_buffers s0"
    unfolding wf_buffers_def using f(6,7,8) by (simp add: f(5))
  from steps_quiet [OF single_start_rest [OF assms] single_start_steady [OF assms]
      same_physics_refl wf, of n]
  show ?thesis by blast
qed

lemma integrator_initialize:
  "initialize s slabs = Inr s0 \<Longrightarrow> integrator s0 = integrator s"
  by (auto simp: initialize_def Let_def init_grid_def init_fields_def init_mixed_def
      updatePrimitives_def storeXTData_def split: sum.splits if_splits)

text \<open>
  C9, amended: in exact arithmetic, for every configuration and every single slab with
  physical values (\<open>valid_slab\<close>), \<open>initialize\<close> returns a state without tracers, whose
  integrator is the one that the configuration names (RK2 or SSP), and from which every
  number of integrator steps returns a state with the same conservative state,
  primitive fields and per-cell gas properties, and still without tracers.
\<close>

theorem single_slab_fixed_point:
  assumes "valid_slab sl"
  shows "\<exists>s0. initialize (EulerSolver_new config) [sl] = Inr s0 \<and> tracers s0 = []
           \<and> integrator s0 = fst (IntegratorFactory_create (or_str (cfg_integrator config) ''RK2''))
           \<and> (\<forall>n. \<exists>sn. steps n s0 = Inr sn \<and> U sn = U s0 \<and> rho sn = rho s0 \<and> u_f sn = u_f s0
                   \<and> p_f sn = p_f s0 \<and> T_f sn = T_f s0 \<and> gamma sn = gamma s0 \<and> mw sn = mw s0
                   \<and> gasId sn = gasId s0 \<and> tracers sn = [])"
proof -
  obtain s0 where s0: "initialize (EulerSolver_new config) [sl] = Inr s0"
    unfolding initialize_single by blast
  note f = single_start_fields [OF s0]
  have i: "integrator s0 = fst (IntegratorFactory_create (or_str (cfg_integrator config) ''RK2''))"
    unfolding integrator_initialize [OF s0] by (simp add: EulerSolver_new_def Let_def)
  have "\<exists>sn. steps n s0 = Inr sn \<and> U sn = U s0 \<and> rho sn = rho s0 \<and> u_f sn = u_f s0
                   \<and> p_f sn = p_f s0 \<and> T_f sn = T_f s0 \<and> gamma sn = gamma s0 \<and> mw sn = mw s0
                   \<and> gasId sn = gasId s0 \<and> tracers sn = []" for n
  proof -
    from single_start_steps [OF s0 assms, of n] obtain sn where
      sn: "steps n s0 = Inr sn" "same_physics sn s0" by blast
    note p = same_physics_fields [OF sn(2)]
    show ?thesis
      using sn(1) p(8,9,10,11,12,13,14,15,17) f(9) by simp
  qed
  with s0 f(9) i show ?thesis by blast
qed

theorem single_slab_fixed_point_witness:
  "valid_slab air_slab
   \<and> (\<exists>s0. initialize (EulerSolver_new cfg_ssp) [air_slab] = Inr s0 \<and> tracers s0 = []
           \<and> integrator s0 = SSPIntegrator
           \<and> (\<forall>n. \<exists>sn. steps n s0 = Inr sn \<and> U sn = U s0 \<and> rho sn = rho s0 \<and> u_f sn = u_f s0
                   \<and> p_f sn = p_f s0 \<and> T_f sn = T_f s0 \<and> gamma sn = gamma s0 \<and> mw sn = mw s0
                   \<and> gasId sn = gasId s0 \<and> tracers sn = []))"
proof -
  have v: "valid_slab air_slab"
    by (simp add: valid_slab_def air_slab_def)
  have i: "fst (IntegratorFactory_create (or_str (cfg_integrator cfg_ssp) ''RK2'')) = SSPIntegrator"
    by (simp add: IntegratorFactory_create_def or_str_def cfg_ssp_def)
  from single_slab_fixed_point [OF v, of cfg_ssp] v show ?thesis
    unfolding i by blast
qed

subsection \<open>A single slab in Float64 arithmetic\<close>

lemma f64_eval:
  assumes "1 / 2 ^ k \<le> x" "x < 2 / 2 ^ k"
  shows "f64 x = of_int (round_even (x * 2 ^ (k + 52))) / 2 ^ (k + 52)"
proof -
  have pos: "0 < x" by (rule less_le_trans [OF _ assms(1)]) simp
  have p: "2 powr of_int (- int k) = 1 / (2::real) ^ k"
    by (simp add: powr_minus powr_realpow divide_inverse)
  have q: "2 powr of_int (- int k + 1) = 2 / (2::real) ^ k"
    by (simp add: powr_diff powr_realpow)
  have "2 powr of_int (- int k) \<le> x \<and> x < 2 powr of_int (- int k + 1)"
    unfolding p q using assms by blast
  then have "\<lfloor>log 2 x\<rfloor> = - int k"
    by (subst floor_log_eq_powr_iff [OF pos]) simp_all
  then have e: "\<lfloor>log 2 \<bar>x\<bar>\<rfloor> - 52 = - int (k + 52)" using pos by simp
  have "2 powr of_int (- int (k + 52)) = 2 powr (- real (k + 52))"
    by simp
  also have "\<dots> = inverse (2 powr real (k + 52))"
    by (rule powr_minus)
  also have "\<dots> = 1 / (2::real) ^ (k + 52)"
    by (subst powr_realpow) (simp_all add: divide_inverse)
  finally have r: "2 powr of_int (- int (k + 52)) = 1 / (2::real) ^ (k + 52)" .
  show ?thesis
    unfolding f64_def Let_def e r using pos by simp
qed

lemma f64_values:
  "f64 (2 / 3) = 6004799503160661 / 2 ^ 53"
  "f64 (1 / 6) = 6004799503160661 / 2 ^ 55"
  by (subst f64_eval [where k = 1], simp, simp, simp add: round_even_def)
     (subst f64_eval [where k = 3], simp, simp, simp add: round_even_def)

lemma f64_half_one: "f64 (1 / 2) = 1 / 2" "f64 1 = 1"
  by (subst f64_eval [where k = 1], simp, simp, simp add: round_even_def)
     (subst f64_eval [where k = 0], simp, simp, simp add: round_even_def)

lemma f64_zero: "f64 0 = 0"
  by (simp add: f64_def)

lemma SSP_half_f64_one: "SSP_half_f64 1 1 = 1"
  by (simp add: SSP_half_f64_def f64_half_one f64_zero)

lemma SSP_stage3_f64_one: "SSP_stage3_f64 1 1 1 = 1 - 1 / 2 ^ 53"
proof -
  have a: "f64 (6004799503160661 / 2 ^ 53) = 6004799503160661 / 2 ^ 53"
    by (subst f64_eval [where k = 1], simp, simp, simp add: round_even_def)
  have b: "f64 (6004799503160661 / 2 ^ 55) = 6004799503160661 / 2 ^ 55"
    by (subst f64_eval [where k = 3], simp, simp, simp add: round_even_def)
  have s1: "f64 (6004799503160661 / 2 ^ 53 + 6004799503160661 / 2 ^ 55) = 7505999378950826 / 2 ^ 53"
    by (subst f64_eval [where k = 1], simp, simp, simp add: round_even_def)
  have s2: "f64 (7505999378950826 / 2 ^ 53 + 6004799503160661 / 2 ^ 55) = 1 - 1 / 2 ^ 53"
    by (subst f64_eval [where k = 1], simp, simp, simp add: round_even_def)
  show ?thesis
    unfolding SSP_stage3_f64_def f64_values mult_1_right a b s1 s2 by (rule refl)
qed

lemma SSP_stage4_f64_below_one:
  "SSP_stage4_f64 (1 - 1 / 2 ^ 53) (1 - 1 / 2 ^ 53) = 1 - 1 / 2 ^ 53"
proof -
  have h: "f64 (1 / 2 * (1 - 1 / 2 ^ 53)) = 1 / 2 * (1 - 1 / 2 ^ 53)"
    by (subst f64_eval [where k = 2], simp, simp, simp add: round_even_def)
  have s: "f64 (1 / 2 * (1 - 1 / 2 ^ 53) + 1 / 2 * (1 - 1 / 2 ^ 53)) = 1 - 1 / 2 ^ 53"
    by (subst f64_eval [where k = 1], simp, simp, simp add: round_even_def)
  show ?thesis
    unfolding SSP_stage4_f64_def f64_half_one h s by (rule refl)
qed

lemma unit_slab_facts:
  "valid_slab unit_slab" "slab_state 8314.51 unit_slab = (1, 0, 1)"
  by (simp_all add: valid_slab_def unit_slab_def slab_state_def Let_def)

lemma updateConservative_f64_same:
  "f64 u = u \<Longrightarrow> updateConservative_f64 u q F F = u"
  by (simp add: updateConservative_f64_def f64_zero)

lemma f64_below_one: "f64 (1 - 1 / 2 ^ 53) = 1 - 1 / 2 ^ 53"
  by (subst f64_eval [where k = 1], simp, simp, simp add: round_even_def)

lemma SSP_entry_f64_one: "SSP_entry_f64 q F1 F2 F3 F4 1 = 1 - 1 / 2 ^ 53"
  unfolding SSP_entry_f64_def Let_def
  by (simp only: updateConservative_f64_same f64_half_one f64_below_one SSP_half_f64_one
      SSP_stage3_f64_one SSP_stage4_f64_below_one)

text \<open>
  C9, as the specification states it, fails in Float64 arithmetic, in which the solver
  runs. The slab \<open>unit_slab\<close> is physical, and every cell of its initial state has
  density 1, momentum 0 and energy 1. An entry of value 1 that goes through the four
  stages of one SSP step, the fluxes at its two interfaces being equal in every stage,
  comes out as \<open>1 - 2 ^ -53\<close>: stage 3 computes
  \<^verbatim>\<open>(2.0/3.0) * 1 + (1.0/6.0) * 1 + (1.0/6.0) * 1\<close>, which is not 1 after rounding.
\<close>

theorem single_slab_float_counterexample:
  "valid_slab unit_slab \<and> slab_state 8314.51 unit_slab = (1, 0, 1)
   \<and> (\<forall>q F1 F2 F3 F4. SSP_entry_f64 q F1 F2 F3 F4 1 = 1 - 1 / 2 ^ 53)
   \<and> (1::real) - 1 / 2 ^ 53 \<noteq> 1"
  using unit_slab_facts SSP_entry_f64_one by simp

subsection \<open>The SSP step is SSPRK(4,3)\<close>

lemma SSP_stages_frame:
  assumes "wf_buffers s"
  shows "dt (SSP_stage4 (SSP_stage3 (SSP_stage2 (SSP_stage1 s)))) = step_dt s"
    and "Un_f (SSP_stage4 (SSP_stage3 (SSP_stage2 (SSP_stage1 s)))) = U s"
proof -
  define s0 where "s0 = s\<lparr> dt := step_dt s, Un_f := array_loop (nx s * 3) (\<lambda>i _. U s ! i) (Un_f s) \<rparr>"
  have s0: "wf_buffers s0" "dt s0 = step_dt s" "Un_f s0 = U s"
    using assms by (simp_all add: s0_def wf_buffers_def copy_loop)
  define s1 where "s1 = SSP_stage1 s"
  have s1_eq: "s1 = SSP_half (flux_state s0)"
    by (simp add: s1_def SSP_stage1_def SSP_begin_eq s0_def)
  note p1 = SSP_half_props [OF s0(1), folded s1_eq]
  define s2 where "s2 = SSP_stage2 s1"
  have s2_eq: "s2 = SSP_half (flux_state s1)" by (simp add: s2_def SSP_stage2_def)
  note p2 = SSP_half_props [OF p1(2), folded s2_eq]
  define s3 where "s3 = SSP_stage3 s2"
  note p3 = SSP_stage3_props [OF p2(2), folded s3_def]
  note p4 = SSP_stage4_props [OF p3(2)]
  have "dt (SSP_stage4 s3) = step_dt s" "Un_f (SSP_stage4 s3) = U s"
    unfolding p4(6,7) p3(6,7) p2(6,7) p1(6,7) s0(2,3) by (rule refl)+
  then show "dt (SSP_stage4 (SSP_stage3 (SSP_stage2 (SSP_stage1 s)))) = step_dt s"
    and "Un_f (SSP_stage4 (SSP_stage3 (SSP_stage2 (SSP_stage1 s)))) = U s"
    by (simp_all only: s3_def s2_def s1_def)
qed

lemma SSP_half_other:
  "interfaceMethod (SSP_half (flux_state t)) = interfaceMethod t"
  "regions (SSP_half (flux_state t)) = regions t"
  "t_f (SSP_half (flux_state t)) = t_f t"
  by (subst SSP_half_frame, simp)+

lemma SSP_stage3_other:
  "interfaceMethod (SSP_stage3 t) = interfaceMethod t"
  "regions (SSP_stage3 t) = regions t"
  "t_f (SSP_stage3 t) = t_f t"
  by (subst SSP_stage3_frame, simp)+

lemma SSP_stage4_other:
  "interfaceMethod (SSP_stage4 t) = interfaceMethod t"
  "regions (SSP_stage4 t) = regions t"
  "t_f (SSP_stage4 t) = t_f t"
  by (subst SSP_stage4_frame, simp)+

lemma SSP_stages_method:
  "interfaceMethod (SSP_stage4 (SSP_stage3 (SSP_stage2 (SSP_stage1 s)))) = interfaceMethod s"
  "regions (SSP_stage4 (SSP_stage3 (SSP_stage2 (SSP_stage1 s)))) = regions s"
  "t_f (SSP_stage4 (SSP_stage3 (SSP_stage2 (SSP_stage1 s)))) = t_f s"
  unfolding SSP_stage4_other SSP_stage3_other SSP_stage2_def SSP_stage1_def SSP_begin_eq
    SSP_half_other
  by simp_all

text \<open>
  C7. On a state whose buffers have their sizes, a step of the SSP integrator that
  returns leaves in U the result of the four stages of SSPRK(4,3) in Shu-Osher form
  (\<open>ssprk43\<close>, with the operator \<open>L_op\<close>) applied to the old U with the step size that
  the step chose, leaves the old U in Un, and advances the time by that step size; the
  step returns under the sharp and the ghost method when the region table is not empty.
\<close>

theorem SSP_step_ssprk43:
  assumes "wf_buffers s"
  shows "(\<forall>s'. SSP_step s = Inr s' \<longrightarrow>
            U s' = ssprk43 s (step_dt s) (U s) \<and> dt s' = step_dt s \<and> Un_f s' = U s
            \<and> t_f s' = t_f s + step_dt s)
       \<and> (interfaceMethod s \<noteq> ''mixed'' \<and> regions s \<noteq> [] \<longrightarrow> (\<exists>s'. SSP_step s = Inr s'))"
proof (intro conjI allI impI)
  define t where "t = SSP_stage4 (SSP_stage3 (SSP_stage2 (SSP_stage1 s)))"
  have t: "U t = ssprk43 s (step_dt s) (U s)" "dt t = step_dt s" "Un_f t = U s"
    unfolding t_def
    by (rule SSP_stages_ssprk43 [OF assms] SSP_stages_frame [OF assms])+
  have tt: "t_f t = t_f s"
    unfolding t_def by (rule SSP_stages_method)
  {
    fix s' assume "SSP_step s = Inr s'"
    then have p: "postStep t = Inr s'" by (simp add: SSP_step_def t_def)
    note f = postStep_fields [OF p]
    show "U s' = ssprk43 s (step_dt s) (U s)" unfolding f(8) by (rule t(1))
    show "dt s' = step_dt s" unfolding f(12) by (rule t(2))
    show "Un_f s' = U s" unfolding f(9) by (rule t(3))
    show "t_f s' = t_f s + step_dt s" unfolding f(20) t(2) tt by (rule refl)
  }
  assume "interfaceMethod s \<noteq> ''mixed'' \<and> regions s \<noteq> []"
  then have "interfaceMethod t \<noteq> ''mixed''" "regions t \<noteq> []"
    unfolding t_def SSP_stages_method by simp_all
  from postStep_nonmixed_ok [OF this] show "\<exists>s'. SSP_step s = Inr s'"
    by (simp add: SSP_step_def t_def)
qed

theorem SSP_step_ssprk43_witness:
  "wf_buffers rest_state \<and> interfaceMethod rest_state \<noteq> ''mixed'' \<and> regions rest_state \<noteq> []
   \<and> (\<exists>s'. SSP_step rest_state = Inr s'
          \<and> U s' = ssprk43 rest_state (step_dt rest_state) (U rest_state)
          \<and> dt s' = step_dt rest_state \<and> Un_f s' = U rest_state)"
proof -
  have h: "wf_buffers rest_state" "interfaceMethod rest_state \<noteq> ''mixed'' \<and> regions rest_state \<noteq> []"
    by (simp_all add: rest_state_def wf_buffers_def EulerSolver_new_def cfg2_def or_nat_def
        or_str_def)
  from SSP_step_ssprk43 [OF h(1)] h show ?thesis by blast
qed

subsection \<open>Reflective walls: total mass and total energy\<close>

lemma hllcAt_self: "hllcAt (t\<lparr> U := U t \<rparr>) = hllcAt t"
  by (rule hllcAt_cong) simp_all

lemma wall_flux_zero:
  assumes "positive_state t"
  shows "cell_flux t (U t) 0 = 0" "cell_flux t (U t) 2 = 0"
    "cell_flux t (U t) (nx t * 3) = 0" "cell_flux t (U t) (nx t * 3 + 2) = 0"
proof -
  from assms have n: "0 < nx t" by (simp add: positive_state_def)
  have pos: "0 < U t ! (i * 3)"
      "0 < (gamma t ! i - 1) * (U t ! (i * 3 + 2)
             - 0.5 * (U t ! (i * 3)) * (U t ! (i * 3 + 1) / U t ! (i * 3)) * (U t ! (i * 3 + 1) / U t ! (i * 3)))"
      "0 < gamma t ! i" if "i < nx t" for i
    using assms that by (simp_all add: positive_state_def cell_p_def cell_u_def)
  have l: "hllcAt t 0 = hllcFlux (U t ! 0, - (U t ! 1), U t ! 2) (U t ! 0, U t ! 1, U t ! 2)
                          (gamma t ! 0) (gamma t ! 0)"
    by (simp add: hllcAt_def interfaceStates_def)
  have wl: "fst (fst (hllcFlux (U t ! 0, - (U t ! 1), U t ! 2) (U t ! 0, U t ! 1, U t ! 2)
                          (gamma t ! 0) (gamma t ! 0))) = 0"
      "snd (snd (fst (hllcFlux (U t ! 0, - (U t ! 1), U t ! 2) (U t ! 0, U t ! 1, U t ! 2)
                          (gamma t ! 0) (gamma t ! 0)))) = 0"
    using hllcFlux_wall_left [OF pos [OF n]] by (simp_all add: numeral_2_eq_2)
  have c: "cell_flux t (U t) 0 = fst (fst (hllcAt t 0))"
      "cell_flux t (U t) 2 = snd (snd (fst (hllcAt t 0)))"
      "cell_flux t (U t) (nx t * 3) = fst (fst (hllcAt t (nx t)))"
      "cell_flux t (U t) (nx t * 3 + 2) = snd (snd (fst (hllcAt t (nx t))))"
    unfolding cell_flux_def hllcAt_self divmod3 by (simp_all add: tri_def)
  show "cell_flux t (U t) 0 = 0"
    unfolding c l by (rule wl)
  show "cell_flux t (U t) 2 = 0"
    unfolding c l by (rule wl)
  define m where "m = nx t - 1"
  have m: "m < nx t" "nx t = Suc m" using n by (simp_all add: m_def)
  have r: "hllcAt t (nx t) =
     hllcFlux (U t ! (m * 3), U t ! (m * 3 + 1), U t ! (m * 3 + 2))
              (U t ! (m * 3), - (U t ! (m * 3 + 1)), U t ! (m * 3 + 2)) (gamma t ! m) (gamma t ! m)"
    using n by (simp add: hllcAt_def interfaceStates_def Let_def m_def)
  note wr = hllcFlux_wall_right [OF pos [OF m(1)]]
  show "cell_flux t (U t) (nx t * 3) = 0"
    unfolding c r by (rule wr)
  show "cell_flux t (U t) (nx t * 3 + 2) = 0"
    unfolding c r by (rule wr)
qed

lemma L_op_sum:
  assumes "positive_state t" "k = 0 \<or> k = 2"
  shows "(\<Sum>i<nx t. L_op t (U t) ! (i * 3 + k)) = 0"
proof -
  define f where "f i = cell_flux t (U t) (i * 3 + k)" for i
  have e: "L_op t (U t) ! (i * 3 + k) = - (1 / dx t) * (f (Suc i) - f i)" if "i < nx t" for i
  proof -
    have "i * 3 + k < nx t * 3" using that assms(2) by auto
    then show ?thesis by (simp add: nth_L_op f_def add.commute add.left_commute)
  qed
  have w: "f (nx t) = 0" "f 0 = 0"
    using assms(2) wall_flux_zero [OF assms(1)] by (auto simp: f_def)
  have "(\<Sum>i<nx t. L_op t (U t) ! (i * 3 + k)) = (\<Sum>i<nx t. - (1 / dx t) * (f (Suc i) - f i))"
    by (rule sum.cong) (simp_all add: e)
  also have "\<dots> = - (1 / dx t) * (\<Sum>i<nx t. f (Suc i) - f i)"
    by (simp only: sum_distrib_left)
  also have "\<dots> = - (1 / dx t) * (f (nx t) - f 0)"
    by (simp only: sum_lessThan_telescope)
  finally show ?thesis by (simp add: w)
qed

lemma component_total_map:
  assumes "k < 3"
  shows "component_total n k (map g [0..<n * 3]) = (\<Sum>i<n. g (i * 3 + k))"
  unfolding component_total_def
proof (rule sum.cong)
  fix i assume "i \<in> {..<n}"
  then have "i * 3 + k < n * 3" using assms by auto
  then show "map g [0..<n * 3] ! (i * 3 + k) = g (i * 3 + k)" by simp
qed (rule refl)

lemma component_total_step:
  assumes "positive_state t" "k = 0 \<or> k = 2"
  shows "component_total (nx t) k
           (map (\<lambda>j. a * (X ! j) + b * (Y ! j) + c * (L_op t (U t) ! j)) [0..<nx t * 3])
         = a * component_total (nx t) k X + b * component_total (nx t) k Y"
proof -
  have k: "k < 3" using assms(2) by auto
  show ?thesis
    unfolding component_total_map [OF k]
    by (simp add: sum.distrib sum_distrib_left [symmetric] L_op_sum [OF assms]
        component_total_def)
qed

lemma total_half:
  assumes "positive_state t" "k = 0 \<or> k = 2"
  shows "component_total (nx t) k (map (\<lambda>j. U t ! j + c * (L_op t (U t) ! j)) [0..<nx t * 3])
         = component_total (nx t) k (U t)"
proof -
  have "(\<lambda>j. U t ! j + c * (L_op t (U t) ! j))
        = (\<lambda>j. 1 * (U t ! j) + 0 * (U t ! j) + c * (L_op t (U t) ! j))"
    by (simp add: fun_eq_iff)
  then show ?thesis
    by (simp only: component_total_step [OF assms])
qed

lemma total_average:
  assumes "positive_state t" "k = 0 \<or> k = 2"
  shows "component_total (nx t) k
           (map (\<lambda>j. 0.5 * (X ! j) + 0.5 * (Y ! j + c * (L_op t (U t) ! j))) [0..<nx t * 3])
         = 0.5 * component_total (nx t) k X + 0.5 * component_total (nx t) k Y"
proof -
  have "(\<lambda>j. 0.5 * (X ! j) + 0.5 * (Y ! j + c * (L_op t (U t) ! j)))
        = (\<lambda>j. 0.5 * (X ! j) + 0.5 * (Y ! j) + (0.5 * c) * (L_op t (U t) ! j))"
    by (simp add: fun_eq_iff algebra_simps)
  then show ?thesis
    by (simp only: component_total_step [OF assms])
qed

lemma positive_state_cong:
  "nx t = nx s \<Longrightarrow> U t = U s \<Longrightarrow> gamma t = gamma s \<Longrightarrow> positive_state t = positive_state s"
  by (simp add: positive_state_def cell_p_def cell_u_def)

lemma SSP_stages_total:
  assumes "wf_buffers s" "positive_state s" "positive_state (SSP_stage1 s)"
    "positive_state (SSP_stage2 (SSP_stage1 s))"
    "positive_state (SSP_stage3 (SSP_stage2 (SSP_stage1 s)))" "k = 0 \<or> k = 2"
  shows "component_total (nx s) k (U (SSP_stage4 (SSP_stage3 (SSP_stage2 (SSP_stage1 s)))))
         = component_total (nx s) k (U s)"
proof -
  define s0 where "s0 = s\<lparr> dt := step_dt s, Un_f := array_loop (nx s * 3) (\<lambda>i _. U s ! i) (Un_f s) \<rparr>"
  have s0: "wf_buffers s0" "nx s0 = nx s" "gamma s0 = gamma s" "Un_f s0 = U s" "U s0 = U s"
    using assms(1) by (simp_all add: s0_def wf_buffers_def copy_loop)
  have pos0: "positive_state s0"
    using assms(2) positive_state_cong [OF s0(2,5,3)] by simp
  define s1 where "s1 = SSP_stage1 s"
  have s1_eq: "s1 = SSP_half (flux_state s0)"
    by (simp add: s1_def SSP_stage1_def SSP_begin_eq s0_def)
  note p1 = SSP_half_props [OF s0(1), folded s1_eq]
  define s2 where "s2 = SSP_stage2 s1"
  have s2_eq: "s2 = SSP_half (flux_state s1)" by (simp add: s2_def SSP_stage2_def)
  note p2 = SSP_half_props [OF p1(2), folded s2_eq]
  define s3 where "s3 = SSP_stage3 s2"
  note p3 = SSP_stage3_props [OF p2(2), folded s3_def]
  note p4 = SSP_stage4_props [OF p3(2)]
  have pos: "positive_state s1" "positive_state s2" "positive_state s3"
    using assms(3,4,5) by (simp_all only: s1_def s2_def s3_def)
  have n: "nx s0 = nx s" "nx s1 = nx s" "nx s2 = nx s" "nx s3 = nx s"
    by (simp_all only: p3(3) p2(3) p1(3) s0(2))
  have t1: "component_total (nx s) k (U s1) = component_total (nx s) k (U s)"
    unfolding p1(1) using total_half [OF pos0 assms(6)] by (simp only: n s0(5))
  have t2: "component_total (nx s) k (U s2) = component_total (nx s) k (U s)"
    unfolding p2(1) using total_half [OF pos(1) assms(6)] by (simp only: n t1)
  have un: "Un_f s2 = U s" by (simp only: p2(7) p1(7) s0(4))
  have t3: "component_total (nx s) k (U s3) = component_total (nx s) k (U s)"
    unfolding p3(1) using component_total_step [OF pos(2) assms(6)]
    by (simp only: n un t2)
  have "component_total (nx s) k (U (SSP_stage4 s3)) = component_total (nx s) k (U s)"
    unfolding p4(1) using total_half [OF pos(3) assms(6)] by (simp only: n t3)
  then show ?thesis by (simp only: s3_def s2_def s1_def)
qed

lemma RK2_stages_total:
  assumes "wf_buffers s" "positive_state s" "positive_state (RK2_stage1 s)" "k = 0 \<or> k = 2"
  shows "component_total (nx s) k (U (RK2_stage2 (RK2_stage1 s))) = component_total (nx s) k (U s)"
proof -
  note p1 = RK2_stage1_props [OF assms(1)]
  note p2 = RK2_stage2_props [OF p1(4)]
  have t1: "component_total (nx s) k (U (RK2_stage1 s)) = component_total (nx s) k (U s)"
    unfolding p1(1) by (rule total_half [OF assms(2,4)])
  have "component_total (nx s) k (U (RK2_stage2 (RK2_stage1 s)))
        = 0.5 * component_total (nx s) k (U s) + 0.5 * component_total (nx s) k (U (RK2_stage1 s))"
    unfolding p2(1) using total_average [OF assms(3,4)] by (simp only: p1(2,3,5))
  then show ?thesis by (simp add: t1)
qed

lemma total_stage_Uk:
  assumes "wf_buffers t" "positive_state t" "k = 0 \<or> k = 2"
  shows "component_total (nx t) k (Uk (stage_Uk (flux_state t))) = component_total (nx t) k (U t)"
proof -
  from assms(1) have len: "length (Uk t) = nx t * 3" "length (flux t) = (nx t + 1) * 3"
    by (simp_all add: wf_buffers_def)
  have "component_total (nx t) k (Uk (stage_Uk (flux_state t)))
        = component_total (nx t) k (map (\<lambda>j. U t ! j + dt t * (L_op t (U t) ! j)) [0..<nx t * 3])"
    unfolding component_total_def
  proof (rule sum.cong)
    fix i assume "i \<in> {..<nx t}"
    then have j: "i * 3 + k < nx t * 3" using assms(3) by auto
    show "Uk (stage_Uk (flux_state t)) ! (i * 3 + k)
          = map (\<lambda>j. U t ! j + dt t * (L_op t (U t) ! j)) [0..<nx t * 3] ! (i * 3 + k)"
      using j by (simp add: stage_Uk_nth [OF len j])
  qed (rule refl)
  then show ?thesis by (simp only: total_half [OF assms(2,3)])
qed

lemma step_total:
  assumes "wf_buffers s" "stages_positive s" "step s = Inr s'" "k = 0 \<or> k = 2"
  shows "component_total (nx s) k (U s') = component_total (nx s) k (U s)"
    and "wf_buffers s'" and "nx s' = nx s"
proof -
  have "component_total (nx s) k (U s') = component_total (nx s) k (U s) \<and> wf_buffers s'
        \<and> nx s' = nx s"
  proof (cases "integrator s")
    case RK2Integrator
    with assms(2) have pos: "positive_state s" "positive_state (RK2_stage1 s)"
      by (simp_all add: stages_positive_def)
    from assms(3) RK2Integrator have p: "postStep (RK2_stage2 (RK2_stage1 s)) = Inr s'"
      by (simp add: step_def RK2_step_def)
    note f = postStep_fields [OF p]
    note p1 = RK2_stage1_props [OF assms(1)]
    note p2 = RK2_stage2_props [OF p1(4)]
    have wf: "wf_buffers s'"
      using p2(2) unfolding wf_buffers_def f by simp
    have n: "nx s' = nx s" by (simp only: f(1) p2(3) p1(5))
    from RK2_stages_total [OF assms(1) pos assms(4)] wf n show ?thesis
      by (simp only: f(8) simp_thms)
  next
    case SSPIntegrator
    with assms(2) have pos: "positive_state s" "positive_state (SSP_stage1 s)"
        "positive_state (SSP_stage2 (SSP_stage1 s))"
        "positive_state (SSP_stage3 (SSP_stage2 (SSP_stage1 s)))"
      by (simp_all add: stages_positive_def)
    from assms(3) SSPIntegrator have p:
      "postStep (SSP_stage4 (SSP_stage3 (SSP_stage2 (SSP_stage1 s)))) = Inr s'"
      by (simp add: step_def SSP_step_def)
    note f = postStep_fields [OF p]
    define s0 where "s0 = s\<lparr> dt := step_dt s, Un_f := array_loop (nx s * 3) (\<lambda>i _. U s ! i) (Un_f s) \<rparr>"
    have s0: "wf_buffers s0" "nx s0 = nx s"
      using assms(1) by (simp_all add: s0_def wf_buffers_def)
    have s1_eq: "SSP_stage1 s = SSP_half (flux_state s0)"
      by (simp add: SSP_stage1_def SSP_begin_eq s0_def)
    note p1 = SSP_half_props [OF s0(1), folded s1_eq]
    have s2_eq: "SSP_stage2 (SSP_stage1 s) = SSP_half (flux_state (SSP_stage1 s))"
      by (simp add: SSP_stage2_def)
    note p2 = SSP_half_props [OF p1(2), folded s2_eq]
    note p3 = SSP_stage3_props [OF p2(2)]
    note p4 = SSP_stage4_props [OF p3(2)]
    have wf: "wf_buffers s'"
      using p4(2) unfolding wf_buffers_def f by simp
    have n: "nx s' = nx s" by (simp only: f(1) p4(3) p3(3) p2(3) p1(3) s0(2))
    from SSP_stages_total [OF assms(1) pos assms(4)] wf n show ?thesis
      by (simp only: f(8) simp_thms)
  qed
  then show "component_total (nx s) k (U s') = component_total (nx s) k (U s)"
    and "wf_buffers s'" and "nx s' = nx s"
    by blast+
qed

lemma steps_total:
  assumes "k = 0 \<or> k = 2"
  shows "wf_buffers s \<Longrightarrow> positive_run n s \<Longrightarrow> steps n s = Inr s' \<Longrightarrow>
           component_total (nx s) k (U s') = component_total (nx s) k (U s)"
proof (induction n arbitrary: s)
  case 0
  then show ?case by simp
next
  case (Suc n)
  from Suc.prems(3) obtain s1 where s1: "step s = Inr s1" "steps n s1 = Inr s'"
    by (auto split: sum.splits)
  from Suc.prems(2) s1(1) have pos: "stages_positive s" "positive_run n s1"
    by simp_all
  note a = step_total [OF Suc.prems(1) pos(1) s1(1) assms]
  from Suc.IH [OF a(2) pos(2) s1(2)] show ?case
    by (simp only: a(1,3))
qed

lemma RK2_stages_other:
  "interfaceMethod (RK2_stage2 (RK2_stage1 s)) = interfaceMethod s"
  "regions (RK2_stage2 (RK2_stage1 s)) = regions s"
proof -
  have a: "interfaceMethod (RK2_stage2 t) = interfaceMethod t" "regions (RK2_stage2 t) = regions t"
    for t by (subst RK2_stage2_frame, simp)+
  have b: "interfaceMethod (RK2_stage1 t) = interfaceMethod t" "regions (RK2_stage1 t) = regions t"
    for t by (subst RK2_stage1_frame, simp)+
  show "interfaceMethod (RK2_stage2 (RK2_stage1 s)) = interfaceMethod s"
    "regions (RK2_stage2 (RK2_stage1 s)) = regions s"
    unfolding a b by (rule refl)+
qed

lemma tube_state_facts:
  "wf_buffers tube_state" "positive_state tube_state" "nx tube_state = 2"
  "total_mass 2 (U tube_state) = 4" "total_energy 2 (U tube_state) = 5"
proof -
  show n: "nx tube_state = 2"
    by (simp add: tube_state_def EulerSolver_new_def cfg2_def or_nat_def)
  show "wf_buffers tube_state"
    by (simp add: wf_buffers_def tube_state_def EulerSolver_new_def cfg2_def or_nat_def)
  have "0 < U tube_state ! (i * 3) \<and> 0 < cell_p tube_state i \<and> 0 < gamma tube_state ! i"
    if "i < 2" for i
  proof -
    from that have "i = 0 \<or> i = Suc 0" by auto
    then show ?thesis
      by (auto simp: tube_state_def cell_p_def cell_u_def)
  qed
  then show "positive_state tube_state"
    unfolding positive_state_def n by simp
  show "total_mass 2 (U tube_state) = 4" "total_energy 2 (U tube_state) = 5"
    by (simp_all add: total_mass_def total_energy_def component_total_def tube_state_def
        numeral_2_eq_2)
qed

lemma rest_state_facts:
  "wf_buffers rest_state" "positive_state rest_state" "nx rest_state = 2"
  "total_mass 2 (U rest_state) = 2" "total_energy 2 (U rest_state) = 5"
  "rest0 rest_state 1 2.5 1.4" "integrator rest_state = RK2Integrator"
  "interfaceMethod rest_state \<noteq> ''mixed''" "regions rest_state \<noteq> []"
proof -
  show n: "nx rest_state = 2"
    by (simp add: rest_state_def EulerSolver_new_def cfg2_def or_nat_def)
  show "wf_buffers rest_state"
    by (simp add: wf_buffers_def rest_state_def EulerSolver_new_def cfg2_def or_nat_def)
  have c: "U rest_state ! (i * 3) = 1 \<and> U rest_state ! (i * 3 + 1) = 0
           \<and> U rest_state ! (i * 3 + 2) = 2.5 \<and> gamma rest_state ! i = 1.4
           \<and> 0 < cell_p rest_state i" if "i < 2" for i
  proof -
    from that have "i = 0 \<or> i = Suc 0" by auto
    then show ?thesis
      by (auto simp: rest_state_def cell_p_def cell_u_def)
  qed
  show "positive_state rest_state"
    unfolding positive_state_def n
  proof (intro conjI allI impI)
    fix i :: nat assume i: "i < 2"
    show "0 < U rest_state ! (i * 3)" "0 < gamma rest_state ! i" "0 < cell_p rest_state i"
      using c [OF i] by simp_all
  qed simp
  have "at_rest rest_state 1 2.5 1.4"
    unfolding at_rest_def n using c by blast
  then show "rest0 rest_state 1 2.5 1.4"
    unfolding rest0_def n by simp
  show "total_mass 2 (U rest_state) = 2" "total_energy 2 (U rest_state) = 5"
    by (simp_all add: total_mass_def total_energy_def component_total_def rest_state_def
        numeral_2_eq_2)
  show "integrator rest_state = RK2Integrator"
    "interfaceMethod rest_state \<noteq> ''mixed''" "regions rest_state \<noteq> []"
    by (simp_all add: rest_state_def EulerSolver_new_def cfg2_def or_str_def
        IntegratorFactory_create_def Let_def)
qed

lemma rest_state_step:
  "\<exists>s'. step rest_state = Inr s'" "stages_positive rest_state"
proof -
  note f = rest_state_facts
  have "interfaceMethod (RK2_stage2 (RK2_stage1 rest_state)) \<noteq> ''mixed''"
    "regions (RK2_stage2 (RK2_stage1 rest_state)) \<noteq> []"
    unfolding RK2_stages_other by (rule f)+
  from postStep_nonmixed_ok [OF this] show "\<exists>s'. step rest_state = Inr s'"
    by (simp add: step_def RK2_step_def f(7))
  note q = quiet_RK2_stage1 [OF f(6) same_physics_refl f(1)]
  note p = same_physics_fields [OF q(1)]
  have "positive_state (RK2_stage1 rest_state)"
    using f(2) positive_state_cong [OF p(1,8,13)] by simp
  then show "stages_positive rest_state"
    by (simp add: stages_positive_def f(7) f(2))
qed

text \<open>
  C8. In a state whose buffers have their sizes and whose cells all have positive
  density, pressure and heat-capacity ratio, \<^verbatim>\<open>computeFluxes\<close> leaves exactly zero in
  the mass and the energy entry of the flux at the two walls, the conservative update
  computed from these fluxes has the total mass and the total energy of the state, and
  after any number of integrator steps whose stages all start from such a state the
  total mass and the total energy of U are those of the first state.
\<close>

theorem reflective_walls_conserve:
  assumes "wf_buffers s" "positive_state s"
  shows "flux (flux_state s) ! 0 = 0 \<and> flux (flux_state s) ! 2 = 0
       \<and> flux (flux_state s) ! (nx s * 3) = 0 \<and> flux (flux_state s) ! (nx s * 3 + 2) = 0
       \<and> total_mass (nx s) (Uk (stage_Uk (flux_state s))) = total_mass (nx s) (U s)
       \<and> total_energy (nx s) (Uk (stage_Uk (flux_state s))) = total_energy (nx s) (U s)
       \<and> (\<forall>n s'. positive_run n s \<and> steps n s = Inr s' \<longrightarrow>
              total_mass (nx s) (U s') = total_mass (nx s) (U s)
            \<and> total_energy (nx s) (U s') = total_energy (nx s) (U s))"
proof -
  from assms(1) have len: "length (flux s) = (nx s + 1) * 3" by (simp add: wf_buffers_def)
  note w = wall_flux_zero [OF assms(2)]
  have "flux (flux_state s) ! 0 = 0" "flux (flux_state s) ! 2 = 0"
    "flux (flux_state s) ! (nx s * 3) = 0" "flux (flux_state s) ! (nx s * 3 + 2) = 0"
    using w by (simp_all add: flux_state_nth [OF len])
  moreover have "total_mass (nx s) (Uk (stage_Uk (flux_state s))) = total_mass (nx s) (U s)"
    "total_energy (nx s) (Uk (stage_Uk (flux_state s))) = total_energy (nx s) (U s)"
    unfolding total_mass_def total_energy_def
    by (rule total_stage_Uk [OF assms], simp)+
  moreover have "total_mass (nx s) (U s') = total_mass (nx s) (U s)
            \<and> total_energy (nx s) (U s') = total_energy (nx s) (U s)"
    if "positive_run n s \<and> steps n s = Inr s'" for n s'
    unfolding total_mass_def total_energy_def
    using steps_total [OF _ assms(1), of 0 n s'] steps_total [OF _ assms(1), of 2 n s'] that
    by simp
  ultimately show ?thesis by blast
qed

theorem reflective_walls_conserve_witness:
  "wf_buffers tube_state \<and> positive_state tube_state
   \<and> flux (flux_state tube_state) ! 0 = 0 \<and> flux (flux_state tube_state) ! 2 = 0
   \<and> flux (flux_state tube_state) ! 6 = 0 \<and> flux (flux_state tube_state) ! 8 = 0
   \<and> total_mass 2 (Uk (stage_Uk (flux_state tube_state))) = 4
   \<and> total_energy 2 (Uk (stage_Uk (flux_state tube_state))) = 5
   \<and> wf_buffers rest_state \<and> positive_state rest_state \<and> positive_run (Suc 0) rest_state
   \<and> (\<exists>s'. steps (Suc 0) rest_state = Inr s' \<and> total_mass 2 (U s') = 2
          \<and> total_energy 2 (U s') = 5)"
proof -
  note a = tube_state_facts
  note b = rest_state_facts
  from rest_state_step(1) obtain s' where s': "step rest_state = Inr s'" by blast
  have run: "positive_run (Suc 0) rest_state" "steps (Suc 0) rest_state = Inr s'"
    using rest_state_step(2) s' by simp_all
  from reflective_walls_conserve [OF a(1,2)]
  have t: "flux (flux_state tube_state) ! 0 = 0 \<and> flux (flux_state tube_state) ! 2 = 0
   \<and> flux (flux_state tube_state) ! 6 = 0 \<and> flux (flux_state tube_state) ! 8 = 0
   \<and> total_mass 2 (Uk (stage_Uk (flux_state tube_state))) = 4
   \<and> total_energy 2 (Uk (stage_Uk (flux_state tube_state))) = 5"
    by (simp add: a(3,4,5))
  from reflective_walls_conserve [OF b(1,2)] run
  have "total_mass 2 (U s') = 2 \<and> total_energy 2 (U s') = 5"
    unfolding b(3,4,5) by blast
  with t a(1,2) b(1,2) run show ?thesis by blast
qed

end
